(* ===== verification/Prelude.thy ===== *)
theory Prelude
  imports Main "HOL-Library.Word"
begin

text \<open>
  Shared vocabulary of the development: bytes and the strings that carry them, hexadecimal
  text, UTF-8 validity, the scan-until-success loop that both ends of the dashboard use to
  find a time slot, and the contract \<open>sealed_box\<close> of a message sealed for one slot, under which
  what such a scan finds is proved once for requests, responses and passwords.
\<close>

section \<open>Proof collections\<close>

named_theorems codec_simps \<open>round trips of the encoders\<close>
named_theorems len_simps \<open>lengths of digests, blocks and encodings\<close>

section \<open>Bytes and strings\<close>

type_synonym byte = "8 word"
type_synonym bytes = "byte list"

text \<open>
  A JavaScript or Go string is represented by its UTF-8 bytes, kept in the \<open>string\<close> type so
  that literals stay readable. The two conversions are inverse to each other.
\<close>

definition bytes_of :: "string \<Rightarrow> bytes" where
  "bytes_of s = map (\<lambda>c. of_char c) s"

definition string_of :: "bytes \<Rightarrow> string" where
  "string_of bs = map (\<lambda>b. char_of (unat b)) bs"

lemma length_bytes_of [simp, len_simps]: "length (bytes_of s) = length s"
  by (simp add: bytes_of_def)

lemma length_string_of [simp, len_simps]: "length (string_of bs) = length bs"
  by (simp add: string_of_def)

lemma unat_byte_less: "unat (b :: byte) < 256"
  by (rule order_less_le_trans [OF unsigned_less]) simp

lemma of_char_byte: "unat (of_char c :: byte) = (of_char c :: nat)"
proof -
  have "(of_char c :: byte) = of_nat (of_char c)" by (simp only: of_nat_of_char)
  moreover have "(of_char c :: nat) < 256" by simp
  ultimately show ?thesis by (simp add: unat_of_nat)
qed

lemma string_of_bytes_of [simp, codec_simps]: "string_of (bytes_of s) = s"
  by (induction s) (simp_all add: string_of_def bytes_of_def of_char_byte)

lemma bytes_of_string_of [simp, codec_simps]: "bytes_of (string_of bs) = bs"
proof (induction bs)
  case (Cons b bs)
  have "(of_char (char_of (unat b) :: char) :: byte) = of_nat (unat b mod 256)"
    by (metis of_char_of of_nat_of_char)
  also have "unat b mod 256 = unat b"
    using unat_byte_less [of b] by simp
  finally show ?case using Cons by (simp add: string_of_def bytes_of_def)
qed (simp add: string_of_def bytes_of_def)

lemma bytes_of_append [simp]: "bytes_of (s @ t) = bytes_of s @ bytes_of t"
  by (simp add: bytes_of_def)

lemma bytes_of_Nil [simp]: "bytes_of [] = []"
  by (simp add: bytes_of_def)

lemma string_of_Nil [simp]: "string_of [] = []"
  by (simp add: string_of_def)

lemma bytes_of_inject [simp]: "bytes_of s = bytes_of t \<longleftrightarrow> s = t"
  by (metis string_of_bytes_of)

section \<open>Hexadecimal text\<close>

text \<open>
  \<open>hex_encode\<close> is the lower-case text that Go's \<open>hex.EncodeToString\<close> and CryptoJS's
  \<open>WordArray.toString()\<close> produce; \<open>hex_decode\<close> is Go's \<open>hex.DecodeString\<close>, which
  takes both cases and fails on an odd length or on any other character.
\<close>

definition hex_digit :: "nat \<Rightarrow> char" where
  "hex_digit n = (if n < 10 then char_of (48 + n) else char_of (87 + n))"

definition hex_value :: "char \<Rightarrow> nat option" where
  "hex_value c = (let n = of_char c :: nat in
     if 48 \<le> n \<and> n \<le> 57 then Some (n - 48)
     else if 97 \<le> n \<and> n \<le> 102 then Some (n - 87)
     else if 65 \<le> n \<and> n \<le> 70 then Some (n - 55)
     else None)"

fun hex_encode :: "bytes \<Rightarrow> string" where
  "hex_encode [] = []"
| "hex_encode (b # bs) = hex_digit (unat b div 16) # hex_digit (unat b mod 16) # hex_encode bs"

fun hex_decode :: "string \<Rightarrow> bytes option" where
  "hex_decode [] = Some []"
| "hex_decode [c] = None"
| "hex_decode (c # d # cs) =
     (case (hex_value c, hex_value d, hex_decode cs) of
        (Some h, Some l, Some bs) \<Rightarrow> Some (of_nat (16 * h + l) # bs)
      | _ \<Rightarrow> None)"

lemma hex_value_digit [simp]: "n < 16 \<Longrightarrow> hex_value (hex_digit n) = Some n"
  by (auto simp: hex_value_def hex_digit_def)

lemma hex_decode_encode [simp, codec_simps]: "hex_decode (hex_encode bs) = Some bs"
proof (induction bs)
  case (Cons b bs)
  have "unat b div 16 < 16"
    using unat_byte_less [of b] by (simp add: less_mult_imp_div_less)
  then show ?case using Cons by simp
qed simp

lemma length_hex_encode [simp, len_simps]: "length (hex_encode bs) = 2 * length bs"
  by (induction bs) simp_all

lemma take_hex_encode: "take (2 * n) (hex_encode bs) = hex_encode (take n bs)"
proof (induction n arbitrary: bs)
  case (Suc n)
  then show ?case by (cases bs) simp_all
qed simp

lemma hex_encode_inject [simp]: "hex_encode xs = hex_encode ys \<longleftrightarrow> xs = ys"
  by (metis hex_decode_encode option.inject)

lemma hex_encode_Nil_iff [simp]: "hex_encode bs = [] \<longleftrightarrow> bs = []"
  by (cases bs) simp_all

section \<open>UTF-8\<close>

text \<open>
  Which byte sequences are the UTF-8 text of some string (RFC 3629, table 3.7 of the Unicode
  standard): a decoder that is asked for text throws on any other sequence.
\<close>

definition cont :: "byte \<Rightarrow> bool" where
  "cont b \<longleftrightarrow> 0x80 \<le> unat b \<and> unat b \<le> 0xBF"

fun utf8_ok :: "bytes \<Rightarrow> bool" where
  "utf8_ok [] = True"
| "utf8_ok (a # as) =
     (let n = unat a in
      if n < 0x80 then utf8_ok as
      else if 0xC2 \<le> n \<and> n \<le> 0xDF then
        (case as of b # bs \<Rightarrow> cont b \<and> utf8_ok bs | _ \<Rightarrow> False)
      else if 0xE0 \<le> n \<and> n \<le> 0xEF then
        (case as of b # c # cs \<Rightarrow>
           cont b \<and> (n = 0xE0 \<longrightarrow> 0xA0 \<le> unat b) \<and> (n = 0xED \<longrightarrow> unat b \<le> 0x9F) \<and>
           cont c \<and> utf8_ok cs
         | _ \<Rightarrow> False)
      else if 0xF0 \<le> n \<and> n \<le> 0xF4 then
        (case as of b # c # d # ds \<Rightarrow>
           cont b \<and> (n = 0xF0 \<longrightarrow> 0x90 \<le> unat b) \<and> (n = 0xF4 \<longrightarrow> unat b \<le> 0x8F) \<and>
           cont c \<and> cont d \<and> utf8_ok ds
         | _ \<Rightarrow> False)
      else False)"

lemma utf8_ok_ascii: "\<forall>b \<in> set bs. unat b < 0x80 \<Longrightarrow> utf8_ok bs"
  by (induction bs) simp_all

lemma utf8_ok_append: "utf8_ok as \<Longrightarrow> utf8_ok bs \<Longrightarrow> utf8_ok (as @ bs)"
  by (induction as rule: utf8_ok.induct) (auto simp: Let_def split: if_splits list.splits)

section \<open>Scanning for the first success\<close>

text \<open>
  The loops \<open>for (i = ...) { try { ...; return } catch (e) {} }\<close> of the client and
  \<open>for i := ... { if err != nil { continue }; return }\<close> of the server: the candidates are
  tried in order, a failure moves on, the first success ends the loop.
\<close>

fun first_hit :: "('a \<Rightarrow> 'b option) \<Rightarrow> 'a list \<Rightarrow> 'b option" where
  "first_hit f [] = None"
| "first_hit f (x # xs) = (case f x of Some y \<Rightarrow> Some y | None \<Rightarrow> first_hit f xs)"

lemma first_hit_None_iff: "first_hit f xs = None \<longleftrightarrow> (\<forall>x \<in> set xs. f x = None)"
  by (induction xs) (auto split: option.splits)

lemma first_hit_append:
  "first_hit f (xs @ ys) = (case first_hit f xs of Some y \<Rightarrow> Some y | None \<Rightarrow> first_hit f ys)"
  by (induction xs) (auto split: option.splits)

lemma first_hit_at:
  assumes "f x = Some y" and "\<forall>z \<in> set ys. f z = None"
  shows "first_hit f (ys @ x # zs) = Some y"
proof -
  from assms(2) have "first_hit f ys = None" by (simp add: first_hit_None_iff)
  with assms(1) show ?thesis by (simp add: first_hit_append)
qed

lemma first_hit_SomeE:
  assumes "first_hit f xs = Some y"
  obtains x where "x \<in> set xs" and "f x = Some y"
  using assms by (induction xs) (auto split: option.splits)

lemma first_hit_cong: "(\<And>x. x \<in> set xs \<Longrightarrow> f x = g x) \<Longrightarrow> first_hit f xs = first_hit g xs"
  by (induction xs) (auto split: option.splits)

text \<open>The time slots of one scan: \<open>for (i = tick - padding; i < tick + padding; i++)\<close>.\<close>

definition window :: "int \<Rightarrow> int \<Rightarrow> int list" where
  "window tick padding = [tick - padding..tick + padding - 1]"

lemma set_window [simp]: "i \<in> set (window tick padding) \<longleftrightarrow> tick - padding \<le> i \<and> i < tick + padding"
  by (auto simp: window_def)

lemma window_split:
  assumes "tick - padding \<le> s" and "s < tick + padding"
  shows "window tick padding = [tick - padding..s - 1] @ s # [s + 1..tick + padding - 1]"
proof -
  have "[tick - padding..tick + padding - 1] = [tick - padding..s - 1] @ [s..tick + padding - 1]"
    by (rule upto_split1) (use assms in auto)
  also have "[s..tick + padding - 1] = s # [s + 1..tick + padding - 1]"
    by (rule upto_rec1) (use assms in auto)
  finally show ?thesis by (simp add: window_def)
qed

lemma first_hit_window:
  assumes "tick - padding \<le> s" and "s < tick + padding" and "f s = Some y"
    and "\<And>i. tick - padding \<le> i \<Longrightarrow> i < s \<Longrightarrow> f i = None"
  shows "first_hit f (window tick padding) = Some y"
  unfolding window_split [OF assms(1,2)]
  by (rule first_hit_at) (use assms(3,4) in auto)

section \<open>Messages sealed for a time slot\<close>

text \<open>
  One side seals a message for the slot its clock shows; the other scans the slots around its
  own clock and reads the message (\<open>view\<close>, for instance as parsed data). \<open>fits\<close> says which
  messages the transport carries at all.
\<close>

locale sealed_box =
  fixes seal :: "int \<Rightarrow> 'm \<Rightarrow> 'c"
    and unseal :: "int \<Rightarrow> 'c \<Rightarrow> 'r option"
    and view :: "'m \<Rightarrow> 'r"
    and fits :: "int \<Rightarrow> 'm \<Rightarrow> bool"
  assumes unseal_seal: "fits s m \<Longrightarrow> unseal s (seal s m) = Some (view m)"
begin

lemma scan_total:
  assumes "fits s m" and "tick - padding \<le> s" and "s < tick + padding"
  shows "first_hit (\<lambda>i. unseal i (seal s m)) (window tick padding) \<noteq> None"
proof
  assume "first_hit (\<lambda>i. unseal i (seal s m)) (window tick padding) = None"
  then have "unseal s (seal s m) = None"
    using assms(2,3) unfolding first_hit_None_iff by (auto dest!: bspec [of _ _ s])
  then show False using unseal_seal [OF assms(1)] by simp
qed

lemma scan_finds:
  assumes "fits s m" and "tick - padding \<le> s" and "s < tick + padding"
    and "\<And>i. tick - padding \<le> i \<Longrightarrow> i < s \<Longrightarrow> unseal i (seal s m) = None"
  shows "first_hit (\<lambda>i. unseal i (seal s m)) (window tick padding) = Some (view m)"
  by (rule first_hit_window [OF assms(2,3)]) (use unseal_seal [OF assms(1)] assms(4) in auto)

end

section \<open>Runs\<close>

lemma any_event [simp]: "list_all (\<lambda>_. True) evs"
  by (simp add: list_all_iff)

text \<open>
  A machine whose steps are functions of an event and the state: what every allowed step keeps is kept by
  every run of allowed events.
\<close>

locale kept_by_steps =
  fixes step :: "'e \<Rightarrow> 's \<Rightarrow> 's" and allowed :: "'e \<Rightarrow> bool" and I :: "'s \<Rightarrow> bool"
  assumes keeps: "allowed e \<Longrightarrow> I s \<Longrightarrow> I (step e s)"
begin

lemma kept_by_run: "list_all allowed evs \<Longrightarrow> I s \<Longrightarrow> I (fold step evs s)"
  by (induction evs arbitrary: s) (simp_all add: keeps)

end

end
