(* ===== verification/Std_Crypto.thy ===== *)
theory Std_Crypto
  imports Prelude
begin

text \<open>
  The standard-library cryptography the server side calls: \<open>crypto/sha256\<close> (SHA-256 and
  SHA-224), \<open>crypto/hmac\<close>, \<open>crypto/aes\<close> with a 32-byte key and the cipher-feedback mode of
  \<open>crypto/cipher\<close>, and the base-64 text that the client passes through its cipher library. They
  are written out as the published standards (FIPS 180-4, FIPS 198-1, FIPS 197, SP 800-38A,
  RFC 4648), so that the bytes which travel between the two ends are the real ones. The
  contracts \<open>hash_fn\<close> and \<open>block_cipher\<close> hold what the rest of the development needs of them.
\<close>

unbundle bit_operations_syntax

type_synonym word32 = "32 word"

section \<open>SHA-2\<close>

definition rotr32 :: "nat \<Rightarrow> word32 \<Rightarrow> word32" where
  "rotr32 n w = drop_bit n w OR push_bit (32 - n) w"

text \<open>
  The round constants are the first 32 bits of the fractional parts of the cube roots of the
  first 64 primes. \<open>cube_root\<close> fixes the bits of an integer cube root from the top down.
\<close>

fun cube_root :: "nat \<Rightarrow> int \<Rightarrow> int \<Rightarrow> int" where
  "cube_root 0 r n = r"
| "cube_root (Suc k) r n =
     (let c = r + 2 ^ k in cube_root k (if c * c * c \<le> n then c else r) n)"

definition small_primes :: "int list" where
  "small_primes = filter (\<lambda>n. list_all (\<lambda>d. n mod d \<noteq> 0) [2..n - 1]) [2..311]"

definition sha_K :: "word32 list" where
  "sha_K = map (\<lambda>p. of_int (cube_root 36 0 (p * 2 ^ 96))) small_primes"

definition big_sigma0 :: "word32 \<Rightarrow> word32" where
  "big_sigma0 x = rotr32 2 x XOR rotr32 13 x XOR rotr32 22 x"

definition big_sigma1 :: "word32 \<Rightarrow> word32" where
  "big_sigma1 x = rotr32 6 x XOR rotr32 11 x XOR rotr32 25 x"

definition small_sigma0 :: "word32 \<Rightarrow> word32" where
  "small_sigma0 x = rotr32 7 x XOR rotr32 18 x XOR drop_bit 3 x"

definition small_sigma1 :: "word32 \<Rightarrow> word32" where
  "small_sigma1 x = rotr32 17 x XOR rotr32 19 x XOR drop_bit 10 x"

definition sha_ch :: "word32 \<Rightarrow> word32 \<Rightarrow> word32 \<Rightarrow> word32" where
  "sha_ch x y z = (x AND y) XOR (NOT x AND z)"

definition sha_maj :: "word32 \<Rightarrow> word32 \<Rightarrow> word32 \<Rightarrow> word32" where
  "sha_maj x y z = (x AND y) XOR (x AND z) XOR (y AND z)"

text \<open>The message schedule, newest word first while it grows.\<close>

fun sha_schedule :: "nat \<Rightarrow> word32 list \<Rightarrow> word32 list" where
  "sha_schedule 0 ws = rev ws"
| "sha_schedule (Suc n) ws =
     sha_schedule n ((small_sigma1 (ws ! 1) + ws ! 6 + small_sigma0 (ws ! 14) + ws ! 15) # ws)"

type_synonym sha_state =
  "word32 \<times> word32 \<times> word32 \<times> word32 \<times> word32 \<times> word32 \<times> word32 \<times> word32"

fun sha_round :: "sha_state \<Rightarrow> word32 \<times> word32 \<Rightarrow> sha_state" where
  "sha_round (a, b, c, d, e, f, g, h) (k, w) =
     (let t1 = h + big_sigma1 e + sha_ch e f g + k + w;
          t2 = big_sigma0 a + sha_maj a b c
      in (t1 + t2, a, b, c, d + t1, e, f, g))"

fun sha_add :: "sha_state \<Rightarrow> sha_state \<Rightarrow> sha_state" where
  "sha_add (a, b, c, d, e, f, g, h) (a', b', c', d', e', f', g', h') =
     (a + a', b + b', c + c', d + d', e + e', f + f', g + g', h + h')"

definition sha_block :: "sha_state \<Rightarrow> word32 list \<Rightarrow> sha_state" where
  "sha_block st ws =
     sha_add st (foldl sha_round st (zip sha_K (sha_schedule 48 (rev ws))))"

fun be_words :: "bytes \<Rightarrow> word32 list" where
  "be_words (a # b # c # d # bs) =
     (push_bit 24 (ucast a) OR push_bit 16 (ucast b) OR push_bit 8 (ucast c) OR ucast d)
     # be_words bs"
| "be_words _ = []"

definition word_bytes :: "word32 \<Rightarrow> bytes" where
  "word_bytes w =
     [ucast (drop_bit 24 w), ucast (drop_bit 16 w), ucast (drop_bit 8 w), ucast w]"

definition len64 :: "nat \<Rightarrow> bytes" where
  "len64 n = map (\<lambda>i. ucast (drop_bit i (of_nat n :: 64 word))) [56, 48, 40, 32, 24, 16, 8, 0]"

definition sha_pad :: "bytes \<Rightarrow> bytes" where
  "sha_pad m = m @ [0x80] @ replicate ((119 - length m mod 64) mod 64) 0 @ len64 (8 * length m)"

function sha_blocks :: "sha_state \<Rightarrow> word32 list \<Rightarrow> sha_state" where
  "sha_blocks st ws =
     (if ws = [] then st else sha_blocks (sha_block st (take 16 ws)) (drop 16 ws))"
  by pat_completeness auto
termination
  by (relation "measure (\<lambda>(st, ws). length ws)") auto

declare sha_blocks.simps [simp del]

fun sha_bytes :: "sha_state \<Rightarrow> bytes" where
  "sha_bytes (a, b, c, d, e, f, g, h) =
     word_bytes a @ word_bytes b @ word_bytes c @ word_bytes d @
     word_bytes e @ word_bytes f @ word_bytes g @ word_bytes h"

definition sha256_init :: sha_state where
  "sha256_init = (0x6a09e667, 0xbb67ae85, 0x3c6ef372, 0xa54ff53a,
    0x510e527f, 0x9b05688c, 0x1f83d9ab, 0x5be0cd19)"

definition sha224_init :: sha_state where
  "sha224_init = (0xc1059ed8, 0x367cd507, 0x3070dd17, 0xf70e5939,
    0xffc00b31, 0x68581511, 0x64f98fa7, 0xbefa4fa4)"

definition sha256 :: "bytes \<Rightarrow> bytes" where
  "sha256 m = sha_bytes (sha_blocks sha256_init (be_words (sha_pad m)))"

definition sha224 :: "bytes \<Rightarrow> bytes" where
  "sha224 m = take 28 (sha_bytes (sha_blocks sha224_init (be_words (sha_pad m))))"

lemma length_sha_bytes [simp, len_simps]: "length (sha_bytes st) = 32"
  by (cases st rule: sha_bytes.cases) (simp add: word_bytes_def)

locale hash_fn =
  fixes H :: "bytes \<Rightarrow> bytes" and L :: nat
  assumes H_len: "length (H m) = L"
begin

lemma hex_len: "length (hex_encode (H m)) = 2 * L"
  by (simp add: H_len)

lemma hex_text_ne: "0 < L \<Longrightarrow> hex_encode (H m) \<noteq> []"
  using hex_len [of m] by auto

end

interpretation sha256_fn: hash_fn sha256 32
  by unfold_locales (simp add: sha256_def)

interpretation sha224_fn: hash_fn sha224 28
  by unfold_locales (simp add: sha224_def)

lemmas sha_len [simp, len_simps] = sha256_fn.H_len sha224_fn.H_len

section \<open>HMAC\<close>

definition hmac_key :: "(bytes \<Rightarrow> bytes) \<Rightarrow> bytes \<Rightarrow> bytes" where
  "hmac_key H k = (let k' = (if length k > 64 then H k else k) in k' @ replicate (64 - length k') 0)"

definition hmac :: "(bytes \<Rightarrow> bytes) \<Rightarrow> bytes \<Rightarrow> bytes \<Rightarrow> bytes" where
  "hmac H k m = (let k0 = hmac_key H k in
     H (map (\<lambda>b. b XOR 0x5c) k0 @ H (map (\<lambda>b. b XOR 0x36) k0 @ m)))"

definition hmac_sha256 :: "bytes \<Rightarrow> bytes \<Rightarrow> bytes" where
  "hmac_sha256 k m = hmac sha256 k m"

lemma length_hmac_sha256 [simp, len_simps]: "length (hmac_sha256 k m) = 32"
  by (simp add: hmac_sha256_def hmac_def Let_def)

section \<open>AES with a 32-byte key\<close>

definition aes_sbox :: "byte list" where
  "aes_sbox = [
    0x63, 0x7c, 0x77, 0x7b, 0xf2, 0x6b, 0x6f, 0xc5, 0x30, 0x01, 0x67, 0x2b, 0xfe, 0xd7, 0xab, 0x76,
    0xca, 0x82, 0xc9, 0x7d, 0xfa, 0x59, 0x47, 0xf0, 0xad, 0xd4, 0xa2, 0xaf, 0x9c, 0xa4, 0x72, 0xc0,
    0xb7, 0xfd, 0x93, 0x26, 0x36, 0x3f, 0xf7, 0xcc, 0x34, 0xa5, 0xe5, 0xf1, 0x71, 0xd8, 0x31, 0x15,
    0x04, 0xc7, 0x23, 0xc3, 0x18, 0x96, 0x05, 0x9a, 0x07, 0x12, 0x80, 0xe2, 0xeb, 0x27, 0xb2, 0x75,
    0x09, 0x83, 0x2c, 0x1a, 0x1b, 0x6e, 0x5a, 0xa0, 0x52, 0x3b, 0xd6, 0xb3, 0x29, 0xe3, 0x2f, 0x84,
    0x53, 0xd1, 0x00, 0xed, 0x20, 0xfc, 0xb1, 0x5b, 0x6a, 0xcb, 0xbe, 0x39, 0x4a, 0x4c, 0x58, 0xcf,
    0xd0, 0xef, 0xaa, 0xfb, 0x43, 0x4d, 0x33, 0x85, 0x45, 0xf9, 0x02, 0x7f, 0x50, 0x3c, 0x9f, 0xa8,
    0x51, 0xa3, 0x40, 0x8f, 0x92, 0x9d, 0x38, 0xf5, 0xbc, 0xb6, 0xda, 0x21, 0x10, 0xff, 0xf3, 0xd2,
    0xcd, 0x0c, 0x13, 0xec, 0x5f, 0x97, 0x44, 0x17, 0xc4, 0xa7, 0x7e, 0x3d, 0x64, 0x5d, 0x19, 0x73,
    0x60, 0x81, 0x4f, 0xdc, 0x22, 0x2a, 0x90, 0x88, 0x46, 0xee, 0xb8, 0x14, 0xde, 0x5e, 0x0b, 0xdb,
    0xe0, 0x32, 0x3a, 0x0a, 0x49, 0x06, 0x24, 0x5c, 0xc2, 0xd3, 0xac, 0x62, 0x91, 0x95, 0xe4, 0x79,
    0xe7, 0xc8, 0x37, 0x6d, 0x8d, 0xd5, 0x4e, 0xa9, 0x6c, 0x56, 0xf4, 0xea, 0x65, 0x7a, 0xae, 0x08,
    0xba, 0x78, 0x25, 0x2e, 0x1c, 0xa6, 0xb4, 0xc6, 0xe8, 0xdd, 0x74, 0x1f, 0x4b, 0xbd, 0x8b, 0x8a,
    0x70, 0x3e, 0xb5, 0x66, 0x48, 0x03, 0xf6, 0x0e, 0x61, 0x35, 0x57, 0xb9, 0x86, 0xc1, 0x1d, 0x9e,
    0xe1, 0xf8, 0x98, 0x11, 0x69, 0xd9, 0x8e, 0x94, 0x9b, 0x1e, 0x87, 0xe9, 0xce, 0x55, 0x28, 0xdf,
    0x8c, 0xa1, 0x89, 0x0d, 0xbf, 0xe6, 0x42, 0x68, 0x41, 0x99, 0x2d, 0x0f, 0xb0, 0x54, 0xbb, 0x16]"

definition sub_byte :: "byte \<Rightarrow> byte" where
  "sub_byte b = aes_sbox ! unat b"

definition xtime :: "byte \<Rightarrow> byte" where
  "xtime b = push_bit 1 b XOR (if bit b 7 then 0x1b else 0)"

definition xor_bytes :: "bytes \<Rightarrow> bytes \<Rightarrow> bytes" where
  "xor_bytes xs ys = map2 (XOR) xs ys"

text \<open>The key schedule (60 words of four bytes), newest word first while it grows.\<close>

fun aes_rcon :: "nat \<Rightarrow> byte" where
  "aes_rcon 0 = 1"
| "aes_rcon (Suc n) = xtime (aes_rcon n)"

definition aes_next_word :: "nat \<Rightarrow> bytes list \<Rightarrow> bytes" where
  "aes_next_word i ws =
     (let t = ws ! 0;
          t' = (if i mod 8 = 0 then
                  xor_bytes (map sub_byte (tl t @ [hd t])) [aes_rcon (i div 8 - 1), 0, 0, 0]
                else if i mod 8 = 4 then map sub_byte t else t)
      in xor_bytes (ws ! 7) t')"

fun aes_expand :: "nat \<Rightarrow> nat \<Rightarrow> bytes list \<Rightarrow> bytes list" where
  "aes_expand i 0 ws = rev ws"
| "aes_expand i (Suc n) ws = aes_expand (Suc i) n (aes_next_word i ws # ws)"

definition aes_key_words :: "bytes \<Rightarrow> bytes list" where
  "aes_key_words key = map (\<lambda>i. take 4 (drop (4 * i) key)) [0..<8]"

definition aes_round_keys :: "bytes \<Rightarrow> bytes list" where
  "aes_round_keys key =
     (let ws = aes_expand 8 52 (rev (aes_key_words key))
      in map (\<lambda>r. concat (take 4 (drop (4 * r) ws))) [0..<15])"

definition shift_rows :: "bytes \<Rightarrow> bytes" where
  "shift_rows s = map (\<lambda>i. s ! i) [0, 5, 10, 15, 4, 9, 14, 3, 8, 13, 2, 7, 12, 1, 6, 11]"

fun mix_columns :: "bytes \<Rightarrow> bytes" where
  "mix_columns (a # b # c # d # s) =
     (xtime a XOR xtime b XOR b XOR c XOR d) # (a XOR xtime b XOR xtime c XOR c XOR d) #
     (a XOR b XOR xtime c XOR xtime d XOR d) # (xtime a XOR a XOR b XOR c XOR xtime d) #
     mix_columns s"
| "mix_columns s = []"

definition add_round_key :: "bytes \<Rightarrow> bytes \<Rightarrow> bytes" where
  "add_round_key k s = map (\<lambda>i. s ! i XOR k ! i) [0..<16]"

definition aes_round :: "bytes \<Rightarrow> bytes \<Rightarrow> bytes" where
  "aes_round s k = add_round_key k (mix_columns (shift_rows (map sub_byte s)))"

definition aes256 :: "bytes \<Rightarrow> bytes \<Rightarrow> bytes" where
  "aes256 key blk =
     (let ks = aes_round_keys key;
          s = foldl aes_round (add_round_key (ks ! 0) blk) (take 13 (tl ks))
      in add_round_key (ks ! 14) (shift_rows (map sub_byte s)))"

section \<open>Cipher feedback\<close>

function cfb_encrypt :: "(bytes \<Rightarrow> bytes) \<Rightarrow> bytes \<Rightarrow> bytes \<Rightarrow> bytes" where
  "cfb_encrypt E iv p =
     (if p = [] then []
      else let c = xor_bytes (take 16 p) (E iv) in c @ cfb_encrypt E c (drop 16 p))"
  by pat_completeness auto
termination
  by (relation "measure (\<lambda>(E, iv, p). length p)") auto

function cfb_decrypt :: "(bytes \<Rightarrow> bytes) \<Rightarrow> bytes \<Rightarrow> bytes \<Rightarrow> bytes" where
  "cfb_decrypt E iv c =
     (if c = [] then []
      else xor_bytes (take 16 c) (E iv) @ cfb_decrypt E (take 16 c) (drop 16 c))"
  by pat_completeness auto
termination
  by (relation "measure (\<lambda>(E, iv, c). length c)") auto

declare cfb_encrypt.simps [simp del] cfb_decrypt.simps [simp del]

lemma cfb_Nil [simp]: "cfb_encrypt E iv [] = []" "cfb_decrypt E iv [] = []"
  by (simp_all add: cfb_encrypt.simps cfb_decrypt.simps)

lemma length_xor_bytes [simp, len_simps]:
  "length (xor_bytes xs ys) = min (length xs) (length ys)"
  by (simp add: xor_bytes_def)

lemma xor_bytes_cancel: "length xs \<le> length ys \<Longrightarrow> xor_bytes (xor_bytes xs ys) ys = xs"
  by (induction xs ys rule: list_induct2') (simp_all add: xor_bytes_def xor.assoc)

locale block_cipher =
  fixes E :: "bytes \<Rightarrow> bytes"
  assumes block_len: "length (E b) = 16"
begin

lemma cfb_length: "length (cfb_encrypt E iv p) = length p"
proof (induction "length p" arbitrary: iv p rule: less_induct)
  case less
  show ?case
  proof (cases "p = []")
    case False
    then have "length (drop 16 p) < length p" by (simp add: neq_Nil_conv)
    from less [OF this] False show ?thesis
      by (subst cfb_encrypt.simps) (simp add: Let_def block_len)
  qed simp
qed

lemma cfb_roundtrip: "cfb_decrypt E iv (cfb_encrypt E iv p) = p"
proof (induction "length p" arbitrary: iv p rule: less_induct)
  case less
  show ?case
  proof (cases "p = []")
    case False
    define c where "c = xor_bytes (take 16 p) (E iv)"
    define rest where "rest = cfb_encrypt E c (drop 16 p)"
    have enc: "cfb_encrypt E iv p = c @ rest"
      using False by (subst cfb_encrypt.simps) (simp add: Let_def c_def rest_def)
    have len: "length c = min 16 (length p)"
      by (simp add: c_def block_len)
    have short: "length p < 16 \<Longrightarrow> rest = []"
      by (simp add: rest_def)
    have split: "take 16 (c @ rest) = c" "drop 16 (c @ rest) = rest"
      using len short by (cases "length p < 16"; simp)+
    have ne: "c @ rest \<noteq> []"
      using False len by (cases p) auto
    have undo: "xor_bytes c (E iv) = take 16 p"
      unfolding c_def by (rule xor_bytes_cancel) (simp add: block_len)
    have "length (drop 16 p) < length p" using False by (simp add: neq_Nil_conv)
    from less [OF this] have ih: "cfb_decrypt E c rest = drop 16 p"
      by (simp add: rest_def)
    have "cfb_decrypt E iv (c @ rest) = xor_bytes c (E iv) @ cfb_decrypt E c rest"
      using ne by (subst cfb_decrypt.simps) (simp only: split if_False)
    then show ?thesis by (simp add: enc undo ih)
  qed simp
qed

end

lemma length_add_round_key [simp, len_simps]: "length (add_round_key k s) = 16"
  by (simp add: add_round_key_def)

interpretation aes: block_cipher "aes256 key" for key
  by unfold_locales (simp add: aes256_def Let_def)

definition aes_cfb_encrypt :: "bytes \<Rightarrow> bytes \<Rightarrow> bytes \<Rightarrow> bytes" where
  "aes_cfb_encrypt key iv p = cfb_encrypt (aes256 key) iv p"

definition aes_cfb_decrypt :: "bytes \<Rightarrow> bytes \<Rightarrow> bytes \<Rightarrow> bytes" where
  "aes_cfb_decrypt key iv c = cfb_decrypt (aes256 key) iv c"

lemma aes_cfb_roundtrip [simp, codec_simps]:
  "aes_cfb_decrypt key iv (aes_cfb_encrypt key iv p) = p"
  by (simp add: aes_cfb_decrypt_def aes_cfb_encrypt_def aes.cfb_roundtrip)

lemma length_aes_cfb_encrypt [simp, len_simps]:
  "length (aes_cfb_encrypt key iv p) = length p"
  by (simp add: aes_cfb_encrypt_def aes.cfb_length)

section \<open>Base-64 text\<close>

definition b64_char :: "nat \<Rightarrow> char" where
  "b64_char n =
     (if n < 26 then char_of (65 + n) else if n < 52 then char_of (71 + n)
      else if n < 62 then char_of (n - 4) else if n = 62 then CHR ''+'' else CHR ''/'')"

definition b64_value :: "char \<Rightarrow> nat option" where
  "b64_value c = (let n = of_char c :: nat in
     if 65 \<le> n \<and> n \<le> 90 then Some (n - 65)
     else if 97 \<le> n \<and> n \<le> 122 then Some (n - 71)
     else if 48 \<le> n \<and> n \<le> 57 then Some (n + 4)
     else if n = 43 then Some 62 else if n = 47 then Some 63 else None)"

fun base64_encode :: "bytes \<Rightarrow> string" where
  "base64_encode [] = []"
| "base64_encode [a] =
     [b64_char (unat a div 4), b64_char (unat a mod 4 * 16), CHR ''='', CHR ''='']"
| "base64_encode [a, b] =
     [b64_char (unat a div 4), b64_char (unat a mod 4 * 16 + unat b div 16),
      b64_char (unat b mod 16 * 4), CHR ''='']"
| "base64_encode (a # b # c # bs) =
     b64_char (unat a div 4) # b64_char (unat a mod 4 * 16 + unat b div 16) #
     b64_char (unat b mod 16 * 4 + unat c div 64) # b64_char (unat c mod 64) # base64_encode bs"

fun base64_decode :: "string \<Rightarrow> bytes option" where
  "base64_decode [] = Some []"
| "base64_decode (p # q # r # s # cs) =
     (case (b64_value p, b64_value q) of
        (Some v, Some w) \<Rightarrow>
          (case b64_value r of
             None \<Rightarrow> (if r = CHR ''='' \<and> s = CHR ''='' \<and> cs = []
                       then Some [of_nat (v * 4 + w div 16)] else None)
           | Some x \<Rightarrow>
               (case b64_value s of
                  None \<Rightarrow> (if s = CHR ''='' \<and> cs = []
                            then Some [of_nat (v * 4 + w div 16), of_nat (w mod 16 * 16 + x div 4)]
                            else None)
                | Some y \<Rightarrow>
                    map_option (\<lambda>bs. of_nat (v * 4 + w div 16) # of_nat (w mod 16 * 16 + x div 4)
                                    # of_nat (x mod 4 * 64 + y) # bs) (base64_decode cs)))
      | _ \<Rightarrow> None)"
| "base64_decode _ = None"

lemma b64_value_char [simp]: "n < 64 \<Longrightarrow> b64_value (b64_char n) = Some n"
  by (auto simp: b64_value_def b64_char_def Let_def)

lemma b64_value_eq [simp]: "b64_value (CHR ''='') = None"
  by (simp add: b64_value_def)

lemma b64_digits:
  fixes a b c :: nat
  assumes "a < 256" and "b < 256" and "c < 256"
  shows "a div 4 < 64" and "a mod 4 * 16 < 64" and "a mod 4 * 16 + b div 16 < 64"
    and "b mod 16 * 4 < 64" and "b mod 16 * 4 + c div 64 < 64" and "c mod 64 < 64"
    and "b div 16 div 16 = 0" and "b div 16 mod 16 = b div 16"
    and "c div 64 div 4 = 0" and "c div 64 mod 4 = c div 64"
proof -
  have b: "b div 16 < 16" using assms(2) by (simp add: less_mult_imp_div_less)
  have c: "c div 64 < 4" using assms(3) by (simp add: less_mult_imp_div_less)
  have a: "a mod 4 < 4" "b mod 16 < 16" by simp_all
  show "a div 4 < 64" using assms(1) by (simp add: less_mult_imp_div_less)
  show "a mod 4 * 16 < 64" "b mod 16 * 4 < 64" "c mod 64 < 64" by simp_all
  show "a mod 4 * 16 + b div 16 < 64" "b mod 16 * 4 + c div 64 < 64"
    using a b c by linarith+
  show "b div 16 div 16 = 0" "b div 16 mod 16 = b div 16" using b by simp_all
  show "c div 64 div 4 = 0" "c div 64 mod 4 = c div 64" using c by simp_all
qed

lemma base64_decode_encode [simp, codec_simps]: "base64_decode (base64_encode bs) = Some bs"
proof (induction bs rule: base64_encode.induct)
  case (2 a)
  note d = b64_digits [OF unat_byte_less [of a] unat_byte_less [of a] unat_byte_less [of a]]
  show ?case by (simp add: d del: of_nat_add of_nat_mult)
next
  case (3 a b)
  note d = b64_digits [OF unat_byte_less [of a] unat_byte_less [of b] unat_byte_less [of b]]
  show ?case by (simp add: d del: of_nat_add of_nat_mult)
next
  case (4 a b c bs)
  note d = b64_digits [OF unat_byte_less [of a] unat_byte_less [of b] unat_byte_less [of c]]
  show ?case using 4 by (simp add: d del: of_nat_add of_nat_mult)
qed simp

end
