(* ===== verification/Js_Number.thy ===== *)
theory Js_Number
  imports Complex_Main Prelude
begin

text \<open>
  JavaScript numbers. A number is \<open>NaN\<close>, an infinity or a finite double, held as the exact
  rational it stands for (the sign of zero is not kept: nothing in the program observes it).
  \<open>dbl\<close> is IEEE 754 rounding to the nearest double, ties to even. The second half is the
  decimal text of numbers: \<open>Number(s)\<close>, \<open>parseFloat(s)\<close>, \<open>parseInt(s)\<close> and the shortest
  round-trip text of \<open>Number.prototype.toString\<close>, with the plain notation and its inverse.
\<close>

datatype jsnum = NaN | PInf | NInf | Fin rat

section \<open>Binary rounding\<close>

function ibits :: "int \<Rightarrow> int" where
  "ibits n = (if n \<le> 0 then 0 else 1 + ibits (n div 2))"
  by pat_completeness auto
termination
  by (relation "measure nat") auto

declare ibits.simps [simp del]

definition pow2 :: "int \<Rightarrow> rat" where
  "pow2 e = (if 0 \<le> e then 2 ^ nat e else 1 / 2 ^ nat (- e))"

text \<open>\<open>ilog2 q\<close> is the exponent of the leading bit of a positive rational.\<close>

definition ilog2 :: "rat \<Rightarrow> int" where
  "ilog2 q = (if 1 \<le> q then ibits \<lfloor>q\<rfloor> - 1 else - ibits (\<lceil>1 / q\<rceil> - 1))"

definition round_even :: "rat \<Rightarrow> int" where
  "round_even x = (let f = \<lfloor>x\<rfloor>; d = x - of_int f in
     if d < 1 / 2 then f else if 1 / 2 < d then f + 1 else if even f then f else f + 1)"

definition dbl :: "rat \<Rightarrow> jsnum" where
  "dbl q =
     (if q = 0 then Fin 0
      else let a = \<bar>q\<bar>; e = max (- 1074) (ilog2 a - 52); r = of_int (round_even (a / pow2 e)) * pow2 e
           in if 2 ^ 1024 \<le> r then (if 0 < q then PInf else NInf)
              else Fin (if 0 < q then r else - r))"

lemma ibits_le: "n < 2 ^ k \<Longrightarrow> ibits n \<le> int k"
proof (induction n arbitrary: k rule: ibits.induct)
  case (1 n)
  show ?case
  proof (cases "n \<le> 0")
    case True
    then show ?thesis by (subst ibits.simps) simp
  next
    case False
    with "1.prems" obtain j where k: "k = Suc j"
      by (cases k) auto
    with "1.prems" have "n div 2 < 2 ^ j" by auto
    with "1.IH" False have "ibits (n div 2) \<le> int j" by simp
    with False k show ?thesis by (subst ibits.simps) simp
  qed
qed

lemma round_even_int [simp]: "round_even (of_int n) = n"
  by (simp add: round_even_def Let_def)

text \<open>Integers below \<open>2\<^sup>5\<^sup>3\<close> in magnitude are doubles.\<close>

lemma dbl_pos_int:
  assumes "0 < n" and "n < 2 ^ 53"
  shows "dbl (of_int n) = Fin (of_int n)"
proof -
  define e where "e = max (- 1074) (ilog2 (of_int n :: rat) - 52)"
  have "ibits n \<le> 53" using ibits_le [of n 53] assms(2) by simp
  then have e: "e \<le> 0" using assms(1) by (simp add: e_def ilog2_def)
  have p: "pow2 e = 1 / 2 ^ nat (- e)"
    using e by (cases "e = 0") (simp_all add: pow2_def)
  have "(of_int n :: rat) / pow2 e = of_int (n * 2 ^ nat (- e))"
    by (simp add: p)
  then have "of_int (round_even ((of_int n :: rat) / pow2 e)) * pow2 e = of_int n"
    by (simp only: round_even_int) (simp add: p)
  moreover have "\<not> (2 ^ 1024 \<le> (of_int n :: rat))"
  proof -
    have "(of_int n :: rat) < of_int (2 ^ 53)" using assms(2) by (simp only: of_int_less_iff)
    also have "\<dots> \<le> 2 ^ 1024" by simp
    finally show ?thesis by simp
  qed
  ultimately show ?thesis
    using assms(1) by (simp add: dbl_def Let_def flip: e_def)
qed

lemma dbl_minus: "dbl (- q) = (case dbl q of NaN \<Rightarrow> NaN | PInf \<Rightarrow> NInf | NInf \<Rightarrow> PInf | Fin r \<Rightarrow> Fin (- r))"
  by (simp add: dbl_def Let_def)

lemma dbl_int [simp]:
  assumes "\<bar>n\<bar> < 2 ^ 53"
  shows "dbl (of_int n) = Fin (of_int n)"
proof (cases n "0 :: int" rule: linorder_cases)
  case less
  with assms have "dbl (of_int (- n)) = Fin (of_int (- n))"
    by (intro dbl_pos_int) auto
  then show ?thesis
    using dbl_minus [of "of_int (- n)"] by simp
next
  case equal
  then show ?thesis by (simp add: dbl_def)
next
  case greater
  with assms show ?thesis by (intro dbl_pos_int) auto
qed

lemma round_even_bounds:
  shows "\<lfloor>y\<rfloor> \<le> round_even y" and "of_int (round_even y) \<le> y + 1 / 2"
proof -
  show "\<lfloor>y\<rfloor> \<le> round_even y" by (simp add: round_even_def Let_def)
  show "of_int (round_even y) \<le> y + 1 / 2"
    using of_int_floor_le [of y] by (simp add: round_even_def Let_def) linarith
qed

lemma ibits_nonneg: "0 \<le> ibits n"
  by (induction n rule: ibits.induct) (subst ibits.simps, simp)

text \<open>Rounding a number below \<open>2\<^sup>4\<^sup>3\<close> does not carry it over the next integer, if it has thousandths only.\<close>

lemma dbl_floor:
  assumes "0 < q" and "q < 2 ^ 43" and "q \<le> of_int \<lfloor>q\<rfloor> + 999 / 1000"
  shows "\<exists>r. dbl q = Fin r \<and> \<lfloor>r\<rfloor> = \<lfloor>q\<rfloor>"
proof -
  define e where "e = max (- 1074) (ilog2 q - 52)"
  define j where "j = nat (- e)"
  define r where "r = of_int (round_even (q * 2 ^ j)) / (2 :: rat) ^ j"
  have "\<lfloor>q\<rfloor> < 2 ^ 43" using assms(2) by (simp add: floor_less_iff)
  then have "ibits \<lfloor>q\<rfloor> \<le> 43" using ibits_le [of "\<lfloor>q\<rfloor>" 43] by simp
  then have e: "e \<le> - 10" using ibits_nonneg [of "\<lceil>1 / q\<rceil> - 1"] by (auto simp: e_def ilog2_def)
  then have p: "pow2 e = 1 / 2 ^ j" by (simp add: pow2_def j_def)
  have j: "(2 :: rat) ^ 10 \<le> 2 ^ j" using e by (intro power_increasing) (auto simp: j_def)
  have "of_int (\<lfloor>q\<rfloor> * 2 ^ j) \<le> q * 2 ^ j" by (simp add: mult_right_mono)
  then have "\<lfloor>q\<rfloor> * 2 ^ j \<le> round_even (q * 2 ^ j)"
    using round_even_bounds(1) [of "q * 2 ^ j"] by (simp only: le_floor_iff [symmetric])
  then have "of_int (\<lfloor>q\<rfloor> * 2 ^ j) \<le> (of_int (round_even (q * 2 ^ j)) :: rat)" by (simp only: of_int_le_iff)
  then have lo: "of_int \<lfloor>q\<rfloor> \<le> r" by (simp add: r_def field_simps)
  have "r \<le> (q * 2 ^ j + 1 / 2) / 2 ^ j"
    unfolding r_def by (intro divide_right_mono round_even_bounds(2)) simp
  also have "\<dots> = q + 1 / 2 / 2 ^ j" by (simp add: add_divide_distrib)
  also have "\<dots> \<le> q + 1 / 2 / 2 ^ 10" using j by (intro add_left_mono divide_left_mono) auto
  finally have hi: "r < of_int \<lfloor>q\<rfloor> + 1" using assms(3) by simp
  have "r < 2 ^ 44" using hi assms(2) by simp linarith
  also have "(2 :: rat) ^ 44 \<le> 2 ^ 1024" by simp
  finally have "\<not> 2 ^ 1024 \<le> r" by simp
  then have "dbl q = Fin r"
    using assms(1) p by (simp add: dbl_def Let_def r_def flip: e_def)
  then show ?thesis using lo hi by (auto intro: floor_unique)
qed

section \<open>Decimal digits\<close>

definition is_digit :: "char \<Rightarrow> bool" where
  "is_digit c \<longleftrightarrow> 48 \<le> (of_char c :: nat) \<and> (of_char c :: nat) \<le> 57"

definition digit_char :: "int \<Rightarrow> char" where
  "digit_char d = char_of (48 + nat d)"

definition digit_val :: "char \<Rightarrow> int" where
  "digit_val c = int (of_char c) - 48"

function show_uint :: "int \<Rightarrow> string" where
  "show_uint n = (if n < 10 then [digit_char n] else show_uint (n div 10) @ [digit_char (n mod 10)])"
  by pat_completeness auto
termination
  by (relation "measure nat") auto

declare show_uint.simps [simp del]

definition digits_val :: "string \<Rightarrow> int" where
  "digits_val s = foldl (\<lambda>n c. 10 * n + digit_val c) 0 s"

lemma digit_val_char [simp]: "0 \<le> d \<Longrightarrow> d < 10 \<Longrightarrow> digit_val (digit_char d) = d"
  by (simp add: digit_val_def digit_char_def)

lemma is_digit_char [simp]: "0 \<le> d \<Longrightarrow> d < 10 \<Longrightarrow> is_digit (digit_char d)"
  by (simp add: is_digit_def digit_char_def)

lemma digits_val_Nil [simp]: "digits_val [] = 0"
  by (simp add: digits_val_def)

lemma digits_val_snoc [simp]: "digits_val (s @ [c]) = 10 * digits_val s + digit_val c"
  by (simp add: digits_val_def)

lemma digits_val_append: "digits_val (s @ t) = digits_val s * 10 ^ length t + digits_val t"
proof (induction t rule: rev_induct)
  case (snoc c t)
  have "digits_val (s @ t @ [c]) = 10 * digits_val (s @ t) + digit_val c"
    using digits_val_snoc [of "s @ t" c] by simp
  with snoc show ?case by (simp add: algebra_simps)
qed simp

lemma digits_val_zeros [simp]: "digits_val (replicate k CHR ''0'' @ s) = digits_val s"
proof -
  have "digits_val (replicate k CHR ''0'') = 0"
    by (induction k) (simp_all add: digits_val_def digit_val_def)
  then show ?thesis by (simp add: digits_val_append)
qed

lemma digits_val_show [simp]: "0 \<le> n \<Longrightarrow> digits_val (show_uint n) = n"
proof (induction n rule: show_uint.induct)
  case (1 n)
  show ?case
  proof (cases "n < 10")
    case True
    with "1.prems" have "digits_val ([] @ [digit_char n]) = n"
      by (simp only: digits_val_snoc) simp
    with True show ?thesis by (subst show_uint.simps) simp
  next
    case False
    with 1 show ?thesis by (subst show_uint.simps) simp
  qed
qed

lemma show_uint_digits: "0 \<le> n \<Longrightarrow> \<forall>c \<in> set (show_uint n). is_digit c"
proof (induction n rule: show_uint.induct)
  case (1 n)
  then show ?case
    by (subst show_uint.simps) (cases "n < 10", simp_all)
qed

lemma show_uint_ne [simp]: "show_uint n \<noteq> []"
  by (subst show_uint.simps) simp

lemma length_show_uint: "0 \<le> n \<Longrightarrow> n < 10 ^ Suc k \<Longrightarrow> length (show_uint n) \<le> Suc k"
proof (induction n arbitrary: k rule: show_uint.induct)
  case (1 n)
  show ?case
  proof (cases "n < 10")
    case True
    then show ?thesis by (subst show_uint.simps) simp
  next
    case False
    with "1.prems" obtain j where k: "k = Suc j" by (cases k) auto
    with "1.prems" have "n div 10 < 10 ^ Suc j" by auto
    with "1.IH" [OF False, of j] "1.prems" have "length (show_uint (n div 10)) \<le> Suc j" by simp
    with False k show ?thesis by (subst show_uint.simps) simp
  qed
qed

text \<open>How many decimals a denominator needs: the least \<open>k\<close> with \<open>d dvd 10\<^sup>k\<close>, if any.\<close>

function dscale :: "int \<Rightarrow> nat option" where
  "dscale d =
     (if d = 1 then Some 0
      else if d \<le> 1 \<or> gcd d 10 = 1 then None
      else map_option Suc (dscale (d div gcd d 10)))"
  by pat_completeness auto
termination
proof (relation "measure nat")
  fix d :: int
  assume "d \<noteq> 1" and "\<not> (d \<le> 1 \<or> gcd d 10 = 1)"
  moreover have "0 < gcd d 10" by (simp add: gcd_pos_int)
  ultimately have "1 < d" and "1 < gcd d 10" by linarith+
  then have "d div gcd d 10 < d" by (simp add: int_div_less_self)
  with \<open>1 < d\<close> show "(d div gcd d 10, d) \<in> measure nat" by simp
qed simp

declare dscale.simps [simp del]

lemma dscale_complete:
  assumes "0 < d" and "d dvd 10 ^ k"
  shows "\<exists>j \<le> k. dscale d = Some j"
  using assms
proof (induction k arbitrary: d)
  case 0
  then have "d = 1" by simp
  then show ?case by (simp add: dscale.simps)
next
  case (Suc k)
  show ?case
  proof (cases "d = 1")
    case True
    then show ?thesis by (simp add: dscale.simps)
  next
    case False
    let ?g = "gcd d 10"
    have g: "?g \<noteq> 1"
    proof
      assume "?g = 1"
      then have "coprime d (10 ^ Suc k)"
        by (metis coprime_iff_gcd_eq_1 coprime_power_right_iff)
      with Suc.prems have "is_unit d" by (metis coprime_absorb_left)
      with Suc.prems(1) False show False by simp
    qed
    have dg: "d = ?g * (d div ?g)" and tg: "10 = ?g * (10 div ?g)" by simp_all
    have pos: "0 < ?g" by (simp add: gcd_pos_int)
    have "?g * (d div ?g) dvd ?g * (10 div ?g * 10 ^ k)"
      using Suc.prems(2) dg tg by (metis mult.assoc power_Suc)
    then have "d div ?g dvd 10 div ?g * 10 ^ k"
      using pos by (simp only: dvd_mult_cancel_left) auto
    moreover have "coprime (d div ?g) (10 div ?g)"
      by (rule div_gcd_coprime) simp
    ultimately have "d div ?g dvd 10 ^ k"
      by (simp add: coprime_dvd_mult_right_iff)
    moreover have "0 < d div ?g"
      using Suc.prems(1) pos by (metis dg zero_less_mult_pos)
    ultimately obtain j where "j \<le> k" and "dscale (d div ?g) = Some j"
      using Suc.IH by blast
    moreover have "dscale d = map_option Suc (dscale (d div ?g))"
      using Suc.prems(1) False g by (subst dscale.simps) simp
    ultimately show ?thesis by auto
  qed
qed

lemma dscale_sound: "dscale d = Some k \<Longrightarrow> d dvd 10 ^ k"
proof (induction d arbitrary: k rule: dscale.induct)
  case (1 d)
  show ?case
  proof (cases "d = 1")
    case False
    with "1.prems" have g: "\<not> (d \<le> 1 \<or> gcd d 10 = 1)"
      by (subst (asm) dscale.simps) (auto split: if_splits)
    with "1.prems" False obtain j where j: "k = Suc j" "dscale (d div gcd d 10) = Some j"
      by (subst (asm) dscale.simps) auto
    then have "d div gcd d 10 dvd 10 ^ j" using "1.IH" False g by blast
    then have "gcd d 10 * (d div gcd d 10) dvd 10 * 10 ^ j" by (intro mult_dvd_mono) auto
    with j show ?thesis by simp
  qed simp
qed

section \<open>Plain notation\<close>

definition fixed_text :: "int \<Rightarrow> nat \<Rightarrow> string" where
  "fixed_text m j =
     (if j = 0 then show_uint m
      else show_uint (m div 10 ^ j) @ CHR ''.'' #
           (let f = show_uint (m mod 10 ^ j) in replicate (j - length f) CHR ''0'' @ f))"

definition decimals :: "rat \<Rightarrow> nat" where
  "decimals q = (case dscale (snd (quotient_of q)) of None \<Rightarrow> 0 | Some j \<Rightarrow> j)"

definition plain_text :: "rat \<Rightarrow> string" where
  "plain_text q =
     (if q < 0 then ''-'' else []) @ fixed_text \<lfloor>\<bar>q\<bar> * 10 ^ decimals q\<rfloor> (decimals q)"

section \<open>Reading decimal text\<close>

definition pow10 :: "int \<Rightarrow> rat" where
  "pow10 e = (if 0 \<le> e then 10 ^ nat e else 1 / 10 ^ nat (- e))"

definition scan_exp :: "string \<Rightarrow> int \<times> string" where
  "scan_exp s =
     (case s of
        [] \<Rightarrow> (0, s)
      | c # r \<Rightarrow>
          if c = CHR ''e'' \<or> c = CHR ''E'' then
            let neg = (r \<noteq> [] \<and> hd r = CHR ''-'');
                t = (if r \<noteq> [] \<and> (hd r = CHR ''-'' \<or> hd r = CHR ''+'') then tl r else r);
                ds = takeWhile is_digit t
            in if ds = [] then (0, s)
               else (if neg then - digits_val ds else digits_val ds, dropWhile is_digit t)
          else (0, s))"

definition scan_frac :: "string \<Rightarrow> string \<times> string" where
  "scan_frac r =
     (if r \<noteq> [] \<and> hd r = CHR ''.'' then (takeWhile is_digit (tl r), dropWhile is_digit (tl r))
      else ([], r))"

text \<open>The longest unsigned decimal literal at the head of a text, and what follows it.\<close>

definition scan_udec :: "string \<Rightarrow> (rat \<times> string) option" where
  "scan_udec s =
     (let ip = takeWhile is_digit s; (fp, r) = scan_frac (dropWhile is_digit s)
      in if ip = [] \<and> fp = [] then None
         else let (e, r') = scan_exp r
              in Some (of_int (digits_val (ip @ fp)) / 10 ^ length fp * pow10 e, r'))"

definition stops :: "string \<Rightarrow> bool" where
  "stops r \<longleftrightarrow> r = [] \<or>
     (\<not> is_digit (hd r) \<and> hd r \<noteq> CHR ''.'' \<and> hd r \<noteq> CHR ''e'' \<and> hd r \<noteq> CHR ''E'')"

lemma takeWhile_digits:
  assumes "\<forall>c \<in> set s. is_digit c" and "r = [] \<or> \<not> is_digit (hd r)"
  shows "takeWhile is_digit (s @ r) = s" and "dropWhile is_digit (s @ r) = r"
  using assms by (induction s) (cases r, auto)+

definition ends_int :: "string \<Rightarrow> bool" where
  "ends_int r \<longleftrightarrow> r = [] \<or> (\<not> is_digit (hd r) \<and> hd r \<noteq> CHR ''.'')"

lemma stops_ends_int: "stops r \<Longrightarrow> ends_int r"
  by (auto simp: stops_def ends_int_def)

lemma scan_exp_stops: "stops r \<Longrightarrow> scan_exp r = (0, r)"
  by (cases r) (auto simp: scan_exp_def stops_def)

lemma fixed_frac:
  assumes "0 \<le> m" and "j \<noteq> 0"
  defines "f \<equiv> show_uint (m mod 10 ^ j)"
  defines "g \<equiv> replicate (j - length f) CHR ''0'' @ f"
  shows "length g = j" and "digits_val g = m mod 10 ^ j" and "\<forall>c \<in> set g. is_digit c"
proof -
  obtain k where j: "j = Suc k" using assms(2) by (cases j) auto
  have "length f \<le> j"
    unfolding f_def j by (rule length_show_uint) simp_all
  then show "length g = j" by (simp add: g_def)
  show "digits_val g = m mod 10 ^ j" by (simp add: g_def f_def)
  show "\<forall>c \<in> set g. is_digit c"
    using show_uint_digits [of "m mod 10 ^ j"] by (auto simp: g_def f_def is_digit_def)
qed

lemma scan_fixed_text:
  assumes "0 \<le> m" and "ends_int r"
  shows "scan_udec (fixed_text m j @ r) =
    (case scan_exp r of (e, r') \<Rightarrow> Some (of_int m / 10 ^ j * pow10 e, r'))"
proof (cases "j = 0")
  case True
  have nd: "r = [] \<or> \<not> is_digit (hd r)" and dot: "\<not> (r \<noteq> [] \<and> hd r = CHR ''.'')"
    using assms(2) by (auto simp: ends_int_def)
  note tw = takeWhile_digits [OF show_uint_digits [OF assms(1)] nd]
  from True dot show ?thesis
    by (auto simp: scan_udec_def fixed_text_def tw scan_frac_def assms(1))
next
  case False
  define f where "f = show_uint (m mod 10 ^ j)"
  define g where "g = replicate (j - length f) CHR ''0'' @ f"
  have g: "length g = j" "digits_val g = m mod 10 ^ j" "\<forall>c \<in> set g. is_digit c"
    unfolding g_def f_def by (rule fixed_frac [OF assms(1) False])+
  have t: "fixed_text m j @ r = show_uint (m div 10 ^ j) @ CHR ''.'' # g @ r"
    using False by (simp add: fixed_text_def g_def f_def Let_def)
  have ip0: "0 \<le> m div 10 ^ j" using assms(1) by (simp add: pos_imp_zdiv_nonneg_iff)
  have dot: "CHR ''.'' # g @ r = [] \<or> \<not> is_digit (hd (CHR ''.'' # g @ r))"
    by (simp add: is_digit_def)
  have nd: "r = [] \<or> \<not> is_digit (hd r)" using assms(2) by (auto simp: ends_int_def)
  note ip = takeWhile_digits [OF show_uint_digits [OF ip0] dot]
  note fp = takeWhile_digits [OF g(3) nd]
  have "m div 10 ^ j * 10 ^ j + m mod 10 ^ j = m" by (rule div_mult_mod_eq)
  then have v: "digits_val (show_uint (m div 10 ^ j) @ g) = m"
    using ip0 by (simp add: digits_val_append g(1,2))
  show ?thesis
    unfolding t by (simp add: scan_udec_def ip fp scan_frac_def v g(1))
qed

definition finite_dec :: "rat \<Rightarrow> bool" where
  "finite_dec q \<longleftrightarrow> dscale (snd (quotient_of q)) \<noteq> None"

lemma denominator_dvd:
  assumes "q = of_int m / 10 ^ k"
  shows "0 < snd (quotient_of q)" and "snd (quotient_of q) dvd 10 ^ k"
proof -
  obtain p d where pd: "quotient_of q = (p, d)" by (cases "quotient_of q")
  then have d0: "0 < d" and q: "q = of_int p / of_int d" and cop: "coprime p d"
    using quotient_of_denom_pos quotient_of_div quotient_of_coprime by blast+
  have "(of_int p * 10 ^ k :: rat) = of_int m * of_int d"
    using assms q d0 by (simp add: field_simps)
  then have "p * 10 ^ k = m * d"
    by (metis (mono_tags) of_int_eq_iff of_int_mult of_int_numeral of_int_power)
  then have "d dvd p * 10 ^ k" by simp
  then have "d dvd 10 ^ k" using cop by (simp add: coprime_commute coprime_dvd_mult_right_iff)
  with d0 pd show "0 < snd (quotient_of q)" and "snd (quotient_of q) dvd 10 ^ k" by simp_all
qed

lemma finite_decI: "q = of_int m / 10 ^ k \<Longrightarrow> finite_dec q"
  using dscale_complete [OF denominator_dvd] by (fastforce simp: finite_dec_def)

lemma decimals_le: "q = of_int m / 10 ^ k \<Longrightarrow> decimals q \<le> k"
  using dscale_complete [OF denominator_dvd] by (fastforce simp: decimals_def)

lemma plain_text_fixed:
  assumes "0 \<le> q" and "finite_dec q"
  obtains m j where "plain_text q = fixed_text m j" and "0 \<le> m" and "q = of_int m / 10 ^ j"
proof -
  obtain j where j: "dscale (snd (quotient_of q)) = Some j"
    using assms(2) by (auto simp: finite_dec_def)
  obtain p d where pd: "quotient_of q = (p, d)" by (cases "quotient_of q")
  then have d0: "0 < d" and q: "q = of_int p / of_int d"
    using quotient_of_denom_pos quotient_of_div by blast+
  from j pd have "d dvd 10 ^ j" by (auto intro: dscale_sound)
  then obtain u where u: "10 ^ j = d * u" by (auto elim: dvdE)
  have "q * 10 ^ j = of_int p / of_int d * of_int (10 ^ j)" using q by simp
  also have "\<dots> = of_int (p * u)" unfolding u using d0 by simp
  finally have m: "q * 10 ^ j = of_int (p * u)" .
  then have fl: "\<lfloor>q * 10 ^ j\<rfloor> = p * u" by (simp only: floor_of_int)
  have nn: "0 \<le> p * u"
    using assms(1) m by (metis of_int_0_le_iff zero_le_mult_iff zero_le_numeral zero_le_power)
  have "plain_text q = fixed_text (p * u) j"
    using assms(1) j fl by (simp add: plain_text_def decimals_def)
  moreover have "q = of_int (p * u) / 10 ^ j"
    using m by (simp add: field_simps)
  ultimately show ?thesis using that nn by blast
qed

lemma plain_text_scan:
  assumes "0 \<le> q" and "finite_dec q" and "ends_int r"
  shows "scan_udec (plain_text q @ r) = (case scan_exp r of (e, r') \<Rightarrow> Some (q * pow10 e, r'))"
proof -
  obtain m j where "plain_text q = fixed_text m j" and "0 \<le> m" and "q = of_int m / 10 ^ j"
    using plain_text_fixed [OF assms(1,2)] .
  with scan_fixed_text [OF _ assms(3)] show ?thesis by simp
qed

lemma plain_text_read:
  assumes "0 \<le> q" and "finite_dec q" and "stops r"
  shows "scan_udec (plain_text q @ r) = Some (q, r)"
  using plain_text_scan [OF assms(1,2) stops_ends_int [OF assms(3)]] scan_exp_stops [OF assms(3)]
  by (simp add: pow10_def)

section \<open>Significant digits\<close>

function dlen :: "int \<Rightarrow> int" where
  "dlen n = (if n \<le> 0 then 0 else 1 + dlen (n div 10))"
  by pat_completeness auto
termination
  by (relation "measure nat") auto

declare dlen.simps [simp del]

text \<open>\<open>dexp q\<close> is the \<open>n\<close> with \<open>10\<^sup>n\<^sup>-\<^sup>1 \<le> q < 10\<^sup>n\<close> for positive \<open>q\<close>.\<close>

definition dexp :: "rat \<Rightarrow> int" where
  "dexp q = (if 1 \<le> q then dlen \<lfloor>q\<rfloor> else 1 - dlen (\<lceil>1 / q\<rceil> - 1))"

text \<open>Rounding to \<open>k\<close> significant digits, half away from zero.\<close>

definition sd_round :: "int \<Rightarrow> rat \<Rightarrow> rat" where
  "sd_round k q =
     (if q = 0 then 0
      else let u = pow10 (dexp \<bar>q\<bar> - k); r = of_int \<lfloor>\<bar>q\<bar> / u + 1 / 2\<rfloor> * u
           in if 0 < q then r else - r)"

text \<open>The shortest decimal that reads back as the double \<open>q\<close>.\<close>

definition shortest :: "rat \<Rightarrow> rat" where
  "shortest q =
     (case find (\<lambda>k. dbl (sd_round k q) = Fin q) [1..17] of
        None \<Rightarrow> q | Some k \<Rightarrow> sd_round k q)"

definition num_text :: "jsnum \<Rightarrow> string" where
  "num_text x =
     (case x of
        NaN \<Rightarrow> ''NaN'' | PInf \<Rightarrow> ''Infinity'' | NInf \<Rightarrow> ''-Infinity''
      | Fin q \<Rightarrow>
          if q = 0 then ''0''
          else let v = shortest \<bar>q\<bar>; n = dexp v
               in (if q < 0 then ''-'' else []) @
                  (if - 6 < n \<and> n \<le> 21 then plain_text v
                   else plain_text (v / pow10 (n - 1)) @ ''e'' @
                        (if 0 \<le> n - 1 then ''+'' else ''-'') @ show_uint \<bar>n - 1\<bar>))"

lemma pow10_pos [simp]: "0 < pow10 e"
  by (simp add: pow10_def)

lemma dlen_bounds:
  "0 < n \<Longrightarrow> 0 < dlen n \<and> 10 ^ nat (dlen n - 1) \<le> n \<and> n < 10 ^ nat (dlen n)"
proof (induction n rule: dlen.induct)
  case (1 n)
  have step: "dlen n = 1 + dlen (n div 10)" using "1.prems" by (subst dlen.simps) simp
  show ?case
  proof (cases "n < 10")
    case True
    then have "dlen (n div 10) = 0" using "1.prems" by (subst dlen.simps) simp
    with step True "1.prems" show ?thesis by simp
  next
    case False
    let ?m = "n div 10"
    have m: "0 < ?m" using False by simp
    with "1.IH" "1.prems" have ih: "0 < dlen ?m" "10 ^ nat (dlen ?m - 1) \<le> ?m" "?m < 10 ^ nat (dlen ?m)"
      by auto
    have e: "nat (dlen n - 1) = Suc (nat (dlen ?m - 1))" "nat (dlen n) = Suc (nat (dlen ?m))"
      using step ih(1) by auto
    have "10 * ?m \<le> n" "n < 10 * (?m + 1)" by simp_all
    with ih(2,3) have "10 * 10 ^ nat (dlen ?m - 1) \<le> n" "n < 10 * 10 ^ nat (dlen ?m)"
      by linarith+
    then show ?thesis unfolding e power_Suc using step ih(1) by simp
  qed
qed

lemma dlen_le: "n < 10 ^ k \<Longrightarrow> dlen n \<le> int k"
proof (cases "0 < n")
  case True
  assume "n < 10 ^ k"
  with dlen_bounds [OF True] have "(10 :: int) ^ nat (dlen n - 1) < 10 ^ k" by linarith
  then have "nat (dlen n - 1) < k" by (rule power_less_imp_less_exp [rotated]) simp
  then show ?thesis by linarith
next
  case False
  then show ?thesis by (subst dlen.simps) simp
qed

lemma dexp_le:
  assumes "0 < q" and "q < 10 ^ k"
  shows "dexp q \<le> int k"
proof (cases "1 \<le> q")
  case True
  have "of_int \<lfloor>q\<rfloor> < (10 :: rat) ^ k" using assms(2) of_int_floor_le le_less_trans by blast
  then have "of_int \<lfloor>q\<rfloor> < (of_int (10 ^ k) :: rat)" by simp
  then have "\<lfloor>q\<rfloor> < 10 ^ k" by (simp only: of_int_less_iff)
  then show ?thesis using True by (simp add: dexp_def dlen_le)
next
  case False
  then have "1 < 1 / q" using assms(1) by simp
  then have "0 < \<lceil>1 / q\<rceil> - 1" by linarith
  then have "0 < dlen (\<lceil>1 / q\<rceil> - 1)" using dlen_bounds by blast
  with False show ?thesis by (simp add: dexp_def)
qed

lemma sd_round_exact:
  assumes "q = of_int m * pow10 (dexp \<bar>q\<bar> - k)"
  shows "sd_round k q = q"
proof (cases "q = 0")
  case False
  let ?u = "pow10 (dexp \<bar>q\<bar> - k)"
  have u: "0 < ?u" by simp
  have "\<bar>q\<bar> / ?u = of_int \<bar>m\<bar>"
    using assms u by (metis abs_mult abs_of_pos nonzero_mult_div_cancel_right of_int_abs order_less_irrefl)
  moreover have "\<lfloor>(of_int \<bar>m\<bar> :: rat) + 1 / 2\<rfloor> = \<bar>m\<bar>" by (rule floor_unique) simp_all
  moreover have "of_int \<bar>m\<bar> * ?u = \<bar>q\<bar>"
    using assms u by (metis abs_mult abs_of_pos of_int_abs)
  ultimately have r: "of_int \<lfloor>\<bar>q\<bar> / ?u + 1 / 2\<rfloor> * ?u = \<bar>q\<bar>" by simp
  show ?thesis
    by (simp only: sd_round_def Let_def r if_False False) (use False in auto)
qed (simp add: sd_round_def)

lemma pow10_diff: "e \<le> f \<Longrightarrow> pow10 f = of_int (10 ^ nat (f - e)) * pow10 e"
  by (auto simp: pow10_def field_simps simp flip: power_add intro!: arg_cong [where f = "(^) 10"])

text \<open>A multiple of \<open>10\<^sup>-\<^sup>j\<close> below \<open>10\<^sup>d\<close> with \<open>d + j \<le> k\<close> has at most \<open>k\<close> significant digits.\<close>

lemma sd_round_small:
  assumes "0 \<le> m" and "of_int m / 10 ^ j < (10 :: rat) ^ d" and "int d + int j \<le> k"
  shows "sd_round k (of_int m / 10 ^ j) = of_int m / 10 ^ j"
proof (cases "m = 0")
  case False
  define q :: rat where "q = of_int m / 10 ^ j"
  have q0: "0 < q" using assms(1) False by (simp add: q_def)
  have "dexp q \<le> int d" by (rule dexp_le [OF q0]) (simp add: q_def assms(2))
  then have le: "dexp \<bar>q\<bar> - k \<le> - int j" using q0 assms(3) by simp
  have "q = of_int m * pow10 (- int j)" by (simp add: q_def pow10_def)
  also have "\<dots> = of_int (m * 10 ^ nat (- int j - (dexp \<bar>q\<bar> - k))) * pow10 (dexp \<bar>q\<bar> - k)"
    using pow10_diff [OF le] by simp
  finally have "q = of_int (m * 10 ^ nat (- int j - (dexp \<bar>q\<bar> - k))) * pow10 (dexp \<bar>q\<bar> - k)" .
  then have "sd_round k q = q" by (rule sd_round_exact)
  then show ?thesis by (simp add: q_def)
qed (simp add: sd_round_def)

text \<open>Integers below \<open>10\<^sup>1\<^sup>5\<close> print as their decimal digits.\<close>

lemma sd_round_int:
  assumes "0 < n" and "0 < k"
  obtains c where "sd_round k (of_int n) = of_int c" and "0 \<le> c" and "2 * c \<le> 3 * n"
proof (cases "dlen n \<le> k")
  case True
  have "dexp \<bar>of_int n\<bar> - k \<le> 0" using True assms(1) by (simp add: dexp_def)
  from pow10_diff [OF this] have
    "(of_int n :: rat) = of_int (n * 10 ^ nat (0 - (dexp \<bar>of_int n\<bar> - k))) * pow10 (dexp \<bar>of_int n\<bar> - k)"
    by (simp add: pow10_def)
  then have "sd_round k (of_int n) = of_int n" by (rule sd_round_exact)
  then show ?thesis using assms(1) by (intro that) auto
next
  case False
  define u :: int where "u = 10 ^ nat (dlen n - k)"
  have u0: "0 < u" by (simp add: u_def)
  have "pow10 (dexp \<bar>of_int n\<bar> - k) = of_int u"
    using False assms(1) by (simp add: dexp_def pow10_def u_def)
  then have r: "sd_round k (of_int n) = of_int (\<lfloor>of_int n / of_int u + (1 / 2 :: rat)\<rfloor> * u)"
    using assms(1) by (simp add: sd_round_def Let_def)
  have "u \<le> 10 ^ nat (dlen n - 1)"
    unfolding u_def by (rule power_increasing) (use assms(2) in auto)
  also have "\<dots> \<le> n" using dlen_bounds [OF assms(1)] by simp
  finally have un: "u \<le> n" .
  let ?f = "\<lfloor>of_int n / of_int u + (1 / 2 :: rat)\<rfloor>"
  have "of_int ?f \<le> of_int n / of_int u + (1 / 2 :: rat)" by simp
  then have "of_int ?f * of_int u \<le> (of_int n / of_int u + 1 / 2) * (of_int u :: rat)"
    using u0 by (intro mult_right_mono) auto
  also have "\<dots> = of_int n + of_int u / 2" using u0 by (simp add: field_simps)
  finally have "2 * (of_int (?f * u) :: rat) \<le> 2 * of_int n + of_int u" by simp
  then have "2 * (?f * u) \<le> 2 * n + u"
    by (metis (mono_tags) of_int_add of_int_le_iff of_int_mult of_int_numeral)
  with un have b: "2 * (?f * u) \<le> 3 * n" by simp
  have "0 \<le> (of_int n / of_int u + (1 / 2 :: rat))" using assms(1) u0 by simp
  then have "0 \<le> ?f" by (simp only: zero_le_floor)
  then have "0 \<le> ?f * u" using u0 by simp
  from that [OF r this b] show ?thesis .
qed

lemma shortest_int:
  assumes "0 < n" and "n < 10 ^ 15"
  shows "shortest (of_int n) = of_int n"
proof (cases "find (\<lambda>k. dbl (sd_round k (of_int n)) = Fin (of_int n)) [1..17]")
  case (Some k)
  then have k: "0 < k" and eq: "dbl (sd_round k (of_int n)) = Fin (of_int n)"
    by (auto simp: find_Some_iff)
  obtain c where c: "sd_round k (of_int n) = of_int c" "0 \<le> c" "2 * c \<le> 3 * n"
    by (rule sd_round_int [OF assms(1) k])
  have "\<bar>c\<bar> < 2 ^ 53" using c assms(2) by simp
  then have "dbl (of_int c) = Fin (of_int c)" by (rule dbl_int)
  with eq c(1) Some show ?thesis by (simp add: shortest_def)
qed (simp add: shortest_def)

lemma quotient_of_int': "quotient_of (of_int n) = (n, 1)"
  by (simp add: quotient_of_int)

lemma plain_text_int: "0 \<le> n \<Longrightarrow> plain_text (of_int n) = show_uint n"
  by (simp add: plain_text_def decimals_def quotient_of_int' dscale.simps fixed_text_def)

lemma digit_char_0: "digit_char 0 = CHR ''0''"
  by code_simp

lemma num_text_int [simp]:
  assumes "0 \<le> n" and "n < 10 ^ 15"
  shows "num_text (Fin (of_int n)) = show_uint n"
proof (cases "n = 0")
  case False
  with assms have n: "0 < n" by simp
  have "dexp (of_int n :: rat) = dlen n" using n by (simp add: dexp_def)
  moreover have "0 < dlen n" "dlen n \<le> 15"
    using dlen_bounds [OF n] dlen_le [OF assms(2)] by auto
  ultimately show ?thesis
    using n by (simp add: num_text_def shortest_int [OF n assms(2)] plain_text_int Let_def)
qed (simp add: num_text_def show_uint.simps digit_char_0)

section \<open>Text to number\<close>

text \<open>
  White space is what ECMAScript trims, each character as its UTF-8 bytes: tab to carriage
  return, space, U+00A0, U+1680, U+2000 to U+200A, U+2028, U+2029, U+202F, U+205F, U+3000 and
  U+FEFF.
\<close>

definition ws_seqs :: "string list" where
  "ws_seqs = map (map char_of)
     ([[9], [10], [11], [12], [13], [32], [0xC2, 0xA0], [0xE1, 0x9A, 0x80], [0xE2, 0x80, 0xA8],
       [0xE2, 0x80, 0xA9], [0xE2, 0x80, 0xAF], [0xE2, 0x81, 0x9F], [0xE3, 0x80, 0x80],
       [0xEF, 0xBB, 0xBF]] @
      map (\<lambda>i. [0xE2, 0x80, i]) [0x80, 0x81, 0x82, 0x83, 0x84, 0x85, 0x86, 0x87, 0x88, 0x89, 0x8A :: nat])"

function strip_seqs :: "string list \<Rightarrow> string \<Rightarrow> string" where
  "strip_seqs ws s =
     (case find (\<lambda>w. w \<noteq> [] \<and> take (length w) s = w) ws of
        None \<Rightarrow> s | Some w \<Rightarrow> strip_seqs ws (drop (length w) s))"
  by pat_completeness auto
termination
proof (relation "measure (\<lambda>(ws, s). length s)")
  fix ws :: "string list" and s w
  assume "find (\<lambda>w. w \<noteq> [] \<and> take (length w) s = w) ws = Some w"
  then have "w \<noteq> []" and "take (length w) s = w" by (auto simp: find_Some_iff)
  then have "0 < length w" and "0 < length s" by auto
  then show "((ws, drop (length w) s), (ws, s)) \<in> measure (\<lambda>(ws, s). length s)" by simp
qed simp

declare strip_seqs.simps [simp del]

definition js_trim_start :: "string \<Rightarrow> string" where
  "js_trim_start s = strip_seqs ws_seqs s"

definition js_trim :: "string \<Rightarrow> string" where
  "js_trim s = rev (strip_seqs (map rev ws_seqs) (rev (js_trim_start s)))"

definition radix_digit :: "nat \<Rightarrow> char \<Rightarrow> bool" where
  "radix_digit r c = (case hex_value c of None \<Rightarrow> False | Some v \<Rightarrow> v < r)"

definition radix_val :: "nat \<Rightarrow> string \<Rightarrow> int" where
  "radix_val r s = foldl (\<lambda>n c. n * int r + (case hex_value c of None \<Rightarrow> 0 | Some v \<Rightarrow> int v)) 0 s"

definition radix_prefix :: "string \<Rightarrow> nat option" where
  "radix_prefix s =
     (if take 2 s = ''0x'' \<or> take 2 s = ''0X'' then Some 16
      else if take 2 s = ''0o'' \<or> take 2 s = ''0O'' then Some 8
      else if take 2 s = ''0b'' \<or> take 2 s = ''0B'' then Some 2 else None)"

definition split_sign :: "string \<Rightarrow> bool \<times> string" where
  "split_sign s =
     (if s \<noteq> [] \<and> hd s = CHR ''-'' then (True, tl s)
      else if s \<noteq> [] \<and> hd s = CHR ''+'' then (False, tl s) else (False, s))"

text \<open>\<open>Number(s)\<close> for a string \<open>s\<close>.\<close>

definition js_Number :: "string \<Rightarrow> jsnum" where
  "js_Number s =
     (let t = js_trim s in
      if t = [] then Fin 0
      else case radix_prefix t of
             Some r \<Rightarrow> if drop 2 t \<noteq> [] \<and> list_all (radix_digit r) (drop 2 t)
                       then dbl (of_int (radix_val r (drop 2 t))) else NaN
           | None \<Rightarrow>
               (let (neg, u) = split_sign t in
                if u = ''Infinity'' then (if neg then NInf else PInf)
                else case scan_udec u of
                       Some (q, []) \<Rightarrow> dbl (if neg then - q else q)
                     | _ \<Rightarrow> NaN))"

definition js_parseFloat :: "string \<Rightarrow> jsnum" where
  "js_parseFloat s =
     (let (neg, u) = split_sign (js_trim_start s) in
      if take 8 u = ''Infinity'' then (if neg then NInf else PInf)
      else case scan_udec u of
             Some (q, _) \<Rightarrow> dbl (if neg then - q else q)
           | None \<Rightarrow> NaN)"

definition js_parseInt :: "string \<Rightarrow> jsnum" where
  "js_parseInt s =
     (let (neg, u) = split_sign (js_trim_start s);
          hex = (take 2 u = ''0x'' \<or> take 2 u = ''0X'');
          ds = (if hex then takeWhile (radix_digit 16) (drop 2 u) else takeWhile is_digit u);
          v = (if hex then radix_val 16 ds else digits_val ds)
      in if ds = [] then NaN else dbl (of_int (if neg then - v else v)))"

text \<open>A text that starts with a character of a numeral is not trimmed, and likewise at its end.\<close>

definition numeral_char :: "char \<Rightarrow> bool" where
  "numeral_char c \<longleftrightarrow> is_digit c \<or> (of_char c :: nat) = 46 \<or> (of_char c :: nat) = 45"

lemma strip_id:
  assumes "\<forall>w \<in> set ws. w = [] \<or> \<not> numeral_char (hd w)" and "s = [] \<or> numeral_char (hd s)"
  shows "strip_seqs ws s = s"
proof -
  have "find (\<lambda>w. w \<noteq> [] \<and> take (length w) s = w) ws = None"
    unfolding find_None_iff
  proof
    assume "\<exists>w. w \<in> set ws \<and> w \<noteq> [] \<and> take (length w) s = w"
    then obtain w where w: "w \<in> set ws" "w \<noteq> []" "take (length w) s = w" by auto
    then have "s \<noteq> []" and "hd w = hd s" by (auto simp: hd_take dest: sym) (metis hd_take length_greater_0_conv)
    with assms w show False by auto
  qed
  then show ?thesis by (simp add: strip_seqs.simps)
qed

lemma ws_heads: "\<forall>w \<in> set ws_seqs. w = [] \<or> \<not> numeral_char (hd w)"
  by (simp add: ws_seqs_def numeral_char_def is_digit_def)

lemma ws_lasts: "\<forall>w \<in> set (map rev ws_seqs). w = [] \<or> \<not> numeral_char (hd w)"
  by (simp add: ws_seqs_def numeral_char_def is_digit_def)

lemma js_trim_numeral:
  assumes "s = [] \<or> (numeral_char (hd s) \<and> numeral_char (last s))"
  shows "js_trim_start s = s" and "js_trim s = s"
proof -
  show st: "js_trim_start s = s"
    unfolding js_trim_start_def by (rule strip_id [OF ws_heads]) (use assms in auto)
  have "strip_seqs (map rev ws_seqs) (rev s) = rev s"
    by (rule strip_id [OF ws_lasts]) (use assms in \<open>auto simp: hd_rev\<close>)
  then show "js_trim s = s" by (simp add: js_trim_def st)
qed

section \<open>Reading back a printed double\<close>

definition is_double :: "rat \<Rightarrow> bool" where
  "is_double q \<longleftrightarrow> dbl q = Fin q"

lemma finite_dec_int: "finite_dec (of_int m)"
  by (rule finite_decI [of _ m 0]) simp

lemma finite_dec_pow10: "finite_dec (of_int m * pow10 e)"
proof (cases "0 \<le> e")
  case True
  then have "of_int m * pow10 e = of_int (m * 10 ^ nat e)" by (simp add: pow10_def)
  then show ?thesis using finite_dec_int by metis
next
  case False
  then show ?thesis by (intro finite_decI [of _ m "nat (- e)"]) (simp add: pow10_def)
qed

lemma finite_dec_minus: "finite_dec q \<Longrightarrow> finite_dec (- q)"
  by (auto simp: finite_dec_def rat_uminus_code split: prod.splits)

lemma finite_dec_sd_round: "finite_dec (sd_round k q)"
proof -
  have "\<exists>m e. sd_round k q = of_int m * pow10 e"
  proof (cases "q = 0")
    case True
    then have "sd_round k q = of_int 0 * pow10 0" by (simp add: sd_round_def)
    then show ?thesis by blast
  next
    case False
    let ?u = "pow10 (dexp \<bar>q\<bar> - k)"
    let ?f = "\<lfloor>\<bar>q\<bar> / ?u + 1 / 2\<rfloor>"
    have "sd_round k q = of_int (if 0 < q then ?f else - ?f) * ?u"
      using False by (simp add: sd_round_def Let_def)
    then show ?thesis by blast
  qed
  then show ?thesis using finite_dec_pow10 by metis
qed

lemma finite_dec_double:
  assumes "is_double q"
  shows "finite_dec q"
proof (cases "q = 0")
  case True
  then show ?thesis using finite_dec_int [of 0] by simp
next
  case False
  define e where "e = max (- 1074) (ilog2 \<bar>q\<bar> - 52)"
  define n where "n = (if 0 < q then round_even (\<bar>q\<bar> / pow2 e) else - round_even (\<bar>q\<bar> / pow2 e))"
  have "(if 0 < q then of_int (round_even (\<bar>q\<bar> / pow2 e)) * pow2 e
         else - (of_int (round_even (\<bar>q\<bar> / pow2 e)) * pow2 e)) = q"
    using assms False unfolding is_double_def dbl_def Let_def e_def [symmetric]
    by (simp only: if_False split: if_splits) simp_all
  then have q: "q = of_int n * pow2 e" by (simp add: n_def split: if_splits)
  show ?thesis
  proof (cases "0 \<le> e")
    case True
    then have "q = of_int (n * 2 ^ nat e)" using q by (simp add: pow2_def)
    then show ?thesis using finite_dec_int by metis
  next
    case False
    have "(10 :: rat) ^ nat (- e) = 2 ^ nat (- e) * 5 ^ nat (- e)"
      by (simp flip: power_mult_distrib)
    then have "q = of_int (n * 5 ^ nat (- e)) / 10 ^ nat (- e)"
      using q False by (simp add: pow2_def)
    then show ?thesis by (rule finite_decI)
  qed
qed

lemma shortest_props:
  assumes "is_double q" and "0 < q"
  shows "dbl (shortest q) = Fin q" and "finite_dec (shortest q)" and "0 \<le> shortest q"
proof -
  have sd0: "0 \<le> sd_round k q" for k
  proof -
    let ?u = "pow10 (dexp \<bar>q\<bar> - k)"
    have "0 \<le> \<bar>q\<bar> / ?u + 1 / 2" by (simp add: add_nonneg_nonneg order_less_imp_le)
    then have "0 \<le> \<lfloor>\<bar>q\<bar> / ?u + 1 / 2\<rfloor>" by (simp only: zero_le_floor)
    then have "0 \<le> of_int \<lfloor>\<bar>q\<bar> / ?u + 1 / 2\<rfloor> * ?u"
      using less_imp_le [OF pow10_pos [of "dexp \<bar>q\<bar> - k"]]
      by (intro mult_nonneg_nonneg) (simp_all only: of_int_0_le_iff)
    then show ?thesis using assms(2) by (simp add: sd_round_def Let_def)
  qed
  show "dbl (shortest q) = Fin q"
    using assms(1) by (auto simp: shortest_def is_double_def find_Some_iff split: option.splits)
  show "finite_dec (shortest q)"
    using finite_dec_double [OF assms(1)] finite_dec_sd_round
    by (auto simp: shortest_def split: option.splits)
  show "0 \<le> shortest q"
    using assms(2) sd0 by (auto simp: shortest_def split: option.splits)
qed

lemma finite_dec_scale:
  assumes "finite_dec v"
  shows "finite_dec (v / pow10 e)"
proof -
  obtain j where j: "dscale (snd (quotient_of v)) = Some j"
    using assms by (auto simp: finite_dec_def)
  obtain p d where pd: "quotient_of v = (p, d)" by (cases "quotient_of v")
  then have d0: "0 < d" and v: "v = of_int p / of_int d"
    using quotient_of_denom_pos quotient_of_div by blast+
  from j pd have "d dvd 10 ^ j" by (auto intro: dscale_sound)
  then obtain u where u: "10 ^ j = d * u" by (auto elim: dvdE)
  have "v * of_int (10 ^ j) = of_int (p * u)" unfolding u v using d0 by simp
  then have v': "v = of_int (p * u) * pow10 (- int j)" by (cases "j = 0") (auto simp: pow10_def field_simps)
  have "pow10 (- int j) / pow10 e = pow10 (- int j - e)"
    by (auto simp: pow10_def field_simps simp flip: power_add intro!: arg_cong [where f = "(^) 10"])
  then have "v / pow10 e = of_int (p * u) * pow10 (- int j - e)"
    using v' by (metis times_divide_eq_right)
  then show ?thesis using finite_dec_pow10 by metis
qed

lemma scan_exp_text:
  assumes "r = [] \<or> \<not> is_digit (hd r)"
  shows "scan_exp (''e'' @ (if 0 \<le> n then ''+'' else ''-'') @ show_uint \<bar>n\<bar> @ r) = (n, r)"
  using takeWhile_digits [OF show_uint_digits, of "\<bar>n\<bar>", OF _ assms]
  by (cases "0 \<le> n") (simp_all add: scan_exp_def Let_def)

lemma num_text_scan:
  assumes "is_double q" and "0 < q" and "stops r"
  shows "\<exists>v. scan_udec (num_text (Fin q) @ r) = Some (v, r) \<and> dbl v = Fin q"
proof -
  define v where "v = shortest q"
  define n where "n = dexp v"
  have v: "dbl v = Fin q" "finite_dec v" "0 \<le> v"
    using shortest_props [OF assms(1,2)] by (simp_all add: v_def)
  show ?thesis
  proof (cases "- 6 < n \<and> n \<le> 21")
    case True
    then have "num_text (Fin q) = plain_text v"
      using assms(2) by (simp add: num_text_def Let_def v_def n_def)
    with plain_text_read [OF v(3,2) assms(3)] v(1) show ?thesis by simp
  next
    case False
    define w where "w = v / pow10 (n - 1)"
    define x where "x = ''e'' @ (if 0 \<le> n - 1 then ''+'' else ''-'') @ show_uint \<bar>n - 1\<bar>"
    have t: "num_text (Fin q) @ r = plain_text w @ x @ r"
      using assms(2) False by (auto simp: num_text_def Let_def v_def n_def w_def x_def)
    have "finite_dec w" unfolding w_def by (rule finite_dec_scale [OF v(2)])
    moreover have "0 \<le> w" using v(3) by (simp add: w_def less_imp_le)
    moreover have "ends_int (x @ r)" by (simp add: x_def ends_int_def is_digit_def)
    ultimately have "scan_udec (plain_text w @ x @ r) =
        (case scan_exp (x @ r) of (e, r') \<Rightarrow> Some (w * pow10 e, r'))"
      by (intro plain_text_scan)
    moreover have "scan_exp (x @ r) = (n - 1, r)"
      using scan_exp_text [of r "n - 1"] assms(3) by (auto simp: x_def stops_def)
    moreover have "w * pow10 (n - 1) = v"
      using pow10_pos [of "n - 1"] by (simp add: w_def less_imp_neq [THEN not_sym])
    ultimately show ?thesis using t v(1) by simp
  qed
qed

text \<open>The integer part of a printed number has no leading zero, and a point is followed by a digit.\<close>

lemma show_uint_lead: "0 < n \<Longrightarrow> hd (show_uint n) \<noteq> CHR ''0''"
proof (induction n rule: show_uint.induct)
  case (1 n)
  show ?case
  proof (cases "n < 10")
    case True
    have "digit_char n \<noteq> CHR ''0''"
      using True "1.prems" digit_val_char [of n] by (auto simp: digit_val_def)
    with True show ?thesis by (subst show_uint.simps) simp
  next
    case False
    with 1 have "hd (show_uint (n div 10)) \<noteq> CHR ''0''" by simp
    with False show ?thesis by (subst show_uint.simps) simp
  qed
qed

lemma show_uint_json: "0 \<le> n \<Longrightarrow> hd (show_uint n) \<noteq> CHR ''0'' \<or> length (show_uint n) = 1"
  using show_uint_lead [of n] by (cases "n = 0") (simp_all add: show_uint.simps)

definition num_shape :: "string \<Rightarrow> bool" where
  "num_shape t \<longleftrightarrow> (\<exists>a u. t = show_uint a @ u \<and> 0 \<le> a \<and> (u = [] \<or> \<not> is_digit (hd u)) \<and>
     (u \<noteq> [] \<and> hd u = CHR ''.'' \<longrightarrow> takeWhile is_digit (tl u) \<noteq> []))"

lemma num_shape_fixed:
  assumes "0 \<le> m" and "x = [] \<or> (\<not> is_digit (hd x) \<and> hd x \<noteq> CHR ''.'')"
  shows "num_shape (fixed_text m j @ x)"
proof (cases "j = 0")
  case True
  then show ?thesis
    unfolding num_shape_def using assms by (intro exI [of _ m] exI [of _ x]) (auto simp: fixed_text_def)
next
  case False
  let ?f = "show_uint (m mod 10 ^ j)"
  let ?g = "replicate (j - length ?f) CHR ''0'' @ ?f"
  have g: "length ?g = j" "\<forall>c \<in> set ?g. is_digit c" using fixed_frac [OF assms(1) False] by simp_all
  have "takeWhile is_digit (?g @ x) = ?g"
    by (rule takeWhile_digits(1)) (use g assms(2) in auto)
  moreover have "?g \<noteq> []" by simp
  moreover have "0 \<le> m div 10 ^ j" using assms(1) by (simp add: pos_imp_zdiv_nonneg_iff)
  ultimately show ?thesis
    unfolding num_shape_def
    by (intro exI [of _ "m div 10 ^ j"] exI [of _ "CHR ''.'' # ?g @ x"])
       (auto simp: fixed_text_def Let_def False is_digit_def [of "CHR ''.''"])
qed

lemma num_text_shape:
  assumes "is_double q" and "0 < q"
  shows "num_shape (num_text (Fin q))"
proof -
  define v where "v = shortest q"
  define n where "n = dexp v"
  have v: "finite_dec v" "0 \<le> v"
    using shortest_props [OF assms] by (simp_all add: v_def)
  have plain: "num_shape (plain_text w @ x)"
    if "finite_dec w" "0 \<le> w" "x = [] \<or> (\<not> is_digit (hd x) \<and> hd x \<noteq> CHR ''.'')" for w x
    using plain_text_fixed [OF that(2,1)] num_shape_fixed [OF _ that(3)] by metis
  have w: "finite_dec (v / pow10 (n - 1))" "0 \<le> v / pow10 (n - 1)"
    using v by (simp_all add: finite_dec_scale less_imp_le)
  show ?thesis
    using assms(2) plain [OF v, of "[]"]
      plain [OF w, of "''e'' @ (if 0 \<le> n - 1 then ''+'' else ''-'') @ show_uint \<bar>n - 1\<bar>"]
    by (auto simp: num_text_def Let_def is_digit_def simp flip: v_def n_def)
qed

end
