(* ===== verification/Js_Value.thy ===== *)
theory Js_Value
  imports Js_Number
begin

text \<open>
  JavaScript values as the dashboard handles them (data from JSON responses, store fields,
  form fields) and the operators of the language the source applies to them: truthiness,
  property access, \<open>+\<close>, \<open>&\<close>, comparison, conversion to text and to number. An object is the
  list of its properties in insertion order. \<open>None\<close> is a thrown exception.
\<close>

unbundle bit_operations_syntax

datatype jsval =
    JUndef | JNull | JBool bool | JNum jsnum | JStr string
  | JArr "jsval list" | JObj "(string \<times> jsval) list"

abbreviation JInt :: "int \<Rightarrow> jsval" where
  "JInt n \<equiv> JNum (Fin (of_int n))"

section \<open>Truthiness and properties\<close>

fun truthy :: "jsval \<Rightarrow> bool" where
  "truthy JUndef = False"
| "truthy JNull = False"
| "truthy (JBool b) = b"
| "truthy (JNum x) = (x \<noteq> NaN \<and> x \<noteq> Fin 0)"
| "truthy (JStr s) = (s \<noteq> [])"
| "truthy (JArr _) = True"
| "truthy (JObj _) = True"

definition js_or :: "jsval \<Rightarrow> jsval \<Rightarrow> jsval" where
  "js_or a b = (if truthy a then a else b)"

text \<open>\<open>v.k\<close>: reading a property of \<open>undefined\<close> or \<open>null\<close> throws; a missing one is \<open>undefined\<close>.\<close>

fun js_get :: "jsval \<Rightarrow> string \<Rightarrow> jsval option" where
  "js_get JUndef k = None"
| "js_get JNull k = None"
| "js_get (JObj ps) k = Some (case map_of ps k of None \<Rightarrow> JUndef | Some v \<Rightarrow> v)"
| "js_get _ k = Some JUndef"

fun obj_set :: "string \<Rightarrow> jsval \<Rightarrow> (string \<times> jsval) list \<Rightarrow> (string \<times> jsval) list" where
  "obj_set k v [] = [(k, v)]"
| "obj_set k v ((k', w) # ps) = (if k = k' then (k, v) # ps else (k', w) # obj_set k v ps)"

text \<open>\<open>v.k = w\<close>: on \<open>undefined\<close> and \<open>null\<close> it throws, on other primitives it has no effect.\<close>

fun js_set :: "jsval \<Rightarrow> string \<Rightarrow> jsval \<Rightarrow> jsval option" where
  "js_set JUndef k w = None"
| "js_set JNull k w = None"
| "js_set (JObj ps) k w = Some (JObj (obj_set k w ps))"
| "js_set v k w = Some v"

lemma map_of_obj_set: "map_of (obj_set k v ps) = (map_of ps)(k \<mapsto> v)"
  by (induction ps) auto

lemma js_get_set: "js_set (JObj ps) k w = Some o' \<Longrightarrow> js_get o' k' = (if k' = k then Some w else js_get (JObj ps) k')"
  by (auto simp: map_of_obj_set)

section \<open>Conversions\<close>

fun join_with :: "string \<Rightarrow> string list \<Rightarrow> string" where
  "join_with sep [] = []"
| "join_with sep [x] = x"
| "join_with sep (x # y # xs) = x @ sep @ join_with sep (y # xs)"

fun js_text :: "jsval \<Rightarrow> string" where
  "js_text JUndef = ''undefined''"
| "js_text JNull = ''null''"
| "js_text (JBool b) = (if b then ''true'' else ''false'')"
| "js_text (JNum x) = num_text x"
| "js_text (JStr s) = s"
| "js_text (JArr vs) = join_with '','' (map (\<lambda>v. if v = JUndef \<or> v = JNull then [] else js_text v) vs)"
| "js_text (JObj _) = ''[object Object]''"

fun to_number :: "jsval \<Rightarrow> jsnum" where
  "to_number JUndef = NaN"
| "to_number JNull = Fin 0"
| "to_number (JBool b) = Fin (if b then 1 else 0)"
| "to_number (JNum x) = x"
| "to_number (JStr s) = js_Number s"
| "to_number v = js_Number (js_text v)"

section \<open>Arithmetic and comparison\<close>

fun num_add :: "jsnum \<Rightarrow> jsnum \<Rightarrow> jsnum" where
  "num_add (Fin a) (Fin b) = dbl (a + b)"
| "num_add NaN _ = NaN"
| "num_add _ NaN = NaN"
| "num_add PInf NInf = NaN"
| "num_add NInf PInf = NaN"
| "num_add PInf _ = PInf"
| "num_add NInf _ = NInf"
| "num_add _ y = y"

fun num_neg :: "jsnum \<Rightarrow> jsnum" where
  "num_neg NaN = NaN"
| "num_neg PInf = NInf"
| "num_neg NInf = PInf"
| "num_neg (Fin q) = Fin (- q)"

definition num_sub :: "jsnum \<Rightarrow> jsnum \<Rightarrow> jsnum" where
  "num_sub x y = num_add x (num_neg y)"

fun num_lt :: "jsnum \<Rightarrow> jsnum \<Rightarrow> bool" where
  "num_lt (Fin a) (Fin b) = (a < b)"
| "num_lt NaN _ = False"
| "num_lt _ NaN = False"
| "num_lt NInf y = (y \<noteq> NInf)"
| "num_lt _ NInf = False"
| "num_lt PInf _ = False"
| "num_lt _ PInf = True"

definition num_le :: "jsnum \<Rightarrow> jsnum \<Rightarrow> bool" where
  "num_le x y \<longleftrightarrow> x \<noteq> NaN \<and> y \<noteq> NaN \<and> \<not> num_lt y x"

text \<open>\<open>a + b\<close>: concatenation as soon as one side is a string (arrays and objects become one).\<close>

definition stringy :: "jsval \<Rightarrow> bool" where
  "stringy v = (case v of JStr _ \<Rightarrow> True | JArr _ \<Rightarrow> True | JObj _ \<Rightarrow> True | _ \<Rightarrow> False)"

definition js_plus :: "jsval \<Rightarrow> jsval \<Rightarrow> jsval" where
  "js_plus a b =
     (if stringy a \<or> stringy b then JStr (js_text a @ js_text b)
      else JNum (num_add (to_number a) (to_number b)))"

text \<open>\<open>a & b\<close> works on 32-bit integers; the result is read as a signed number.\<close>

definition to_int32 :: "jsval \<Rightarrow> 32 word" where
  "to_int32 v = (case to_number v of
     Fin q \<Rightarrow> of_int (if 0 \<le> q then \<lfloor>q\<rfloor> else \<lceil>q\<rceil>) | _ \<Rightarrow> 0)"

definition js_band :: "jsval \<Rightarrow> jsval \<Rightarrow> int" where
  "js_band a b = sint (to_int32 a AND to_int32 b)"

text \<open>\<open>===\<close> on primitive values; \<open>NaN\<close> differs from itself.\<close>

fun js_seq :: "jsval \<Rightarrow> jsval \<Rightarrow> bool" where
  "js_seq (JNum x) (JNum y) = (x = y \<and> x \<noteq> NaN)"
| "js_seq (JArr _) _ = False"
| "js_seq (JObj _) _ = False"
| "js_seq a b = (a = b)"

lemma truthy_JInt [simp]: "truthy (JInt n) \<longleftrightarrow> n \<noteq> 0"
  by simp

lemma js_plus_str [simp]: "js_plus (JStr s) v = JStr (s @ js_text v)"
  by (simp add: js_plus_def stringy_def)

lemma js_plus_undef_num [simp]: "js_plus JUndef (JNum x) = JNum NaN"
  by (simp add: js_plus_def stringy_def)

lemma js_text_int [simp]: "0 \<le> n \<Longrightarrow> n < 10 ^ 15 \<Longrightarrow> js_text (JInt n) = show_uint n"
  by simp

lemma num_add_int [simp]:
  "\<bar>a + b\<bar> < 2 ^ 53 \<Longrightarrow> num_add (Fin (of_int a)) (Fin (of_int b)) = Fin (of_int (a + b))"
  using dbl_int [of "a + b"] by simp

lemma to_int32_JInt [simp]: "to_int32 (JInt n) = of_int n"
  by (simp add: to_int32_def)

end
