(* ===== verification/Web_Crypto.thy ===== *)
theory Web_Crypto
  imports Std_Crypto Js_Value
begin

text \<open>
  The browser's cryptographic helpers, \<open>dashboard/web/helpers/crypto.js\<close>. The library they
  call, CryptoJS, is outside the repository: it is the record \<open>cryptojs\<close>, an argument of every
  definition here. What its documentation promises (the digests and the cipher are the
  published standards, the encoders are hexadecimal, UTF-8 and base-64, a cipher text that
  starts with the OpenSSL salt marker is taken apart, a missing message is the empty one) is the contract \<open>cryptojs_std\<close>, which
  \<open>std_cryptojs\<close> meets with the standards of \<open>Std_Crypto\<close>.
\<close>

section \<open>The library's interface\<close>

datatype cjval = CStr string | CWords bytes

record cryptojs =
  cj_toString :: "bytes \<Rightarrow> string"
  cj_SHA224 :: "cjval \<Rightarrow> bytes"
  cj_SHA256 :: "cjval \<Rightarrow> bytes"
  cj_HmacSHA256 :: "jsval \<Rightarrow> jsval \<Rightarrow> bytes option"
  cj_hexParse :: "jsval \<Rightarrow> bytes option"
  cj_utf8Parse :: "string \<Rightarrow> bytes"
  cj_utf8Stringify :: "bytes \<Rightarrow> string option"
  cj_base64Stringify :: "bytes \<Rightarrow> string"
  cj_AESencrypt :: "bytes \<Rightarrow> bytes \<Rightarrow> bytes \<Rightarrow> bytes"
  cj_AESdecrypt :: "string \<Rightarrow> bytes \<Rightarrow> bytes \<Rightarrow> bytes"

section \<open>The helpers\<close>

definition hmacSHA256 :: "cryptojs \<Rightarrow> jsval \<Rightarrow> jsval \<Rightarrow> string option" where
  "hmacSHA256 cj message secret =
     (let secret = js_or secret message
      in map_option (cj_toString cj) (cj_HmacSHA256 cj message secret))"

definition sha224_js :: "cryptojs \<Rightarrow> cjval \<Rightarrow> string" where
  "sha224_js cj str = cj_toString cj (cj_SHA224 cj str)"

definition sha256_js :: "cryptojs \<Rightarrow> cjval \<Rightarrow> string" where
  "sha256_js cj str = cj_toString cj (cj_SHA256 cj str)"

definition doubleSha256 :: "cryptojs \<Rightarrow> cjval \<Rightarrow> string" where
  "doubleSha256 cj str = cj_toString cj (cj_SHA256 cj (CWords (cj_SHA256 cj str)))"

definition tripleSha256 :: "cryptojs \<Rightarrow> cjval \<Rightarrow> string" where
  "tripleSha256 cj str =
     cj_toString cj (cj_SHA256 cj (CWords (cj_SHA256 cj (CWords (cj_SHA256 cj str)))))"

definition cryptoHexStringParse :: "cryptojs \<Rightarrow> jsval \<Rightarrow> bytes option" where
  "cryptoHexStringParse cj hexString = cj_hexParse cj hexString"

definition sha224Hex :: "cryptojs \<Rightarrow> jsval \<Rightarrow> string option" where
  "sha224Hex cj hexStr = map_option (\<lambda>w. sha224_js cj (CWords w)) (cryptoHexStringParse cj hexStr)"

definition sha256Hex :: "cryptojs \<Rightarrow> jsval \<Rightarrow> string option" where
  "sha256Hex cj hexStr = map_option (\<lambda>w. sha256_js cj (CWords w)) (cryptoHexStringParse cj hexStr)"

definition doubleSha256Hex :: "cryptojs \<Rightarrow> jsval \<Rightarrow> string option" where
  "doubleSha256Hex cj hexStr =
     map_option (\<lambda>w. cj_toString cj (cj_SHA256 cj (CWords (cj_SHA256 cj (CWords w)))))
       (cryptoHexStringParse cj hexStr)"

definition tripleSha256Hex :: "cryptojs \<Rightarrow> jsval \<Rightarrow> string option" where
  "tripleSha256Hex cj hexStr =
     map_option
       (\<lambda>w. cj_toString cj (cj_SHA256 cj (CWords (cj_SHA256 cj (CWords (cj_SHA256 cj (CWords w)))))))
       (cryptoHexStringParse cj hexStr)"

definition seedHash :: "cryptojs \<Rightarrow> string \<Rightarrow> string" where
  "seedHash cj password = sha256_js cj (CStr (tripleSha256 cj (CStr password)))"

definition authHash :: "cryptojs \<Rightarrow> string \<Rightarrow> string" where
  "authHash cj password = sha224_js cj (CStr (tripleSha256 cj (CStr password)))"

definition aesEncrypt :: "cryptojs \<Rightarrow> string \<Rightarrow> string \<Rightarrow> string option" where
  "aesEncrypt cj plaintext prikey =
     (let srcs = cj_utf8Parse cj plaintext in
      case hmacSHA256 cj (JStr prikey) (JStr prikey) of
        None \<Rightarrow> None
      | Some key \<Rightarrow>
          (case (cj_hexParse cj (JStr (take 32 key)), cj_hexParse cj (JStr key)) of
             (Some iv, Some key) \<Rightarrow> Some (cj_toString cj (cj_AESencrypt cj key iv srcs))
           | _ \<Rightarrow> None))"

definition aesDecrypt :: "cryptojs \<Rightarrow> jsval \<Rightarrow> string \<Rightarrow> string option" where
  "aesDecrypt cj ciphertext prikey =
     (case hmacSHA256 cj (JStr prikey) (JStr prikey) of
        None \<Rightarrow> None
      | Some key \<Rightarrow>
          (case (cj_hexParse cj (JStr (take 32 key)), cj_hexParse cj (JStr key)) of
             (Some iv, Some key) \<Rightarrow>
               (case cj_hexParse cj ciphertext of
                  None \<Rightarrow> None
                | Some encryptedHexStr \<Rightarrow>
                    (let srcs = cj_base64Stringify cj encryptedHexStr;
                         decrypt = cj_AESdecrypt cj srcs key iv
                     in cj_utf8Stringify cj decrypt))
           | _ \<Rightarrow> None))"

definition passwordHash :: "cryptojs \<Rightarrow> string \<Rightarrow> string \<Rightarrow> string option" where
  "passwordHash cj password secret =
     (let passwordHash = sha224_js cj (CStr (tripleSha256 cj (CStr password)))
      in aesEncrypt cj passwordHash secret)"

text \<open>The digests that the library computes by a routine the dashboard never calls elsewhere.\<close>

definition ripemd160 :: "(cjval \<Rightarrow> bytes) \<Rightarrow> cryptojs \<Rightarrow> cjval \<Rightarrow> string" where
  "ripemd160 cj_RIPEMD160 cj str = cj_toString cj (cj_RIPEMD160 str)"

definition ripemd160Hex :: "(cjval \<Rightarrow> bytes) \<Rightarrow> cryptojs \<Rightarrow> jsval \<Rightarrow> string option" where
  "ripemd160Hex cj_RIPEMD160 cj hexStr =
     map_option (\<lambda>w. cj_toString cj (cj_RIPEMD160 (CWords w))) (cryptoHexStringParse cj hexStr)"

section \<open>What the library documents\<close>

fun cj_input :: "cjval \<Rightarrow> bytes" where
  "cj_input (CStr s) = bytes_of s"
| "cj_input (CWords w) = w"

definition salted :: "bytes \<Rightarrow> bool" where
  "salted c \<longleftrightarrow> take 8 c = bytes_of ''Salted__''"

locale cryptojs_std =
  fixes cj :: cryptojs
  assumes toString: "cj_toString cj bs = hex_encode bs"
    and hexParse: "cj_hexParse cj (JStr (hex_encode bs)) = Some bs"
    and SHA224: "cj_SHA224 cj x = sha224 (cj_input x)"
    and SHA256: "cj_SHA256 cj x = sha256 (cj_input x)"
    and HmacSHA256: "cj_HmacSHA256 cj (JStr m) (JStr k) = Some (hmac_sha256 (bytes_of k) (bytes_of m))"
    and HmacSHA256_null: "cj_HmacSHA256 cj JNull (JStr k) = Some (hmac_sha256 (bytes_of k) [])"
    and utf8Parse: "cj_utf8Parse cj s = bytes_of s"
    and utf8Stringify: "cj_utf8Stringify cj bs = (if utf8_ok bs then Some (string_of bs) else None)"
    and AESencrypt: "length key = 32 \<Longrightarrow> length iv = 16 \<Longrightarrow>
        cj_AESencrypt cj key iv p = aes_cfb_encrypt key iv p"
    and AESdecrypt: "length key = 32 \<Longrightarrow> length iv = 16 \<Longrightarrow> \<not> salted c \<Longrightarrow>
        cj_AESdecrypt cj (cj_base64Stringify cj c) key iv = aes_cfb_decrypt key iv c"

text \<open>The key both ends derive from a secret text, and the cipher text of one message under it.\<close>

definition box_key :: "string \<Rightarrow> bytes" where
  "box_key k = hmac_sha256 (bytes_of k) (bytes_of k)"

definition box_bytes :: "string \<Rightarrow> string \<Rightarrow> bytes" where
  "box_bytes k p = aes_cfb_encrypt (box_key k) (take 16 (box_key k)) (bytes_of p)"

lemma length_box_key [simp, len_simps]: "length (box_key k) = 32"
  by (simp add: box_key_def)

lemma length_box_bytes [simp, len_simps]: "length (box_bytes k p) = length p"
  by (simp add: box_bytes_def)

lemma not_salted_short: "length c < 8 \<Longrightarrow> \<not> salted c"
  by (auto simp: salted_def dest!: arg_cong [where f = length])

context cryptojs_std
begin

lemma hmac_text:
  assumes "k \<noteq> []"
  shows "hmacSHA256 cj (JStr m) (JStr k) = Some (hex_encode (hmac_sha256 (bytes_of k) (bytes_of m)))"
  using assms by (simp add: hmacSHA256_def js_or_def HmacSHA256 toString)

lemma hmac_null:
  assumes "k \<noteq> []"
  shows "hmacSHA256 cj JNull (JStr k) = Some (hex_encode (hmac_sha256 (bytes_of k) []))"
  using assms by (simp add: hmacSHA256_def js_or_def HmacSHA256_null toString)

lemma hmac_self: "hmacSHA256 cj (JStr k) (JStr k) = Some (hex_encode (box_key k))"
  by (cases "k = []") (simp_all add: hmacSHA256_def js_or_def HmacSHA256 toString box_key_def)

lemma key_parts:
  "cj_hexParse cj (JStr (take 32 (hex_encode (box_key k)))) = Some (take 16 (box_key k))"
  "cj_hexParse cj (JStr (hex_encode (box_key k))) = Some (box_key k)"
  using take_hex_encode [of 16 "box_key k"] by (simp_all add: hexParse)

lemma aesEncrypt_eq: "aesEncrypt cj p k = Some (hex_encode (box_bytes k p))"
  by (simp add: aesEncrypt_def hmac_self key_parts AESencrypt utf8Parse toString box_bytes_def)

lemma aesDecrypt_eq:
  assumes "\<not> salted c"
  shows "aesDecrypt cj (JStr (hex_encode c)) k =
    (let p = aes_cfb_decrypt (box_key k) (take 16 (box_key k)) c
     in if utf8_ok p then Some (string_of p) else None)"
  using assms
  by (simp add: aesDecrypt_def hmac_self key_parts hexParse AESdecrypt utf8Stringify Let_def)

lemma aes_roundtrip:
  assumes "utf8_ok (bytes_of p)" and "\<not> salted (box_bytes k p)"
  shows "aesDecrypt cj (JStr (hex_encode (box_bytes k p))) k = Some p"
  using assms(1) aesDecrypt_eq [OF assms(2), of k] by (simp add: box_bytes_def Let_def)

lemma tripleSha256_eq:
  "tripleSha256 cj (CStr p) = hex_encode (sha256 (sha256 (sha256 (bytes_of p))))"
  by (simp add: tripleSha256_def toString SHA256)

lemma authHash_eq:
  "authHash cj p = hex_encode (sha224 (bytes_of (hex_encode (sha256 (sha256 (sha256 (bytes_of p)))))))"
  by (simp add: authHash_def sha224_js_def toString SHA224 tripleSha256_eq)

lemma seedHash_eq:
  "seedHash cj p = hex_encode (sha256 (bytes_of (hex_encode (sha256 (sha256 (sha256 (bytes_of p)))))))"
  by (simp add: seedHash_def sha256_js_def toString SHA256 tripleSha256_eq)

lemma passwordHash_eq: "passwordHash cj p k = Some (hex_encode (box_bytes k (authHash cj p)))"
  by (simp add: passwordHash_def aesEncrypt_eq authHash_def)

end

section \<open>The standards meet the contract\<close>

definition std_cryptojs :: cryptojs where
  "std_cryptojs = \<lparr>
     cj_toString = hex_encode,
     cj_SHA224 = (\<lambda>x. sha224 (cj_input x)),
     cj_SHA256 = (\<lambda>x. sha256 (cj_input x)),
     cj_HmacSHA256 = (\<lambda>m k. case (m, k) of
        (JStr m, JStr k) \<Rightarrow> Some (hmac_sha256 (bytes_of k) (bytes_of m))
      | (JNull, JStr k) \<Rightarrow> Some (hmac_sha256 (bytes_of k) [])
      | _ \<Rightarrow> None),
     cj_hexParse = (\<lambda>v. case v of JStr s \<Rightarrow> hex_decode s | _ \<Rightarrow> None),
     cj_utf8Parse = bytes_of,
     cj_utf8Stringify = (\<lambda>bs. if utf8_ok bs then Some (string_of bs) else None),
     cj_base64Stringify = base64_encode,
     cj_AESencrypt = aes_cfb_encrypt,
     cj_AESdecrypt = (\<lambda>t key iv. case base64_decode t of
        None \<Rightarrow> []
      | Some c \<Rightarrow> aes_cfb_decrypt key iv (if salted c then drop 16 c else c))\<rparr>"

interpretation std_cj: cryptojs_std std_cryptojs
  by unfold_locales (simp_all add: std_cryptojs_def)

lemmas std_cryptojs_ok = std_cj.cryptojs_std_axioms

section \<open>Properties\<close>

text \<open>
  A text that \<open>aesEncrypt\<close> seals under a secret comes back from \<open>aesDecrypt\<close> with the same
  secret, for every UTF-8 text whose cipher text does not start with the marker that CryptoJS
  reads as an OpenSSL salt header.
\<close>

theorem aesDecrypt_aesEncrypt:
  assumes "cryptojs_std cj" and "utf8_ok (bytes_of p)" and "\<not> salted (box_bytes k p)"
  shows "Option.bind (aesEncrypt cj p k) (\<lambda>c. aesDecrypt cj (JStr c) k) = Some p"
  using cryptojs_std.aesEncrypt_eq [OF assms(1)] cryptojs_std.aes_roundtrip [OF assms] by simp

theorem aesDecrypt_aesEncrypt_witness:
  "Option.bind (aesEncrypt std_cryptojs ''{}'' ''k'') (\<lambda>c. aesDecrypt std_cryptojs (JStr c) ''k'') =
     Some ''{}''"
  by (rule aesDecrypt_aesEncrypt [OF std_cryptojs_ok])
     (simp_all add: utf8_ok_ascii not_salted_short bytes_of_def)

text \<open>
  \<open>seedHash\<close>, \<open>authHash\<close> and \<open>passwordHash\<close> never throw and have fixed sizes: 64 and 56
  hexadecimal digits for the two digests, and 112 for the sealed digest, whatever the password
  and the secret are. So the \<open>Authorization\<close> value shows nothing of the password's length.
\<close>

theorem password_digest_sizes:
  assumes "cryptojs_std cj"
  shows "length (seedHash cj p) = 64 \<and> length (authHash cj p) = 56 \<and>
    (\<exists>h. passwordHash cj p k = Some h \<and> length h = 112)"
  using cryptojs_std.seedHash_eq [OF assms] cryptojs_std.authHash_eq [OF assms]
    cryptojs_std.passwordHash_eq [OF assms]
  by (simp add: length_hex_encode)

theorem password_digest_sizes_witness:
  "length (seedHash std_cryptojs ''pw'') = 64 \<and> length (authHash std_cryptojs ''pw'') = 56 \<and>
    (\<exists>h. passwordHash std_cryptojs ''pw'' ''k'' = Some h \<and> length h = 112)"
  by (rule password_digest_sizes [OF std_cryptojs_ok])

end
