(* ===== verification/Js_Json.thy ===== *)
theory Js_Json
  imports Js_Value
begin

text \<open>
  JSON text: \<open>JSON.stringify\<close> and \<open>JSON.parse\<close> of ECMAScript. The parser is a recursive descent
  over the text with a fuel argument; \<open>json_parse\<close> starts it with one unit more than the length
  of the text, and the round trip below shows that this is enough for every printed value.
  A repeated key keeps its first position and its last value, as in the engine.
\<close>

section \<open>Printing\<close>

definition quote_char :: "char \<Rightarrow> string" where
  "quote_char c = (let n = of_char c :: nat in
     if n = 34 then [CHR 0x5C, CHR 0x22] else if n = 92 then [CHR 0x5C, CHR 0x5C]
     else if n = 8 then [CHR 0x5C, CHR ''b''] else if n = 12 then [CHR 0x5C, CHR ''f'']
     else if n = 10 then [CHR 0x5C, CHR ''n''] else if n = 13 then [CHR 0x5C, CHR ''r'']
     else if n = 9 then [CHR 0x5C, CHR ''t'']
     else if n < 32 then [CHR 0x5C, CHR ''u'', CHR ''0'', CHR ''0'', hex_digit (n div 16), hex_digit (n mod 16)]
     else [c])"

definition quote_text :: "string \<Rightarrow> string" where
  "quote_text s = CHR 0x22 # concat (map quote_char s) @ [CHR 0x22]"

definition num_json :: "jsnum \<Rightarrow> string" where
  "num_json x = (case x of Fin _ \<Rightarrow> num_text x | _ \<Rightarrow> ''null'')"

fun json_str :: "jsval \<Rightarrow> string" where
  "json_str JUndef = ''null''"
| "json_str JNull = ''null''"
| "json_str (JBool b) = (if b then ''true'' else ''false'')"
| "json_str (JNum x) = num_json x"
| "json_str (JStr s) = quote_text s"
| "json_str (JArr vs) = ''['' @ join_with '','' (map json_str vs) @ '']''"
| "json_str (JObj ps) =
     ''{'' @ join_with '','' (map (\<lambda>(k, v). quote_text k @ '':'' @ json_str v)
                              (filter (\<lambda>(k, v). v \<noteq> JUndef) ps)) @ ''}''"

text \<open>\<open>JSON.stringify(undefined)\<close> is \<open>undefined\<close>, not a text.\<close>

definition js_stringify :: "jsval \<Rightarrow> string option" where
  "js_stringify v = (if v = JUndef then None else Some (json_str v))"

section \<open>Parsing\<close>

definition json_ws :: "char \<Rightarrow> bool" where
  "json_ws c \<longleftrightarrow> (of_char c :: nat) \<in> {9, 10, 13, 32}"

definition json_skip :: "string \<Rightarrow> string" where
  "json_skip s = dropWhile json_ws s"

text \<open>A code unit of a \<open>\u\<close> escape, and the UTF-8 bytes of a code point.\<close>

definition hex4 :: "string \<Rightarrow> nat option" where
  "hex4 s = (if 4 \<le> length s \<and> list_all (radix_digit 16) (take 4 s)
             then Some (nat (radix_val 16 (take 4 s))) else None)"

definition utf8_char :: "nat \<Rightarrow> string" where
  "utf8_char n =
     (if n < 0x80 then [char_of n]
      else if n < 0x800 then [char_of (0xC0 + n div 64), char_of (0x80 + n mod 64)]
      else if n < 0x10000 then
        [char_of (0xE0 + n div 4096), char_of (0x80 + n div 64 mod 64), char_of (0x80 + n mod 64)]
      else [char_of (0xF0 + n div 262144), char_of (0x80 + n div 4096 mod 64),
            char_of (0x80 + n div 64 mod 64), char_of (0x80 + n mod 64)])"

definition simple_escape :: "char \<Rightarrow> char option" where
  "simple_escape c = map_of
     [(CHR 0x22, CHR 0x22), (CHR 0x5C, CHR 0x5C), (CHR ''/'', CHR ''/''), (CHR ''b'', CHR 0x08),
      (CHR ''f'', CHR 0x0C), (CHR ''n'', CHR 0x0A), (CHR ''r'', CHR 0x0D), (CHR ''t'', CHR 0x09)] c"

text \<open>
  One escape after its backslash: its UTF-8 bytes and what follows. A high surrogate joins the
  low surrogate escape that follows it; a lone one keeps its generalised three-byte form.
\<close>

definition scan_escape :: "string \<Rightarrow> (string \<times> string) option" where
  "scan_escape s =
     (case s of
        [] \<Rightarrow> None
      | c # r \<Rightarrow>
          if c = CHR ''u'' then
            (case hex4 r of
               None \<Rightarrow> None
             | Some n \<Rightarrow>
                 let r' = drop 4 r in
                 if 0xD800 \<le> n \<and> n \<le> 0xDBFF \<and> take 2 r' = [CHR 0x5C, CHR ''u''] then
                   (case hex4 (drop 2 r') of
                      Some m \<Rightarrow>
                        if 0xDC00 \<le> m \<and> m \<le> 0xDFFF
                        then Some (utf8_char (0x10000 + (n - 0xD800) * 1024 + (m - 0xDC00)), drop 6 r')
                        else Some (utf8_char n, r')
                    | None \<Rightarrow> Some (utf8_char n, r'))
                 else Some (utf8_char n, r'))
          else map_option (\<lambda>d. ([d], r)) (simple_escape c))"

function scan_string :: "string \<Rightarrow> (string \<times> string) option" where
  "scan_string s =
     (case s of
        [] \<Rightarrow> None
      | c # r \<Rightarrow>
          if c = CHR 0x22 then Some ([], r)
          else if c = CHR 0x5C then
            (case scan_escape r of
               None \<Rightarrow> None
             | Some (t, r') \<Rightarrow>
                 if length r' < length s then map_option (\<lambda>(u, r''). (t @ u, r'')) (scan_string r')
                 else None)
          else if (of_char c :: nat) < 32 then None
          else map_option (\<lambda>(u, r'). (c # u, r')) (scan_string r))"
  by pat_completeness auto
termination
  by (relation "measure length") auto

declare scan_string.simps [simp del]

definition scan_json_num :: "string \<Rightarrow> (jsval \<times> string) option" where
  "scan_json_num s =
     (let neg = (s \<noteq> [] \<and> hd s = CHR ''-''); u = (if neg then tl s else s);
          ip = takeWhile is_digit u; r = dropWhile is_digit u
      in if ip = [] \<or> (hd ip = CHR ''0'' \<and> length ip \<noteq> 1) then None
         else if r \<noteq> [] \<and> hd r = CHR ''.'' \<and> takeWhile is_digit (tl r) = [] then None
         else map_option (\<lambda>(q, r'). (JNum (dbl (if neg then - q else q)), r')) (scan_udec u))"

definition scan_word :: "string \<Rightarrow> jsval \<Rightarrow> string \<Rightarrow> (jsval \<times> string) option" where
  "scan_word w v s = (if take (length w) s = w then Some (v, drop (length w) s) else None)"

fun scan_value :: "nat \<Rightarrow> string \<Rightarrow> (jsval \<times> string) option"
  and scan_elems :: "nat \<Rightarrow> string \<Rightarrow> (jsval list \<times> string) option"
  and scan_members :: "nat \<Rightarrow> string \<Rightarrow> ((string \<times> jsval) list \<times> string) option"
where
  "scan_value 0 s = None"
| "scan_value (Suc n) s =
     (case json_skip s of
        [] \<Rightarrow> None
      | c # r \<Rightarrow>
          if c = CHR 0x22 then map_option (\<lambda>(t, r'). (JStr t, r')) (scan_string r)
          else if c = CHR ''['' then
            (case json_skip r of
               [] \<Rightarrow> None
             | d # r' \<Rightarrow>
                 if d = CHR '']'' then Some (JArr [], r')
                 else map_option (\<lambda>(vs, r''). (JArr vs, r'')) (scan_elems n r))
          else if c = CHR ''{'' then
            (case json_skip r of
               [] \<Rightarrow> None
             | d # r' \<Rightarrow>
                 if d = CHR ''}'' then Some (JObj [], r')
                 else map_option (\<lambda>(ps, r''). (JObj (foldl (\<lambda>o' (k, v). obj_set k v o') [] ps), r''))
                        (scan_members n r))
          else if c = CHR ''t'' then scan_word ''true'' (JBool True) (c # r)
          else if c = CHR ''f'' then scan_word ''false'' (JBool False) (c # r)
          else if c = CHR ''n'' then scan_word ''null'' JNull (c # r)
          else scan_json_num (c # r))"
| "scan_elems 0 s = None"
| "scan_elems (Suc n) s =
     (case scan_value n s of
        None \<Rightarrow> None
      | Some (v, r) \<Rightarrow>
          (case json_skip r of
             [] \<Rightarrow> None
           | d # r' \<Rightarrow>
               if d = CHR '']'' then Some ([v], r')
               else if d = CHR '','' then map_option (\<lambda>(vs, r''). (v # vs, r'')) (scan_elems n r')
               else None))"
| "scan_members 0 s = None"
| "scan_members (Suc n) s =
     (case json_skip s of
        [] \<Rightarrow> None
      | q # r \<Rightarrow>
          if q \<noteq> CHR 0x22 then None
          else
            (case scan_string r of
               None \<Rightarrow> None
             | Some (k, r1) \<Rightarrow>
                 (case json_skip r1 of
                    [] \<Rightarrow> None
                  | c # r2 \<Rightarrow>
                      if c \<noteq> CHR '':'' then None
                      else
                        (case scan_value n r2 of
                           None \<Rightarrow> None
                         | Some (v, r3) \<Rightarrow>
                             (case json_skip r3 of
                                [] \<Rightarrow> None
                              | d # r4 \<Rightarrow>
                                  if d = CHR ''}'' then Some ([(k, v)], r4)
                                  else if d = CHR '','' then
                                    map_option (\<lambda>(ps, r5). ((k, v) # ps, r5)) (scan_members n r4)
                                  else None)))))"

text \<open>\<open>JSON.parse(s)\<close>: one value with white space around it; \<open>None\<close> is the \<open>SyntaxError\<close>.\<close>

definition json_parse :: "string \<Rightarrow> jsval option" where
  "json_parse s =
     (case scan_value (Suc (length s)) s of
        Some (v, r) \<Rightarrow> (if json_skip r = [] then Some v else None)
      | None \<Rightarrow> None)"

section \<open>Strings read back\<close>

lemma char_code: "(of_char c :: nat) = of_char d \<Longrightarrow> c = d"
  by (metis char_of_char)

lemma scan_string_plain:
  assumes "c \<noteq> CHR 0x22" and "c \<noteq> CHR 0x5C" and "32 \<le> (of_char c :: nat)"
  shows "scan_string (c # t) = map_option (\<lambda>(u, r). (c # u, r)) (scan_string t)"
  using assms by (subst scan_string.simps) simp

lemma scan_string_escape:
  assumes "scan_escape (e @ t) = Some ([c], t)"
  shows "scan_string (CHR 0x5C # e @ t) = map_option (\<lambda>(u, r). (c # u, r)) (scan_string t)"
  using assms by (subst scan_string.simps) (simp add: le_imp_less_Suc)

lemma scan_escape_simple:
  "x \<noteq> CHR ''u'' \<Longrightarrow> simple_escape x = Some c \<Longrightarrow> scan_escape ([x] @ t) = Some ([c], t)"
  by (simp add: scan_escape_def)

lemma hex4_control:
  assumes "n < 32"
  shows "hex4 ([CHR ''0'', CHR ''0'', hex_digit (n div 16), hex_digit (n mod 16)] @ t) = Some n"
proof -
  have "n div 16 < 16" "n mod 16 < 16" using assms by simp_all
  moreover have "hex_value (CHR ''0'') = Some 0" by (simp add: hex_value_def)
  moreover have "nat (int (n div 16) * 16 + int (n mod 16)) = n"
  proof -
    have "int (n div 16) * 16 + int (n mod 16) = int n"
      by (metis div_mult_mod_eq of_nat_add of_nat_mult of_nat_numeral)
    then show ?thesis by simp
  qed
  ultimately show ?thesis by (simp add: hex4_def radix_digit_def radix_val_def)
qed

lemma scan_escape_control:
  assumes "(of_char c :: nat) = n" and "n < 32"
  shows "scan_escape ([CHR ''u'', CHR ''0'', CHR ''0'', hex_digit (n div 16), hex_digit (n mod 16)] @ t)
         = Some ([c], t)"
proof -
  have "utf8_char n = [c]" using assms by (auto simp: utf8_char_def)
  with hex4_control [OF assms(2), of t] assms(2) show ?thesis
    by (simp add: scan_escape_def)
qed

lemma scan_quote_char:
  "scan_string (quote_char c @ t) = map_option (\<lambda>(u, r). (c # u, r)) (scan_string t)"
proof -
  define n where "n = (of_char c :: nat)"
  have esc: "scan_string (CHR 0x5C # [x] @ t) = map_option (\<lambda>(u, r). (c # u, r)) (scan_string t)"
    if "x \<noteq> CHR ''u''" "simple_escape x = Some c" for x
    by (rule scan_string_escape [OF scan_escape_simple [OF that]])
  consider "n = 34" | "n = 92" | "n = 8" | "n = 12" | "n = 10" | "n = 13" | "n = 9"
    | "n < 32" "n \<notin> {8, 9, 10, 12, 13}" | "32 \<le> n" "n \<noteq> 34" "n \<noteq> 92"
    by fastforce
  then show ?thesis
  proof cases
    case 1
    then have "c = CHR 0x22" by (intro char_code) (simp add: n_def)
    with esc [of "CHR 0x22"] 1 show ?thesis by (simp add: quote_char_def n_def simple_escape_def)
  next
    case 2
    then have "c = CHR 0x5C" by (intro char_code) (simp add: n_def)
    with esc [of "CHR 0x5C"] 2 show ?thesis by (simp add: quote_char_def n_def simple_escape_def)
  next
    case 3
    then have "c = CHR 0x08" by (intro char_code) (simp add: n_def)
    with esc [of "CHR ''b''"] 3 show ?thesis by (simp add: quote_char_def n_def simple_escape_def)
  next
    case 4
    then have "c = CHR 0x0C" by (intro char_code) (simp add: n_def)
    with esc [of "CHR ''f''"] 4 show ?thesis by (simp add: quote_char_def n_def simple_escape_def)
  next
    case 5
    then have "c = CHR 0x0A" by (intro char_code) (simp add: n_def)
    with esc [of "CHR ''n''"] 5 show ?thesis by (simp add: quote_char_def n_def simple_escape_def)
  next
    case 6
    then have "c = CHR 0x0D" by (intro char_code) (simp add: n_def)
    with esc [of "CHR ''r''"] 6 show ?thesis by (simp add: quote_char_def n_def simple_escape_def)
  next
    case 7
    then have "c = CHR 0x09" by (intro char_code) (simp add: n_def)
    with esc [of "CHR ''t''"] 7 show ?thesis by (simp add: quote_char_def n_def simple_escape_def)
  next
    case 8
    from scan_string_escape [OF scan_escape_control [OF n_def [symmetric] 8(1)], of t] 8
    show ?thesis by (simp add: quote_char_def flip: n_def)
  next
    case 9
    then have "c \<noteq> CHR 0x22" "c \<noteq> CHR 0x5C" by (auto simp: n_def)
    with 9 show ?thesis
      by (simp add: quote_char_def scan_string_plain flip: n_def)
  qed
qed

lemma scan_quoted:
  "scan_string (concat (map quote_char s) @ CHR 0x22 # r) = Some (s, r)"
proof (induction s)
  case Nil
  show ?case by (subst scan_string.simps) simp
next
  case (Cons c s)
  then show ?case by (simp add: scan_quote_char)
qed

section \<open>Numbers read back\<close>

lemma scan_json_pos:
  assumes "is_double q" and "0 < q" and "stops r"
  shows "scan_json_num (num_text (Fin q) @ r) = Some (JNum (Fin q), r)"
    and "scan_json_num (CHR ''-'' # num_text (Fin q) @ r) = Some (JNum (Fin (- q)), r)"
proof -
  obtain v where v: "scan_udec (num_text (Fin q) @ r) = Some (v, r)" "dbl v = Fin q"
    using num_text_scan [OF assms] by blast
  obtain a u where t: "num_text (Fin q) = show_uint a @ u" and a: "0 \<le> a"
    and u: "u = [] \<or> \<not> is_digit (hd u)"
    and dot: "u \<noteq> [] \<and> hd u = CHR ''.'' \<longrightarrow> takeWhile is_digit (tl u) \<noteq> []"
    using num_text_shape [OF assms(1,2)] by (auto simp: num_shape_def)
  have ur: "u @ r = [] \<or> \<not> is_digit (hd (u @ r))"
    using u assms(3) by (cases u) (auto simp: stops_def)
  note ip = takeWhile_digits [OF show_uint_digits [OF a] ur]
  have ok: "\<not> (u @ r \<noteq> [] \<and> hd (u @ r) = CHR ''.'' \<and> takeWhile is_digit (tl (u @ r)) = [])"
  proof (cases u)
    case Nil
    then show ?thesis using assms(3) by (auto simp: stops_def)
  next
    case (Cons x xs)
    then show ?thesis using dot by (cases xs) auto
  qed
  have lead: "\<not> (hd (show_uint a) = CHR ''0'' \<and> length (show_uint a) \<noteq> 1)"
    using show_uint_json [OF a] by auto
  have minus: "hd (show_uint a @ u @ r) \<noteq> CHR ''-''"
  proof -
    have "is_digit (hd (show_uint a))"
      using show_uint_digits [OF a] by (simp add: list.set_sel(1))
    then show ?thesis by (auto simp: is_digit_def)
  qed
  have neg: "dbl (- v) = Fin (- q)" by (simp add: dbl_minus v(2))
  show "scan_json_num (num_text (Fin q) @ r) = Some (JNum (Fin q), r)"
    using minus ok lead v by (auto simp: scan_json_num_def t ip Let_def)
  show "scan_json_num (CHR ''-'' # num_text (Fin q) @ r) = Some (JNum (Fin (- q)), r)"
    using ok lead v neg by (auto simp: scan_json_num_def t ip Let_def)
qed

lemma num_text_neg: "q < 0 \<Longrightarrow> num_text (Fin q) = CHR ''-'' # num_text (Fin (- q))"
  by (simp add: num_text_def Let_def)

lemma scan_json_zero: "stops r \<Longrightarrow> scan_json_num (CHR ''0'' # r) = Some (JNum (Fin 0), r)"
proof -
  assume r: "stops r"
  have "scan_udec (fixed_text 0 0 @ r) = Some (0, r)"
    using scan_fixed_text [of 0 r 0] stops_ends_int [OF r] scan_exp_stops [OF r] by simp
  moreover have "fixed_text 0 0 = ''0''"
    by (simp add: fixed_text_def show_uint.simps digit_char_0)
  moreover have "takeWhile is_digit r = []" "dropWhile is_digit r = r"
    using r by (cases r; simp add: stops_def)+
  ultimately show ?thesis
    using r by (auto simp: scan_json_num_def is_digit_def stops_def dbl_def)
qed

lemma scan_json_number:
  assumes "is_double q" and "stops r"
  shows "scan_json_num (num_text (Fin q) @ r) = Some (JNum (Fin q), r)"
proof (cases q "0 :: rat" rule: linorder_cases)
  case less
  have "is_double (- q)" using assms(1) by (simp add: is_double_def dbl_minus)
  from scan_json_pos(2) [OF this _ assms(2)] less show ?thesis by (simp add: num_text_neg)
next
  case equal
  then show ?thesis using scan_json_zero [OF assms(2)] by (simp add: num_text_def)
next
  case greater
  then show ?thesis by (rule scan_json_pos(1) [OF assms(1) _ assms(2)])
qed

definition num_head :: "char \<Rightarrow> bool" where
  "num_head c \<longleftrightarrow> is_digit c \<or> c = CHR ''-''"

lemma num_text_head:
  assumes "is_double q"
  shows "\<exists>c t. num_text (Fin q) = c # t \<and> num_head c"
proof -
  have pos: "\<exists>c t. num_text (Fin p) = c # t \<and> num_head c" if "is_double p" "0 < p" for p
  proof -
    note shape = num_text_shape [OF that]
    obtain a u where t: "num_text (Fin p) = show_uint a @ u" "0 \<le> a"
      using shape by (auto simp: num_shape_def)
    then have "is_digit (hd (show_uint a))"
      using show_uint_digits [OF t(2)] by (simp add: list.set_sel(1))
    with t show ?thesis by (cases "show_uint a") (auto simp: num_head_def)
  qed
  consider "q < 0" | "q = 0" | "0 < q" by linarith
  then show ?thesis
  proof cases
    case 1
    then show ?thesis by (simp add: num_text_neg num_head_def)
  next
    case 2
    then show ?thesis by (simp add: num_text_def num_head_def is_digit_def)
  next
    case 3
    then show ?thesis using pos assms by blast
  qed
qed

section \<open>Values read back\<close>

text \<open>The values \<open>JSON.stringify\<close> keeps as they are: no \<open>undefined\<close>, finite doubles, distinct keys.\<close>

fun json_wf :: "jsval \<Rightarrow> bool" where
  "json_wf JUndef = False"
| "json_wf JNull = True"
| "json_wf (JBool _) = True"
| "json_wf (JNum x) = (case x of Fin q \<Rightarrow> is_double q | _ \<Rightarrow> False)"
| "json_wf (JStr _) = True"
| "json_wf (JArr vs) = list_all json_wf vs"
| "json_wf (JObj ps) = (distinct (map fst ps) \<and> list_all json_wf (map snd ps))"

lemma json_wf_JInt [simp]: "\<bar>n\<bar> < 2 ^ 53 \<Longrightarrow> json_wf (JInt n)"
  by (simp add: is_double_def)

definition value_head :: "char \<Rightarrow> bool" where
  "value_head c \<longleftrightarrow> \<not> json_ws c \<and> c \<noteq> CHR '']'' \<and> c \<noteq> CHR ''}''"

lemma json_str_head:
  assumes "json_wf v"
  shows "\<exists>c t. json_str v = c # t \<and> value_head c"
proof (cases v)
  case (JNum x)
  with assms obtain q where x: "x = Fin q" "is_double q" by (auto split: jsnum.splits)
  from num_text_head [OF x(2)] obtain c t where "num_text (Fin q) = c # t" "num_head c" by blast
  then show ?thesis
    using JNum x by (auto simp: num_json_def value_head_def json_ws_def num_head_def is_digit_def)
qed (use assms in \<open>auto simp: quote_text_def value_head_def json_ws_def\<close>)

lemma json_skip_head: "value_head c \<Longrightarrow> json_skip (c # t) = c # t"
  by (simp add: json_skip_def value_head_def)

lemma json_skip_value: "json_wf v \<Longrightarrow> json_skip (json_str v @ r) = json_str v @ r"
  using json_str_head [of v] by (auto simp: json_skip_head)

lemma json_str_len: "json_wf v \<Longrightarrow> 0 < length (json_str v)"
  using json_str_head [of v] by auto

abbreviation member_text :: "string \<times> jsval \<Rightarrow> string" where
  "member_text p \<equiv> quote_text (fst p) @ '':'' @ json_str (snd p)"

lemma json_str_obj:
  assumes "list_all json_wf (map snd ps)"
  shows "json_str (JObj ps) = ''{'' @ join_with '','' (map member_text ps) @ ''}''"
proof -
  have "filter (\<lambda>(k, v). v \<noteq> JUndef) ps = ps"
    using assms by (induction ps) auto
  then show ?thesis by (simp add: case_prod_beta')
qed

lemma stops_sep [simp]: "stops (CHR '','' # r)" "stops (CHR '']'' # r)" "stops (CHR ''}'' # r)"
  by (simp_all add: stops_def is_digit_def)

lemma json_skip_punct [simp]:
  "json_skip (CHR '','' # r) = CHR '','' # r" "json_skip (CHR '']'' # r) = CHR '']'' # r"
  "json_skip (CHR ''}'' # r) = CHR ''}'' # r" "json_skip (CHR '':'' # r) = CHR '':'' # r"
  "json_skip (CHR 0x22 # r) = CHR 0x22 # r" "json_skip (CHR ''['' # r) = CHR ''['' # r"
  "json_skip (CHR ''{'' # r) = CHR ''{'' # r"
  by (simp_all add: json_skip_def json_ws_def)

definition reads_back :: "jsval \<Rightarrow> bool" where
  "reads_back v \<longleftrightarrow> (\<forall>n r. length (json_str v) < n \<longrightarrow> stops r \<longrightarrow>
     scan_value n (json_str v @ r) = Some (v, r))"

lemma scan_elems_print:
  assumes "vs \<noteq> []" and "\<forall>v \<in> set vs. json_wf v \<and> reads_back v"
    and "length (join_with '','' (map json_str vs)) + 1 < n"
  shows "scan_elems n (join_with '','' (map json_str vs) @ CHR '']'' # r) = Some (vs, r)"
  using assms
proof (induction vs arbitrary: n)
  case (Cons v vs)
  then obtain m where n: "n = Suc m" by (cases n) auto
  show ?case
  proof (cases vs)
    case Nil
    with Cons.prems n have "scan_value m (json_str v @ CHR '']'' # r) = Some (v, CHR '']'' # r)"
      by (simp add: reads_back_def)
    with Nil n show ?thesis by simp
  next
    case (Cons w ws)
    have wf: "json_wf v" "reads_back v" using Cons.prems(2) by auto
    let ?rest = "join_with '','' (map json_str vs)"
    have j: "join_with '','' (map json_str (v # vs)) = json_str v @ CHR '','' # ?rest"
      using Cons by simp
    have len: "length (json_str v) < m" "length ?rest + 1 < m"
      using Cons.prems(3) json_str_len [OF wf(1)] n unfolding j by auto
    have "scan_value m (json_str v @ CHR '','' # ?rest @ CHR '']'' # r)
          = Some (v, CHR '','' # ?rest @ CHR '']'' # r)"
      using wf(2) len(1) by (simp add: reads_back_def)
    moreover have "scan_elems m (?rest @ CHR '']'' # r) = Some (vs, r)"
      using Cons.IH [OF _ _ len(2)] Cons Cons.prems(2) by simp
    ultimately show ?thesis using n unfolding j by simp
  qed
qed simp

lemma scan_members_print:
  assumes "ps \<noteq> []" and "\<forall>p \<in> set ps. json_wf (snd p) \<and> reads_back (snd p)"
    and "length (join_with '','' (map member_text ps)) + 1 < n"
  shows "scan_members n (join_with '','' (map member_text ps) @ CHR ''}'' # r) = Some (ps, r)"
  using assms
proof (induction ps arbitrary: n)
  case (Cons p ps)
  then obtain m where n: "n = Suc m" by (cases n) auto
  obtain k v where p: "p = (k, v)" by (cases p)
  have wf: "json_wf v" "reads_back v" using Cons.prems(2) p by auto
  have key: "scan_string (concat (map quote_char k) @ CHR 0x22 # CHR '':'' # t) = Some (k, CHR '':'' # t)" for t
    by (rule scan_quoted)
  show ?case
  proof (cases ps)
    case Nil
    with Cons.prems n p have "scan_value m (json_str v @ CHR ''}'' # r) = Some (v, CHR ''}'' # r)"
      using wf(2) by (simp add: reads_back_def)
    with Nil n p key show ?thesis by (simp add: quote_text_def)
  next
    case (Cons w ws)
    let ?rest = "join_with '','' (map member_text ps)"
    have j: "join_with '','' (map member_text (p # ps)) = member_text p @ CHR '','' # ?rest"
      using Cons by simp
    have len: "length (json_str v) < m" "length ?rest + 1 < m"
      using Cons.prems(3) json_str_len [OF wf(1)] n p unfolding j by auto
    have "scan_value m (json_str v @ CHR '','' # ?rest @ CHR ''}'' # r)
          = Some (v, CHR '','' # ?rest @ CHR ''}'' # r)"
      using wf(2) len(1) by (simp add: reads_back_def)
    moreover have "scan_members m (?rest @ CHR ''}'' # r) = Some (ps, r)"
      using Cons.IH [OF _ _ len(2)] Cons Cons.prems(2) by simp
    ultimately show ?thesis using n p key unfolding j by (simp add: quote_text_def)
  qed
qed simp

lemma obj_set_new: "k \<notin> fst ` set ps \<Longrightarrow> obj_set k v ps = ps @ [(k, v)]"
  by (induction ps) auto

lemma fold_obj_set:
  "distinct (map fst (qs @ ps)) \<Longrightarrow> foldl (\<lambda>o' (k, v). obj_set k v o') qs ps = qs @ ps"
proof (induction ps arbitrary: qs)
  case (Cons p ps)
  obtain k v where p: "p = (k, v)" by (cases p)
  have "obj_set k v qs = qs @ [p]" using Cons.prems p by (auto simp: obj_set_new)
  with Cons.IH [of "qs @ [p]"] Cons.prems p show ?case by simp
qed simp

lemma scan_value_print: "json_wf v \<Longrightarrow> reads_back v"
proof (induction v)
  case (JNum x)
  then obtain q where x: "x = Fin q" "is_double q" by (auto split: jsnum.splits)
  obtain c t where ct: "num_text (Fin q) = c # t" "num_head c" using num_text_head [OF x(2)] by blast
  have ne: "c \<noteq> CHR 0x22" "c \<noteq> CHR ''[''" "c \<noteq> CHR ''{''" "c \<noteq> CHR ''t''" "c \<noteq> CHR ''f''"
    "c \<noteq> CHR ''n''" "\<not> json_ws c"
    using ct(2) by (auto simp: num_head_def is_digit_def json_ws_def)
  show ?case
    unfolding reads_back_def
  proof (intro allI impI)
    fix n r assume n: "length (json_str (JNum x)) < n" and r: "stops r"
    obtain m where m: "n = Suc m" using n by (cases n) auto
    have "scan_json_num (c # t @ r) = Some (JNum (Fin q), r)"
      using scan_json_number [OF x(2) r] ct by simp
    then show "scan_value n (json_str (JNum x) @ r) = Some (JNum x, r)"
      using ct ne by (simp add: m x num_json_def json_skip_def)
  qed
next
  case (JStr s)
  show ?case
    unfolding reads_back_def
  proof (intro allI impI)
    fix n r assume "length (json_str (JStr s)) < n"
    then obtain m where "n = Suc m" by (cases n) auto
    then show "scan_value n (json_str (JStr s) @ r) = Some (JStr s, r)"
      by (simp add: quote_text_def scan_quoted)
  qed
next
  case (JArr vs)
  then have wf: "\<forall>v \<in> set vs. json_wf v \<and> reads_back v" by (auto simp: list_all_iff)
  show ?case
    unfolding reads_back_def
  proof (intro allI impI)
    fix n r assume n: "length (json_str (JArr vs)) < n"
    then obtain m where m: "n = Suc m" by (cases n) auto
    let ?t = "join_with '','' (map json_str vs) @ CHR '']'' # r"
    show "scan_value n (json_str (JArr vs) @ r) = Some (JArr vs, r)"
    proof (cases vs)
      case Nil
      then show ?thesis by (simp add: m)
    next
      case (Cons w ws)
      obtain c t where ct: "json_str w = c # t" "value_head c"
        using json_str_head [of w] wf Cons by auto
      have "scan_elems m ?t = Some (vs, r)"
        by (rule scan_elems_print) (use Cons wf n m in auto)
      moreover obtain u where "?t = c # u" using Cons ct by (cases ws) auto
      ultimately show ?thesis
        using ct(2) by (simp add: m json_skip_head) (simp add: value_head_def)
    qed
  qed
next
  case (JObj ps)
  then have d: "distinct (map fst ps)" and l: "list_all json_wf (map snd ps)" by simp_all
  have wf: "\<forall>p \<in> set ps. json_wf (snd p) \<and> reads_back (snd p)"
    using JObj.IH l by (fastforce simp: list_all_iff)
  show ?case
    unfolding reads_back_def
  proof (intro allI impI)
    fix n r assume n: "length (json_str (JObj ps)) < n"
    then obtain m where m: "n = Suc m" by (cases n) auto
    let ?t = "join_with '','' (map member_text ps) @ CHR ''}'' # r"
    show "scan_value n (json_str (JObj ps) @ r) = Some (JObj ps, r)"
    proof (cases ps)
      case Nil
      then show ?thesis by (simp add: m)
    next
      case (Cons w ws)
      have "scan_members m ?t = Some (ps, r)"
        by (rule scan_members_print) (use Cons wf n m json_str_obj [OF l] in auto)
      moreover obtain u where "?t = CHR 0x22 # u" using Cons by (cases ws) (auto simp: quote_text_def)
      moreover have "foldl (\<lambda>o' (k, v). obj_set k v o') [] ps = ps" using fold_obj_set [of "[]"] d by simp
      ultimately show ?thesis using json_str_obj [OF l] by (simp add: m)
    qed
  qed
qed (auto simp: reads_back_def scan_word_def json_skip_def json_ws_def dest!: less_imp_Suc_add)

text \<open>
  The round trip: what \<open>JSON.stringify\<close> prints for a well-formed value, \<open>JSON.parse\<close> reads back
  unchanged.
\<close>

lemma json_parse_str [codec_simps]:
  assumes "json_wf v"
  shows "json_parse (json_str v) = Some v"
proof -
  have "scan_value (Suc (length (json_str v))) (json_str v @ []) = Some (v, [])"
    by (rule scan_value_print [OF assms, unfolded reads_back_def, rule_format])
       (simp_all add: stops_def)
  then show ?thesis by (simp add: json_parse_def json_skip_def del: scan_value.simps)
qed

end
