(* ===== verification/Web_Store.thy ===== *)
theory Web_Store
  imports Web_Crypto Js_Json
begin

text \<open>
  The client's state and what changes it: \<open>dashboard/web/helpers/consts.js\<close> and the store
  modules \<open>store/common.js\<close>, \<open>store/node.js\<close>, \<open>store/wallet.js\<close>. A mutation is a function on
  its module's record (\<open>None\<close> when it throws). An action runs to its single \<open>await\<close> and hands
  back the request it waits for with the rest of its body, so that whatever other tasks do to
  the state in between is visible to the rest; \<open>run_action\<close> is the run with nothing in between.
  The session storage entry, the default \<open>Authorization\<close> header that \<open>setHeader\<close> leaves behind
  and the files handed to the browser for download are part of the state.
\<close>

section \<open>consts.js\<close>

definition SERVICE_STATUS_DEFAULT :: int where
  "SERVICE_STATUS_DEFAULT = 0"

definition SERVICE_STATUS_NO_BENEFICIARY :: int where
  "SERVICE_STATUS_NO_BENEFICIARY = push_bit 0 1"

definition SERVICE_STATUS_NO_WALLET_FILE :: int where
  "SERVICE_STATUS_NO_WALLET_FILE = push_bit 1 1"

definition SERVICE_STATUS_NO_PASSWORD :: int where
  "SERVICE_STATUS_NO_PASSWORD = push_bit 2 1"

definition SERVICE_STATUS_CREATE_ID :: int where
  "SERVICE_STATUS_CREATE_ID = push_bit 3 1"

definition SERVICE_STATUS_RUNNING :: int where
  "SERVICE_STATUS_RUNNING = push_bit 4 1"

lemmas service_status_defs =
  SERVICE_STATUS_DEFAULT_def SERVICE_STATUS_NO_BENEFICIARY_def SERVICE_STATUS_NO_WALLET_FILE_def
  SERVICE_STATUS_NO_PASSWORD_def SERVICE_STATUS_CREATE_ID_def SERVICE_STATUS_RUNNING_def

text \<open>The test \<open>(status & FLAG) > 0\<close> that the plugins and pages repeat.\<close>

definition has_flag :: "jsval \<Rightarrow> int \<Rightarrow> bool" where
  "has_flag status flag \<longleftrightarrow> 0 < js_band status (JInt flag)"

section \<open>State\<close>

record common_state =
  token :: jsval
  unix :: jsval
  beneficiaryAddr :: jsval
  serviceStatus :: jsval
  allowEmptyBeneficiaryAddress :: jsval
  webGuiCreateWallet :: jsval

record node_state =
  nodeStatus :: jsval
  neighbors :: "jsval list"

record wallet_state =
  currentWalletStatus :: jsval

record client =
  common :: common_state
  node :: node_state
  wallet :: wallet_state
  seed :: "string option"
  authorization :: "string option"
  downloads :: "(string \<times> string \<times> jsval) list"

text \<open>The initial state; \<open>now_ms\<close> is \<open>Date.now()\<close>, which counts milliseconds.\<close>

definition common_init :: "int \<Rightarrow> common_state" where
  "common_init now_ms = \<lparr>
     token = JUndef, unix = JInt now_ms, beneficiaryAddr = JStr [],
     serviceStatus = JInt SERVICE_STATUS_DEFAULT,
     allowEmptyBeneficiaryAddress = JBool False, webGuiCreateWallet = JBool False\<rparr>"

definition node_init :: node_state where
  "node_init = \<lparr>nodeStatus = JObj [(''syncState'', JStr ''DEFAULT'')], neighbors = []\<rparr>"

definition wallet_init :: wallet_state where
  "wallet_init = \<lparr>currentWalletStatus = JObj []\<rparr>"

definition client_init :: "int \<Rightarrow> client" where
  "client_init now_ms = \<lparr>
     common = common_init now_ms, node = node_init, wallet = wallet_init,
     seed = None, authorization = None, downloads = []\<rparr>"

section \<open>Mutations and getters\<close>

definition beneficiaryAddrRequired :: "common_state \<Rightarrow> jsval" where
  "beneficiaryAddrRequired st =
     (if truthy (allowEmptyBeneficiaryAddress st) then JBool False else webGuiCreateWallet st)"

definition syncServiceStatus :: "common_state \<Rightarrow> jsval \<Rightarrow> common_state option" where
  "syncServiceStatus st data =
     (case (js_get data ''status'', js_get data ''allowEmptyBeneficiaryAddress'',
            js_get data ''webGuiCreateWallet'', js_get data ''beneficiaryAddr'') of
        (Some a, Some b, Some c, Some d) \<Rightarrow>
          Some (st\<lparr>serviceStatus := a, allowEmptyBeneficiaryAddress := b,
                   webGuiCreateWallet := c, beneficiaryAddr := d\<rparr>)
      | _ \<Rightarrow> None)"

definition syncToken :: "common_state \<Rightarrow> jsval \<Rightarrow> common_state option" where
  "syncToken st data =
     (case (js_get data ''token'', js_get data ''unix'') of
        (Some a, Some b) \<Rightarrow> Some (st\<lparr>token := a, unix := b\<rparr>)
      | _ \<Rightarrow> None)"

definition syncUnix :: "common_state \<Rightarrow> jsval \<Rightarrow> common_state" where
  "syncUnix st v = st\<lparr>unix := v\<rparr>"

definition tick :: "common_state \<Rightarrow> common_state" where
  "tick st = st\<lparr>unix := JNum (num_add (to_number (unix st)) (Fin 1))\<rparr>"

definition setNodeStatus :: "node_state \<Rightarrow> jsval \<Rightarrow> node_state" where
  "setNodeStatus st nd = (if truthy nd then st\<lparr>nodeStatus := nd\<rparr> else st)"

definition setBeneficiaryAddr_mutation :: "node_state \<Rightarrow> jsval \<Rightarrow> node_state option" where
  "setBeneficiaryAddr_mutation st addr =
     map_option (\<lambda>v. st\<lparr>nodeStatus := v\<rparr>) (js_set (nodeStatus st) ''beneficiaryAddr'' addr)"

definition setNeighbors :: "node_state \<Rightarrow> jsval \<Rightarrow> node_state" where
  "setNeighbors st v = (case v of JArr xs \<Rightarrow> st\<lparr>neighbors := xs\<rparr> | _ \<Rightarrow> st\<lparr>neighbors := []\<rparr>)"

definition setCurrentWalletStatus :: "wallet_state \<Rightarrow> jsval \<Rightarrow> wallet_state" where
  "setCurrentWalletStatus st w = (if truthy w then st\<lparr>currentWalletStatus := w\<rparr> else st)"

text \<open>
  \<open>inBoundCount\<close> calls \<open>countBy\<close> of lodash: the counts of the keys that a function gives the
  items of a list, or \<open>None\<close> when the function throws on one of them.
\<close>

type_synonym count_by = "(jsval \<Rightarrow> string option) \<Rightarrow> jsval list \<Rightarrow> (string \<times> nat) list option"

definition inbound_key :: "jsval \<Rightarrow> string option" where
  "inbound_key item = map_option (\<lambda>v. if truthy v then ''false'' else ''true'') (js_get item ''isOutbound'')"

definition inBoundCount :: "count_by \<Rightarrow> node_state \<Rightarrow> jsval option" where
  "inBoundCount countBy st =
     (if length (neighbors st) = 0 then Some JUndef
      else map_option (\<lambda>res. case map_of res ''true'' of
              None \<Rightarrow> JInt 0 | Some n \<Rightarrow> js_or (JInt (int n)) (JInt 0))
            (countBy inbound_key (neighbors st)))"

section \<open>Requests and outcomes\<close>

datatype http_method = GET | POST | PUT | HEAD

record request =
  req_method :: http_method
  req_url :: string
  req_body :: jsval

text \<open>
  What a request comes back with, after the response interceptor: a response, an error
  response with its status, or an error that has no response (network, undecryptable data).
\<close>

datatype outcome = Resp jsval jsval | Fail nat | NoResp

text \<open>Errors that reach a caller: \<open>Coded s\<close> has \<open>e.code = s\<close>; \<open>Uncoded\<close> and \<open>TypeErr\<close> have no code.\<close>

datatype js_error = Coded nat | Uncoded | TypeErr

datatype result = Resolved jsval | Rejected js_error

type_synonym rest = "outcome \<Rightarrow> client \<Rightarrow> client \<times> result"

datatype phase = Await request rest | Settled result

type_synonym action = "client \<Rightarrow> client \<times> phase"

definition run_action :: "action \<Rightarrow> (request \<Rightarrow> outcome) \<Rightarrow> client \<Rightarrow> client \<times> result" where
  "run_action a net st =
     (case a st of
        (st', Await rq k) \<Rightarrow> k (net rq) st'
      | (st', Settled r) \<Rightarrow> (st', r))"

abbreviation get_req :: "string \<Rightarrow> request" where
  "get_req url \<equiv> \<lparr>req_method = GET, req_url = url, req_body = JUndef\<rparr>"

text \<open>
  \<open>catch (e) { if (P(e.response.status)) { e.code = e.response.status; throw e } ... }\<close>: an error
  without a response makes the handler itself throw a \<open>TypeError\<close>.
\<close>

fun catch_status :: "(nat \<Rightarrow> bool) \<Rightarrow> outcome \<Rightarrow> result" where
  "catch_status P (Fail s) = (if P s then Rejected (Coded s) else Resolved JUndef)"
| "catch_status P _ = Rejected TypeErr"

text \<open>The value of the \<open>Authorization\<close> header for a password, from the synchronised token and clock.\<close>

definition auth_value :: "cryptojs \<Rightarrow> common_state \<Rightarrow> string \<Rightarrow> string option" where
  "auth_value cj st password =
     Option.bind (hmacSHA256 cj (JStr (authHash cj password)) (js_plus (token st) (unix st)))
       (passwordHash cj password)"

text \<open>Setting the header can throw inside the \<open>try\<close>; the handler then reads \<open>e.response.status\<close>.\<close>

definition with_auth :: "cryptojs \<Rightarrow> string \<Rightarrow> request \<Rightarrow> rest \<Rightarrow> action" where
  "with_auth cj password rq k st =
     (case auth_value cj (common st) password of
        None \<Rightarrow> (st, Settled (Rejected TypeErr))
      | Some h \<Rightarrow> (st\<lparr>authorization := Some h\<rparr>, Await rq k))"

section \<open>Actions of common.js\<close>

definition getServiceStatus :: action where
  "getServiceStatus st = (st, Await (get_req ''/api/sync/status'') (\<lambda>out st.
     case out of
       Resp data _ \<Rightarrow>
         (case syncServiceStatus (common st) data of
            Some c \<Rightarrow> (st\<lparr>common := c\<rparr>, Resolved JUndef)
          | None \<Rightarrow> (st, Rejected TypeErr))
     | e \<Rightarrow> (st, catch_status (\<lambda>s. s \<noteq> 200) e)))"

definition getToken :: action where
  "getToken st = (st, Await (get_req ''/api/sync/token'') (\<lambda>out st.
     case out of
       Resp data _ \<Rightarrow>
         (case syncToken (common st) data of
            Some c \<Rightarrow> (st\<lparr>common := c\<rparr>, Resolved JUndef)
          | None \<Rightarrow> (st, Rejected TypeErr))
     | e \<Rightarrow> (st, catch_status (\<lambda>s. s \<noteq> 200) e)))"

definition getUnix :: action where
  "getUnix st = (st, Await (get_req ''/api/sync/unix'') (\<lambda>out st.
     case out of
       Resp data _ \<Rightarrow>
         (case js_get data ''unix'' of
            Some v \<Rightarrow>
              (st\<lparr>common := syncUnix (common st) (JNum (js_parseInt (js_text v)))\<rparr>, Resolved JUndef)
          | None \<Rightarrow> (st, Rejected TypeErr))
     | e \<Rightarrow> (st, catch_status (\<lambda>s. s = 400) e)))"

definition verification :: "cryptojs \<Rightarrow> string \<Rightarrow> action" where
  "verification cj payload =
     with_auth cj payload \<lparr>req_method = HEAD, req_url = ''/api/verification'', req_body = JUndef\<rparr>
       (\<lambda>out st. case out of
          Resp data _ \<Rightarrow> (st, Resolved data)
        | e \<Rightarrow> (st, catch_status (\<lambda>s. s = 401 \<or> s = 403) e))"

section \<open>Actions of node.js\<close>

definition getNodeStatus :: action where
  "getNodeStatus st = (st, Await (get_req ''/api/node/status'') (\<lambda>out st.
     case out of
       Resp data _ \<Rightarrow> (st\<lparr>node := setNodeStatus (node st) data\<rparr>, Resolved JUndef)
     | _ \<Rightarrow> (st, Resolved JUndef)))"

definition setBeneficiaryAddr :: "cryptojs \<Rightarrow> string \<Rightarrow> jsval \<Rightarrow> action" where
  "setBeneficiaryAddr cj password addr =
     with_auth cj password
       \<lparr>req_method = PUT, req_url = ''/api/node/beneficiary'',
        req_body = JObj [(''beneficiaryAddr'', addr)]\<rparr>
       (\<lambda>out st. case out of
          Resp data _ \<Rightarrow> (st, Resolved data)
        | e \<Rightarrow> (st, catch_status (\<lambda>s. s = 400) e))"

definition setNodeConfig :: "cryptojs \<Rightarrow> string \<Rightarrow> jsval \<Rightarrow> action" where
  "setNodeConfig cj password config =
     with_auth cj password
       \<lparr>req_method = PUT, req_url = ''/api/node/config'', req_body = config\<rparr>
       (\<lambda>out st. case out of
          Resp data _ \<Rightarrow> (st, Resolved data)
        | e \<Rightarrow> (st, catch_status (\<lambda>s. s = 400) e))"

definition getNeighbors :: action where
  "getNeighbors st = (st, Await (get_req ''/api/node/neighbors'') (\<lambda>out st.
     case out of
       Resp data _ \<Rightarrow> (st\<lparr>node := setNeighbors (node st) data\<rparr>, Resolved data)
     | _ \<Rightarrow> (st, Rejected Uncoded)))"

section \<open>Actions of wallet.js\<close>

definition getCurrentWalletStatus :: action where
  "getCurrentWalletStatus st = (st, Await (get_req ''/api/current-wallet/status'') (\<lambda>out st.
     case out of
       Resp data _ \<Rightarrow> (st\<lparr>wallet := setCurrentWalletStatus (wallet st) data\<rparr>, Resolved JUndef)
     | _ \<Rightarrow> (st, Resolved JUndef)))"

definition getCurrentWalletDetails :: "cryptojs \<Rightarrow> string \<Rightarrow> action" where
  "getCurrentWalletDetails cj payload =
     with_auth cj payload (get_req ''/api/current-wallet/details'')
       (\<lambda>out st. case out of
          Resp data _ \<Rightarrow> (st, Resolved data)
        | e \<Rightarrow> (st, catch_status (\<lambda>s. s = 401 \<or> s = 403) e))"

text \<open>
  What \<open>createWallet\<close> and \<open>openWallet\<close> do with a good answer: keep the seed of the password for
  the session and commit \<open>{status: SERVICE_STATUS_RUNNING}\<close> to the root store.
\<close>

definition wallet_opened :: "cryptojs \<Rightarrow> string \<Rightarrow> jsval \<Rightarrow> client \<Rightarrow> client \<times> result" where
  "wallet_opened cj password data st =
     (let st = st\<lparr>seed := Some (seedHash cj password)\<rparr> in
      case syncServiceStatus (common st) (JObj [(''status'', JInt SERVICE_STATUS_RUNNING)]) of
        Some c \<Rightarrow> (st\<lparr>common := c\<rparr>, Resolved data)
      | None \<Rightarrow> (st, Rejected TypeErr))"

definition createWallet :: "cryptojs \<Rightarrow> string \<Rightarrow> jsval \<Rightarrow> action" where
  "createWallet cj password addr st =
     (st, Await \<lparr>req_method = POST, req_url = ''/api/wallet/create'',
                 req_body = JObj [(''password'', JStr password), (''beneficiaryAddr'', addr)]\<rparr>
       (\<lambda>out st. case out of
          Resp data _ \<Rightarrow> wallet_opened cj password data st
        | e \<Rightarrow> (st, catch_status (\<lambda>s. s = 400) e)))"

definition openWallet :: "cryptojs \<Rightarrow> string \<Rightarrow> action" where
  "openWallet cj payload st =
     (st, Await \<lparr>req_method = POST, req_url = ''/api/wallet/open'',
                 req_body = JObj [(''password'', JStr payload)]\<rparr>
       (\<lambda>out st. case out of
          Resp data _ \<Rightarrow> wallet_opened cj payload data st
        | e \<Rightarrow> (st, catch_status (\<lambda>s. s = 401 \<or> s = 403) e)))"

text \<open>
  \<open>downloadWallet\<close> hands the browser a file: its name, its text and its type. Every error is
  thrown on as it is.
\<close>

definition downloadWallet :: "cryptojs \<Rightarrow> string \<Rightarrow> action" where
  "downloadWallet cj payload st =
     (case auth_value cj (common st) payload of
        None \<Rightarrow> (st, Settled (Rejected TypeErr))
      | Some h \<Rightarrow>
          (st\<lparr>authorization := Some h\<rparr>, Await (get_req ''/api/wallet/download'') (\<lambda>out st.
             case out of
               Resp data ctype \<Rightarrow>
                 (st\<lparr>downloads := downloads st @
                      [(''wallet.json'', (case js_stringify data of Some t \<Rightarrow> t | None \<Rightarrow> ''undefined''), ctype)]\<rparr>,
                  Resolved JUndef)
             | _ \<Rightarrow> (st, Rejected Uncoded))))"

end
