(* ===== verification/Web_Axios.thy ===== *)
theory Web_Axios
  imports Web_Store
begin

text \<open>
  \<open>dashboard/web/plugins/axios.js\<close>: what every request and response passes through. The request
  interceptor seals the body for the second the store's clock shows; the response interceptor
  looks for the second the server sealed its answer for. The loop of the latter is a partial
  function, since it runs on JavaScript numbers and ends only where they can be counted up;
  \<open>slot_loop_upto\<close> shows that it ends, and what it finds, between two integers below \<open>2 ^ 53\<close>.
\<close>

section \<open>Requests\<close>

record wire_request =
  w_method :: http_method
  w_url :: string
  w_unix :: jsnum
  w_authorization :: "string option"
  w_body :: jsval

definition seed_item :: "client \<Rightarrow> jsval" where
  "seed_item st = (case seed st of None \<Rightarrow> JNull | Some s \<Rightarrow> JStr s)"

definition slot_secret :: "cryptojs \<Rightarrow> client \<Rightarrow> jsval \<Rightarrow> string option" where
  "slot_secret cj st i = hmacSHA256 cj (seed_item st) (js_plus (token (common st)) i)"

fun js_floor :: "jsnum \<Rightarrow> jsnum" where
  "js_floor (Fin q) = Fin (of_int \<lfloor>q\<rfloor>)"
| "js_floor x = x"

text \<open>The dashboard never sends a \<open>FormData\<close>; \<open>now_ms\<close> is \<open>Date.now()\<close>.\<close>

definition onRequest :: "cryptojs \<Rightarrow> int \<Rightarrow> client \<Rightarrow> request \<Rightarrow> wire_request option" where
  "onRequest cj now_ms st config =
     (let w = \<lparr>w_method = req_method config, w_url = req_url config,
               w_unix = js_floor (dbl (of_int now_ms / 1000)),
               w_authorization = authorization st, w_body = JUndef\<rparr> in
      case js_stringify (req_body config) of
        None \<Rightarrow> Some w
      | Some text \<Rightarrow>
          (case slot_secret cj st (unix (common st)) of
             None \<Rightarrow> None
           | Some secret \<Rightarrow>
               map_option (\<lambda>c. w\<lparr>w_body := JObj [(''data'', JStr c)]\<rparr>) (aesEncrypt cj text secret)))"

section \<open>Responses\<close>

datatype slot_result = Opened jsval | Exhausted | Threw

definition open_slot :: "cryptojs \<Rightarrow> jsval \<Rightarrow> string \<Rightarrow> jsval option" where
  "open_slot cj c secret = Option.bind (aesDecrypt cj c secret) json_parse"

partial_function (option) slot_loop ::
    "cryptojs \<Rightarrow> client \<Rightarrow> jsval \<Rightarrow> jsval \<Rightarrow> jsnum \<Rightarrow> slot_result option" where
  "slot_loop cj st c bound i =
     (if num_lt i (to_number bound) then
        (case slot_secret cj st (JNum i) of
           None \<Rightarrow> Some Threw
         | Some secret \<Rightarrow>
             (case open_slot cj c secret of
                Some v \<Rightarrow> Some (Opened v)
              | None \<Rightarrow> slot_loop cj st c bound (num_add i (Fin 1))))
      else Some Exhausted)"

text \<open>\<open>None\<close>: the loop does not end. \<open>Some None\<close>: the interceptor throws.\<close>

definition onResponse :: "cryptojs \<Rightarrow> client \<Rightarrow> jsval \<Rightarrow> jsval option option" where
  "onResponse cj st data =
     (case js_get data ''data'' of
        None \<Rightarrow> Some None
      | Some JUndef \<Rightarrow> Some (Some data)
      | Some c \<Rightarrow>
          (let padding = Fin 20; tick = unix (common st) in
           map_option (\<lambda>r. case r of Opened v \<Rightarrow> Some v | _ \<Rightarrow> None)
             (slot_loop cj st c (js_plus tick (JNum padding)) (num_sub (to_number tick) padding))))"

section \<open>The loop on a clock\<close>

lemma slot_loop_done: "\<not> num_lt i (to_number b) \<Longrightarrow> slot_loop cj st c b i = Some Exhausted"
  by (subst slot_loop.simps) simp

lemma slot_loop_step:
  assumes "i < b" and "\<bar>i + 1\<bar> < 2 ^ 53" and "slot_secret cj st (JInt i) = Some k"
  shows "slot_loop cj st c (JInt b) (Fin (of_int i)) =
    (case open_slot cj c k of
       Some v \<Rightarrow> Some (Opened v) | None \<Rightarrow> slot_loop cj st c (JInt b) (Fin (of_int (i + 1))))"
  using assms num_add_int [of i 1] by (subst slot_loop.simps) (simp split: option.split)

definition open_at :: "cryptojs \<Rightarrow> client \<Rightarrow> jsval \<Rightarrow> int \<Rightarrow> jsval option" where
  "open_at cj st c i = Option.bind (slot_secret cj st (JInt i)) (open_slot cj c)"

lemma slot_loop_upto:
  assumes "\<And>j. i \<le> j \<Longrightarrow> j < b \<Longrightarrow> slot_secret cj st (JInt j) \<noteq> None"
    and "- (2 ^ 53) < i" and "b < 2 ^ 53"
  shows "slot_loop cj st c (JInt b) (Fin (of_int i)) =
    Some (case first_hit (open_at cj st c) [i..b - 1] of Some v \<Rightarrow> Opened v | None \<Rightarrow> Exhausted)"
  using assms
proof (induction "nat (b - i)" arbitrary: i)
  case 0
  then show ?case by (simp add: slot_loop_done)
next
  case (Suc n)
  then have lt: "i < b" by simp
  obtain k where k: "slot_secret cj st (JInt i) = Some k" using Suc.prems(1) [of i] lt by auto
  have IH: "slot_loop cj st c (JInt b) (Fin (of_int (i + 1))) =
    Some (case first_hit (open_at cj st c) [i + 1..b - 1] of Some v \<Rightarrow> Opened v | None \<Rightarrow> Exhausted)"
    using Suc lt by (intro Suc.hyps(1)) auto
  have "[i..b - 1] = i # [i + 1..b - 1]" using lt by (simp add: upto_rec1)
  then show ?case
    using slot_loop_step [OF lt _ k, of c] IH Suc.prems(2,3) lt k
    by (simp add: open_at_def split: option.splits)
qed

end
