(* ===== verification/Go_Dashboard.thy ===== *)
theory Go_Dashboard
  imports Web_Crypto Js_Json
begin

text \<open>
  The server's side of the dashboard protocol, in Go: \<open>dashboard/helpers/crypto.go\<close>,
  \<open>dashboard/auth/auth.go\<close>, \<open>dashboard/auth/unixRange.go\<close>, the constants of
  \<open>dashboard/config/config.go\<close>, the token middleware of \<open>dashboard/service.go\<close> and
  \<open>PasswordHash\<close> of \<open>crypto/helper.go\<close>. The digests, the cipher and the encodings are Go's
  standard library, that is, the published standards of \<open>Std_Crypto\<close>. The clock is an argument.
\<close>

section \<open>config.go, crypto/helper.go\<close>

definition UnixRange :: int where
  "UnixRange = 20"

definition TokenExpSec :: int where
  "TokenExpSec = 60"

definition PasswordHash :: "bytes \<Rightarrow> bytes" where
  "PasswordHash password =
     (let passwordhash = sha256 password;
          passwordhash2 = sha256 passwordhash;
          passwordhash3 = sha256 passwordhash2
      in passwordhash3)"

section \<open>Library calls\<close>

definition FormatInt :: "int \<Rightarrow> string" where
  "FormatInt i = (if i < 0 then CHR ''-'' # show_uint (- i) else show_uint i)"

text \<open>\<open>strconv.ParseInt(s, 10, 64)\<close>: the value it returns, and whether there is an error beside it.\<close>

definition ParseInt :: "string \<Rightarrow> int \<times> bool" where
  "ParseInt s =
     (let (neg, ds) = split_sign s in
      if ds = [] \<or> \<not> list_all is_digit ds then (0, True)
      else let n = digits_val ds in
        if neg then (if 2 ^ 63 < n then (- (2 ^ 63), True) else (- n, False))
        else (if 2 ^ 63 \<le> n then (2 ^ 63 - 1, True) else (n, False)))"

text \<open>
  \<open>json.Unmarshal\<close> into a \<open>map[string]interface{}\<close> takes the text of an object or of \<open>null\<close>; a number
  that does not fit a \<open>float64\<close> is an error.
\<close>

fun finite_numbers :: "jsval \<Rightarrow> bool" where
  "finite_numbers (JNum x) = (case x of Fin _ \<Rightarrow> True | _ \<Rightarrow> False)"
| "finite_numbers (JArr vs) = list_all finite_numbers vs"
| "finite_numbers (JObj ps) = list_all (\<lambda>p. finite_numbers (snd p)) ps"
| "finite_numbers _ = True"

definition unmarshals_to_map :: "string \<Rightarrow> bool" where
  "unmarshals_to_map s =
     (case json_parse s of
        Some (JObj ps) \<Rightarrow> finite_numbers (JObj ps)
      | Some JNull \<Rightarrow> True
      | _ \<Rightarrow> False)"

section \<open>helpers/crypto.go\<close>

definition HmacSha256 :: "bytes \<Rightarrow> bytes \<Rightarrow> bytes" where
  "HmacSha256 data secret = hmac_sha256 secret data"

definition BuildPwd :: "string \<Rightarrow> bytes" where
  "BuildPwd pwd = (let key = bytes_of pwd in hmac_sha256 key key)"

text \<open>\<open>aes.NewCipher\<close> fails on a key of an odd size; \<open>BuildPwd\<close> gives 32 bytes, the size modelled.\<close>

definition AesEncrypt :: "string \<Rightarrow> string \<Rightarrow> string option" where
  "AesEncrypt plaintext pwd =
     (let key = BuildPwd pwd; iv = take 16 key in
      if length key \<noteq> 32 then None
      else Some (hex_encode (aes_cfb_encrypt key iv (bytes_of plaintext))))"

definition AesDecrypt :: "string \<Rightarrow> string \<Rightarrow> string option" where
  "AesDecrypt encrypted pwd =
     (let key = BuildPwd pwd in
      case hex_decode encrypted of
        None \<Rightarrow> None
      | Some src \<Rightarrow>
          (let iv = take 16 key in
           if length key \<noteq> 32 then None
           else Some (string_of (aes_cfb_decrypt key iv src))))"

text \<open>What a handler reads of its context: the clock, the wallet's \<open>PasswordHash\<close>, the session's token.\<close>

record gin_context =
  ctx_now :: int
  ctx_wallet :: "bytes option"
  ctx_token :: "string option"

definition context_seed :: "gin_context \<Rightarrow> bool \<Rightarrow> string" where
  "context_seed ctx hasSeed =
     (case ctx_wallet ctx of
        Some h \<Rightarrow> if hasSeed then hex_encode (sha256 (bytes_of (hex_encode h))) else []
      | None \<Rightarrow> [])"

definition slot_seedHash :: "string \<Rightarrow> string \<Rightarrow> int \<Rightarrow> string" where
  "slot_seedHash seed tok i = hex_encode (HmacSha256 (bytes_of seed) (bytes_of (tok @ FormatInt i)))"

text \<open>One turn of the loop of \<open>DecryptData\<close>: \<open>None\<close> is \<open>continue\<close>.\<close>

definition decrypt_slot :: "string \<Rightarrow> string \<Rightarrow> string \<Rightarrow> int \<Rightarrow> string option" where
  "decrypt_slot seed tok body i =
     (case AesDecrypt body (slot_seedHash seed tok i) of
        None \<Rightarrow> None
      | Some jsonData \<Rightarrow> (if unmarshals_to_map jsonData then Some jsonData else None))"

text \<open>\<open>Inl\<close> is the status the request is aborted with; \<open>body\<close> is \<open>None\<close> when it does not bind.\<close>

definition DecryptData :: "gin_context \<Rightarrow> bool \<Rightarrow> string option \<Rightarrow> nat + string" where
  "DecryptData ctx hasSeed body =
     (case body of
        None \<Rightarrow> Inl 400
      | Some data \<Rightarrow>
          (case ctx_token ctx of
             None \<Rightarrow> Inl 403
           | Some tok \<Rightarrow>
               (case first_hit (decrypt_slot (context_seed ctx hasSeed) tok data)
                       (window (ctx_now ctx) UnixRange) of
                  Some jsonData \<Rightarrow> Inr jsonData
                | None \<Rightarrow> Inl 400)))"

text \<open>\<open>buf\<close> is what \<open>json.Marshal\<close> gives; a session without a token makes the type assertion panic.\<close>

definition EncryptData :: "gin_context \<Rightarrow> bool \<Rightarrow> string option \<Rightarrow> string option" where
  "EncryptData ctx hasSeed buf =
     (case buf of
        None \<Rightarrow> Some []
      | Some text \<Rightarrow>
          (case ctx_token ctx of
             None \<Rightarrow> None
           | Some tok \<Rightarrow>
               (case AesEncrypt text (slot_seedHash (context_seed ctx hasSeed) tok (ctx_now ctx)) of
                  None \<Rightarrow> Some []
                | Some data \<Rightarrow> Some data)))"

section \<open>auth/auth.go\<close>

fun verify_slots :: "bytes \<Rightarrow> string \<Rightarrow> string \<Rightarrow> int list \<Rightarrow> bool" where
  "verify_slots passwordKey hash tok [] = False"
| "verify_slots passwordKey hash tok (i # is) =
     (case AesEncrypt hash (slot_seedHash hash tok i) of
        None \<Rightarrow> False
      | Some hexHash \<Rightarrow>
          (case hex_decode hexHash of
             None \<Rightarrow> False
           | Some hexByte \<Rightarrow>
               (if hexByte = passwordKey then True else verify_slots passwordKey hash tok is)))"

definition verifyPasswordKey :: "int \<Rightarrow> bytes \<Rightarrow> bytes \<Rightarrow> string \<Rightarrow> bool" where
  "verifyPasswordKey tick passwordKey pwdHash tok =
     (let pwdData = bytes_of (hex_encode pwdHash);
          hash = hex_encode (sha224 pwdData)
      in verify_slots passwordKey hash tok (window tick UnixRange))"

text \<open>\<open>Some s\<close>: aborted with status \<open>s\<close>; \<open>None\<close>: \<open>context.Next()\<close>.\<close>

definition WalletAuth :: "gin_context \<Rightarrow> string \<Rightarrow> nat option" where
  "WalletAuth ctx auth =
     (if auth = [] then Some 401
      else case ctx_wallet ctx of
        None \<Rightarrow> Some 500
      | Some pwdHash \<Rightarrow>
          (case hex_decode auth of
             None \<Rightarrow> Some 403
           | Some passwordKey \<Rightarrow>
               (case ctx_token ctx of
                  None \<Rightarrow> Some 403
                | Some tok \<Rightarrow>
                    (if verifyPasswordKey (ctx_now ctx) passwordKey pwdHash tok then None
                     else Some 403))))"

section \<open>auth/unixRange.go\<close>

definition verifyUnix :: "64 word \<Rightarrow> 64 word \<Rightarrow> bool" where
  "verifyUnix a b \<longleftrightarrow> \<bar>sint (a - b)\<bar> < UnixRange"

text \<open>The statuses the filter aborts with, in order: an unreadable header does not end it.\<close>

definition UnixRangeAuth :: "int \<Rightarrow> string \<Rightarrow> nat list" where
  "UnixRangeAuth now hdr =
     (if hdr = [] then [400]
      else let (tick, err) = ParseInt hdr
           in (if err then [500] else []) @
              (if verifyUnix (of_int now) (of_int tick) then [] else [400]))"

section \<open>service.go: the token\<close>

record service =
  svc_Token :: string
  svc_TokenExp :: int

text \<open>\<open>fresh\<close> is \<open>uuid.NewUUID().String()\<close>; \<open>sess\<close> is the token in the cookie session of the request.\<close>

definition token_middleware ::
    "int \<Rightarrow> string \<Rightarrow> service \<Rightarrow> string option \<Rightarrow> service \<times> string option" where
  "token_middleware now fresh svc sess =
     (let (svc, sess) =
        (if svc_TokenExp svc = 0 \<or> svc_TokenExp svc + TokenExpSec < now
         then (\<lparr>svc_Token = fresh, svc_TokenExp = now + TokenExpSec\<rparr>, Some fresh)
         else (svc, sess))
      in (svc, case sess of None \<Rightarrow> Some (svc_Token svc) | Some t \<Rightarrow> Some t))"

section \<open>Agreement with the standards and the client\<close>

lemma BuildPwd_eq: "BuildPwd pwd = box_key pwd"
  by (simp add: BuildPwd_def box_key_def Let_def)

lemma AesEncrypt_eq: "AesEncrypt p pwd = Some (hex_encode (box_bytes pwd p))"
  by (simp add: AesEncrypt_def BuildPwd_eq box_bytes_def Let_def)

lemma AesDecrypt_eq: "AesDecrypt (hex_encode (box_bytes pwd p)) pwd = Some p"
  by (simp add: AesDecrypt_def BuildPwd_eq box_bytes_def Let_def)

lemma FormatInt_nonneg [simp]: "0 \<le> i \<Longrightarrow> FormatInt i = show_uint i"
  by (simp add: FormatInt_def)

lemma slot_seedHash_eq:
  "0 \<le> i \<Longrightarrow> slot_seedHash sd tok i =
     hex_encode (hmac_sha256 (bytes_of (tok @ show_uint i)) (bytes_of sd))"
  by (simp add: slot_seedHash_def HmacSha256_def)

lemma verify_slots_iff:
  "verify_slots key hash tok is \<longleftrightarrow> (\<exists>i \<in> set is. box_bytes (slot_seedHash hash tok i) hash = key)"
  by (induction "is") (simp_all add: AesEncrypt_eq)

lemma list_all_digits_show: "0 \<le> n \<Longrightarrow> list_all is_digit (show_uint n)"
  using show_uint_digits [of n] by (simp add: list_all_iff)

lemma split_sign_show: "0 \<le> n \<Longrightarrow> split_sign (show_uint n) = (False, show_uint n)"
  using show_uint_digits [of n] by (cases "show_uint n") (auto simp: split_sign_def is_digit_def)

lemma ParseInt_show: "0 \<le> n \<Longrightarrow> n < 2 ^ 63 \<Longrightarrow> ParseInt (show_uint n) = (n, False)"
  by (simp add: ParseInt_def split_sign_show list_all_digits_show)

lemma sint_of_int64: "- (2 ^ 63) \<le> n \<Longrightarrow> n < 2 ^ 63 \<Longrightarrow> sint (of_int n :: 64 word) = n"
  by (simp add: signed_of_int signed_take_bit_int_eq_self)

lemma verifyUnix_iff:
  assumes "0 \<le> now" and "now < 2 ^ 62" and "- (2 ^ 62) \<le> tck" and "tck < 2 ^ 63"
  shows "verifyUnix (of_int now) (of_int tck) \<longleftrightarrow> \<bar>now - tck\<bar> < 20"
proof -
  have "sint (of_int (now - tck) :: 64 word) = now - tck"
    by (rule sint_of_int64) (use assms in auto)
  then show ?thesis by (simp add: verifyUnix_def UnixRange_def)
qed

end
