(* ===== verification/Protocol.thy ===== *)
theory Protocol
  imports Web_Axios Go_Dashboard
begin

text \<open>
  What the two ends of the dashboard agree on: the secret of a time slot, the seed of a
  password, and the two directions of sealed messages as instances of \<open>sealed_box\<close>. The lemmas
  here carry the end-to-end properties of the root theory.
\<close>

section \<open>The same secret on both sides\<close>

definition seed_text :: "client \<Rightarrow> string" where
  "seed_text st = (case seed st of None \<Rightarrow> [] | Some s \<Rightarrow> s)"

text \<open>The client has a token, and its clock shows second \<open>n\<close>.\<close>

definition synced :: "client \<Rightarrow> string \<Rightarrow> int \<Rightarrow> bool" where
  "synced st tok n \<longleftrightarrow> token (common st) = JStr tok \<and> unix (common st) = JInt n"

lemma synced_simps [simp]:
  assumes "synced st tok n"
  shows "token (common st) = JStr tok" and "unix (common st) = JInt n"
  using assms by (simp_all add: synced_def)

context cryptojs_std
begin

lemma hmac_seed:
  assumes "k \<noteq> []"
  shows "hmacSHA256 cj (seed_item st) (JStr k) =
    Some (hex_encode (hmac_sha256 (bytes_of k) (bytes_of (seed_text st))))"
  using assms
  by (cases "seed st") (simp_all add: seed_item_def seed_text_def hmac_text hmac_null bytes_of_def)

lemma slot_secret_eq:
  assumes "token (common st) = JStr tok" and "0 \<le> i" and "i < 10 ^ 15"
  shows "slot_secret cj st (JInt i) = Some (slot_seedHash (seed_text st) tok i)"
  using assms by (simp add: slot_secret_def hmac_seed slot_seedHash_eq)

lemma seedHash_context:
  assumes "ctx_wallet ctx = Some (PasswordHash (bytes_of pw))"
  shows "context_seed ctx True = seedHash cj pw"
  using assms by (simp add: context_seed_def PasswordHash_def seedHash_eq Let_def)

lemma authHash_server:
  "hex_encode (sha224 (bytes_of (hex_encode (PasswordHash (bytes_of pw))))) = authHash cj pw"
  by (simp add: PasswordHash_def authHash_eq Let_def)

lemma auth_value_eq:
  assumes "token c = JStr tok" and "unix c = JInt n" and "0 \<le> n" and "n < 10 ^ 15"
  shows "auth_value cj c pw =
    Some (hex_encode (box_bytes (slot_seedHash (authHash cj pw) tok n) (authHash cj pw)))"
  using assms by (simp add: auth_value_def hmac_text slot_seedHash_eq passwordHash_eq)

lemma open_at_eq:
  assumes "token (common st) = JStr tok" and "0 \<le> i" and "i < 10 ^ 15"
  shows "open_at cj st c i = open_slot cj c (slot_seedHash (seed_text st) tok i)"
  using assms by (simp add: open_at_def slot_secret_eq)

lemma onResponse_window:
  assumes "synced st tok now" and "20 \<le> now" and "now < 10 ^ 14"
    and "js_get data ''data'' = Some (JStr c)"
  shows "onResponse cj st data = Some (first_hit (open_at cj st (JStr c)) (window now 20))"
proof -
  let ?b = "now + 20" and ?i = "now - 20"
  have bound: "js_plus (JInt now) (JNum (Fin 20)) = JInt ?b"
    using num_add_int [of now 20] assms(2,3) by (simp add: js_plus_def stringy_def)
  have start: "num_sub (Fin (of_int now)) (Fin 20) = Fin (of_int ?i)"
    using num_add_int [of now "- 20"] assms(2,3) by (simp add: num_sub_def)
  have "slot_loop cj st (JStr c) (JInt ?b) (Fin (of_int ?i)) =
    Some (case first_hit (open_at cj st (JStr c)) [?i..?b - 1] of
            Some v \<Rightarrow> Opened v | None \<Rightarrow> Exhausted)"
    using assms(1-3) by (intro slot_loop_upto) (auto simp: slot_secret_eq)
  then show ?thesis
    using assms(1,4) bound start
    by (simp add: onResponse_def window_def Let_def split: option.splits)
qed

end

section \<open>Requests and responses are sealed boxes\<close>

definition seal_text :: "string \<Rightarrow> string \<Rightarrow> int \<Rightarrow> string \<Rightarrow> string" where
  "seal_text sd tok s m = hex_encode (box_bytes (slot_seedHash sd tok s) m)"

interpretation request_box: sealed_box
  "seal_text sd tok" "\<lambda>i c. decrypt_slot sd tok c i" "\<lambda>m. m" "\<lambda>s m. unmarshals_to_map m" for sd tok
  by unfold_locales (simp add: seal_text_def decrypt_slot_def AesDecrypt_eq)

sublocale cryptojs_std \<subseteq> response_box: sealed_box
  "seal_text sd tok" "\<lambda>i c. open_slot cj (JStr c) (slot_seedHash sd tok i)"
  "\<lambda>m. the (json_parse m)"
  "\<lambda>s m. utf8_ok (bytes_of m) \<and> \<not> salted (box_bytes (slot_seedHash sd tok s) m) \<and> json_parse m \<noteq> None"
  for sd tok
  by unfold_locales (auto simp: seal_text_def open_slot_def aes_roundtrip)

lemma json_wf_finite: "json_wf v \<Longrightarrow> finite_numbers v"
  by (induction v) (auto simp: list_all_iff split: jsnum.splits)

lemma EncryptData_seal:
  "ctx_token ctx = Some tok \<Longrightarrow>
   EncryptData ctx b (Some text) = Some (seal_text (context_seed ctx b) tok (ctx_now ctx) text)"
  by (simp add: EncryptData_def AesEncrypt_eq seal_text_def)

context cryptojs_std
begin

lemma onRequest_seal:
  assumes "synced st tok n" and "0 \<le> n" and "n < 10 ^ 15" and "req_body rq \<noteq> JUndef"
  shows "\<exists>w. onRequest cj now_ms st rq = Some w \<and> w_url w = req_url rq \<and> w_method w = req_method rq \<and>
    w_authorization w = authorization st \<and>
    w_body w = JObj [(''data'', JStr (seal_text (seed_text st) tok n (json_str (req_body rq))))]"
  using assms
  by (simp add: onRequest_def js_stringify_def slot_secret_eq aesEncrypt_eq seal_text_def Let_def)

lemmas response_total = response_box.scan_total
lemmas response_finds = response_box.scan_finds

lemma scan_cong_open:
  assumes "synced st tok now" and "20 \<le> now" and "now < 10 ^ 14"
  shows "first_hit (open_at cj st (JStr c)) (window now 20) =
    first_hit (\<lambda>i. open_slot cj (JStr c) (slot_seedHash (seed_text st) tok i)) (window now 20)"
  using assms by (intro first_hit_cong) (simp add: open_at_eq)

end

section \<open>The clock header\<close>

lemma onRequest_unix:
  "onRequest cj now_ms st rq = Some w \<Longrightarrow> w_unix w = js_floor (dbl (of_int now_ms / 1000))"
  by (auto simp: onRequest_def Let_def split: option.splits)

lemma clock_range: "0 \<le> ms \<Longrightarrow> ms < 10 ^ 15 \<Longrightarrow> 0 \<le> ms div 1000 \<and> ms div (1000 :: int) < 10 ^ 15"
  using zdiv_mono2 [of ms 1 1000] by simp

lemma clock_seconds:
  assumes "0 \<le> ms" and "ms < 10 ^ 15"
  shows "js_floor (dbl (of_int ms / 1000)) = Fin (of_int (ms div 1000))"
proof (cases "ms = 0")
  case True
  then show ?thesis by (simp add: dbl_def)
next
  case False
  let ?q = "of_int ms / 1000 :: rat"
  have fl: "\<lfloor>?q\<rfloor> = ms div 1000" using floor_divide_of_int_eq [of ms 1000, where ?'a = rat] by simp
  have "ms \<le> ms div 1000 * 1000 + 999" by presburger
  then have "(of_int ms :: rat) \<le> of_int (ms div 1000 * 1000 + 999)" by (simp only: of_int_le_iff)
  then have "?q \<le> of_int \<lfloor>?q\<rfloor> + 999 / 1000" by (simp add: fl field_simps)
  moreover have "(of_int ms :: rat) < of_int (10 ^ 15)" using assms(2) by (simp only: of_int_less_iff)
  then have "?q < 2 ^ 43" by simp
  ultimately obtain r where "dbl ?q = Fin r" and "\<lfloor>r\<rfloor> = ms div 1000"
    using dbl_floor [of ?q] assms(1) False fl by auto
  then show ?thesis by simp
qed

section \<open>Sample ends of one session\<close>

definition sample_client :: "string option \<Rightarrow> int \<Rightarrow> client" where
  "sample_client sd n = (client_init 0)\<lparr>
     common := (common_init 0)\<lparr>token := JStr ''t'', unix := JInt n\<rparr>, seed := sd\<rparr>"

definition sample_context :: "string \<Rightarrow> int \<Rightarrow> gin_context" where
  "sample_context pw now =
     \<lparr>ctx_now = now, ctx_wallet = Some (PasswordHash (bytes_of pw)), ctx_token = Some ''t''\<rparr>"

lemma sample_synced [simp]: "synced (sample_client sd n) ''t'' n"
  by (simp add: synced_def sample_client_def client_init_def)

lemma sample_context_simps [simp]:
  "ctx_now (sample_context pw now) = now"
  "ctx_wallet (sample_context pw now) = Some (PasswordHash (bytes_of pw))"
  "ctx_token (sample_context pw now) = Some ''t''"
  by (simp_all add: sample_context_def)

lemma sample_seed:
  "seed_text (sample_client (Some (seedHash std_cryptojs pw)) n) = context_seed (sample_context pw now) True"
  using std_cj.seedHash_context [of "sample_context pw now" pw]
  by (simp add: seed_text_def sample_client_def sample_context_def)

section \<open>A password and a request on their way\<close>

lemma auth_value_shape:
  assumes "cryptojs_std cj" and "synced st tok n" and "0 \<le> n" and "n < 10 ^ 15"
  shows "\<exists>h. auth_value cj (common st) pw = Some h \<and> h \<noteq> []"
proof -
  let ?h = "box_bytes (slot_seedHash (authHash cj pw) tok n) (authHash cj pw)"
  have "length ?h = 56" using cryptojs_std.authHash_eq [OF assms(1), of pw] by (simp add: length_hex_encode)
  then have "hex_encode ?h \<noteq> []" using length_hex_encode [of ?h] by (intro notI) simp
  then show ?thesis using cryptojs_std.auth_value_eq [OF assms(1)] assms(2-4) by simp
qed

lemma auth_accepted:
  assumes "cryptojs_std cj" and "synced st tok n" and "0 \<le> n" and "n < 10 ^ 15"
    and "ctx_wallet ctx = Some (PasswordHash (bytes_of pw))" and "ctx_token ctx = Some tok"
    and "ctx_now ctx - 20 \<le> n" and "n < ctx_now ctx + 20"
  shows "\<exists>h. auth_value cj (common st) pw = Some h \<and> WalletAuth ctx h = None"
proof -
  let ?a = "authHash cj pw"
  let ?h = "box_bytes (slot_seedHash ?a tok n) ?a"
  have v: "auth_value cj (common st) pw = Some (hex_encode ?h)"
    using cryptojs_std.auth_value_eq [OF assms(1)] assms(2-4) by simp
  have "length ?h = 56" using cryptojs_std.authHash_eq [OF assms(1), of pw] by (simp add: length_hex_encode)
  then have "hex_encode ?h \<noteq> []" using length_hex_encode [of ?h] by (intro notI) simp
  moreover have "verifyPasswordKey (ctx_now ctx) ?h (PasswordHash (bytes_of pw)) tok"
    using assms(7,8)
    by (auto simp: verifyPasswordKey_def verify_slots_iff UnixRange_def Let_def
        cryptojs_std.authHash_server [OF assms(1)] intro!: bexI [of _ n])
  ultimately show ?thesis using v assms(5,6) by (simp add: WalletAuth_def)
qed

lemma sealed_request:
  assumes "cryptojs_std cj" and "synced st tok n" and "0 \<le> n" and "n < 10 ^ 15"
    and "ctx_token ctx = Some tok" and "context_seed ctx hasSeed = seed_text st"
    and "ctx_now ctx - 20 \<le> n" and "n < ctx_now ctx + 20"
    and "req_body rq = JObj ps" and "json_wf (JObj ps)"
  shows "\<exists>w c. onRequest cj now_ms st rq = Some w \<and> w_body w = JObj [(''data'', JStr c)] \<and>
    (\<exists>m. DecryptData ctx hasSeed (Some c) = Inr m) \<and>
    ((\<forall>i. ctx_now ctx - 20 \<le> i \<and> i < n \<longrightarrow> decrypt_slot (seed_text st) tok c i = None) \<longrightarrow>
       DecryptData ctx hasSeed (Some c) = Inr (json_str (JObj ps)))"
proof -
  let ?m = "json_str (JObj ps)" and ?sd = "seed_text st"
  let ?c = "seal_text ?sd tok n ?m"
  obtain w where w: "onRequest cj now_ms st rq = Some w" "w_body w = JObj [(''data'', JStr ?c)]"
    using cryptojs_std.onRequest_seal [OF assms(1-4), of rq now_ms] assms(9) by auto
  have fits: "unmarshals_to_map ?m"
    using json_parse_str [OF assms(10)] json_wf_finite [OF assms(10)] by (simp add: unmarshals_to_map_def)
  have "\<exists>m. DecryptData ctx hasSeed (Some ?c) = Inr m"
    using request_box.scan_total [OF fits assms(7,8), of ?sd tok] assms(5,6)
    by (auto simp: DecryptData_def UnixRange_def split: option.splits)
  moreover have "DecryptData ctx hasSeed (Some ?c) = Inr ?m"
    if "\<forall>i. ctx_now ctx - 20 \<le> i \<and> i < n \<longrightarrow> decrypt_slot ?sd tok ?c i = None"
    using request_box.scan_finds [OF fits assms(7,8), of ?sd tok] that assms(5,6)
    by (simp add: DecryptData_def UnixRange_def)
  ultimately show ?thesis using w by blast
qed

lemma sealed_response:
  assumes "cryptojs_std cj" and "synced st tok n" and "20 \<le> n" and "n < 10 ^ 14"
    and "ctx_token ctx = Some tok" and "context_seed ctx hasSeed = seed_text st"
    and "n - 20 \<le> ctx_now ctx" and "ctx_now ctx < n + 20"
    and "json_parse buf = Some v" and "utf8_ok (bytes_of buf)"
    and "\<not> salted (box_bytes (slot_seedHash (seed_text st) tok (ctx_now ctx)) buf)"
  shows "\<exists>c. EncryptData ctx hasSeed (Some buf) = Some c \<and>
    (\<exists>v'. onResponse cj st (JObj [(''data'', JStr c)]) = Some (Some v')) \<and>
    ((\<forall>i. n - 20 \<le> i \<and> i < ctx_now ctx \<longrightarrow> open_at cj st (JStr c) i = None) \<longrightarrow>
       onResponse cj st (JObj [(''data'', JStr c)]) = Some (Some v))"
proof -
  let ?sd = "seed_text st" and ?s = "ctx_now ctx"
  let ?c = "seal_text ?sd tok ?s buf"
  let ?open = "\<lambda>i. open_slot cj (JStr ?c) (slot_seedHash ?sd tok i)"
  have fits: "utf8_ok (bytes_of buf) \<and> \<not> salted (box_bytes (slot_seedHash ?sd tok ?s) buf) \<and>
      json_parse buf \<noteq> None"
    using assms(9-11) by simp
  have scan: "onResponse cj st (JObj [(''data'', JStr ?c)]) = Some (first_hit ?open (window n 20))"
    using cryptojs_std.onResponse_window [OF assms(1-4)] cryptojs_std.scan_cong_open [OF assms(1-4)] by simp
  have "first_hit ?open (window n 20) \<noteq> None"
    by (rule cryptojs_std.response_total [OF assms(1) fits assms(7,8)])
  moreover have "first_hit ?open (window n 20) = Some v"
    if none: "\<forall>i. n - 20 \<le> i \<and> i < ?s \<longrightarrow> open_at cj st (JStr ?c) i = None"
  proof -
    have early: "?open i = None" if "n - 20 \<le> i" "i < ?s" for i
      using none that cryptojs_std.open_at_eq [OF assms(1), of st tok i "JStr ?c"] assms(2-4,8) by simp
    from cryptojs_std.response_finds [OF assms(1) fits assms(7,8) early] assms(9) show ?thesis
      by simp
  qed
  ultimately show ?thesis using scan EncryptData_seal [OF assms(5), of hasSeed buf] assms(6) by auto
qed

section \<open>Statuses\<close>

text \<open>How the HTTP client hands a status of the server to the store's action.\<close>

definition http_outcome :: "nat \<Rightarrow> jsval \<Rightarrow> outcome" where
  "http_outcome code body = (if 200 \<le> code \<and> code < 300 then Resp body JUndef else Fail code)"

end
