(* ===== verification/Web_Dialogs.thy ===== *)
theory Web_Dialogs
  imports Protocol
begin

text \<open>
  The dialogs of \<open>dashboard/web/components/dialog\<close>: \<open>VerificationPassword.vue\<close>, \<open>SecretSeed.vue\<close>,
  \<open>BeneficiaryAddr.vue\<close> and \<open>Result.vue\<close>. A handler that waits for a store action is two functions:
  which action it calls, if any, and what it does to the dialog when the action settles; the
  dialog may have changed in between. \<open>$emit\<close> and the \<open>onSuccess\<close> callback are logged as events.
  The form's \<open>validate()\<close> belongs to the component library: it is the parameter \<open>validate\<close>, applied
  to the results of the form's rules. Messages are named by their keys. A password field that
  the library's \<open>reset()\<close> has set to \<open>null\<close> is the empty text here: the rules and the hash
  functions treat the two alike.
\<close>

datatype ui_event = EmitInput bool | OnSuccess jsval

type_synonym form_validate = "bool list \<Rightarrow> bool"

text \<open>What the component library documents of \<open>validate()\<close>: every rule holds.\<close>

locale form_std =
  fixes validate :: form_validate
  assumes validate_iff: "validate rs \<longleftrightarrow> list_all (\<lambda>b. b) rs"

definition all_rules :: form_validate where
  "all_rules rs = list_all (\<lambda>b. b) rs"

interpretation all_rules_form: form_std all_rules
  by unfold_locales (simp add: all_rules_def)

lemmas all_rules_ok = all_rules_form.form_std_axioms

definition password_rule :: "string \<Rightarrow> bool" where
  "password_rule v \<longleftrightarrow> v \<noteq> []"

section \<open>VerificationPassword.vue\<close>

record verification_dialog =
  vp_step :: int
  vp_visible :: bool
  vp_password :: string
  vp_showPassword :: bool
  vp_passwordError :: bool
  vp_passwordErrorMessage :: string
  vp_events :: "ui_event list"

definition vp_init :: "bool \<Rightarrow> verification_dialog" where
  "vp_init value = \<lparr>vp_step = 1, vp_visible = value, vp_password = [], vp_showPassword = False,
     vp_passwordError = False, vp_passwordErrorMessage = [], vp_events = []\<rparr>"

definition vp_watch_value :: "bool \<Rightarrow> verification_dialog \<Rightarrow> verification_dialog" where
  "vp_watch_value val d =
     (let d = d\<lparr>vp_visible := val\<rparr> in
      if vp_visible d = False
      then d\<lparr>vp_step := 1, vp_password := [], vp_passwordError := False, vp_passwordErrorMessage := []\<rparr>
      else d)"

definition vp_watch_password :: "string \<Rightarrow> verification_dialog \<Rightarrow> verification_dialog" where
  "vp_watch_password val d =
     d\<lparr>vp_password := val, vp_passwordError := False, vp_passwordErrorMessage := []\<rparr>"

definition vp_toggle :: "verification_dialog \<Rightarrow> verification_dialog" where
  "vp_toggle d = d\<lparr>vp_showPassword := \<not> vp_showPassword d\<rparr>"

definition vp_cancel :: "verification_dialog \<Rightarrow> verification_dialog" where
  "vp_cancel d = d\<lparr>vp_visible := False, vp_events := vp_events d @ [EmitInput False]\<rparr>"

definition vp_next :: "cryptojs \<Rightarrow> form_validate \<Rightarrow> verification_dialog \<Rightarrow> action option" where
  "vp_next cj validate d =
     (if vp_step d = 1 then
        if validate [password_rule (vp_password d)] then Some (verification cj (vp_password d)) else None
      else None)"

definition vp_next_done :: "result \<Rightarrow> verification_dialog \<Rightarrow> verification_dialog" where
  "vp_next_done r d =
     (case r of
        Resolved _ \<Rightarrow>
          vp_cancel (d\<lparr>vp_passwordError := False, vp_passwordErrorMessage := [],
                       vp_events := vp_events d @ [OnSuccess (JStr (vp_password d))]\<rparr>)
      | Rejected (Coded c) \<Rightarrow>
          (if c = 401 \<or> c = 403
           then d\<lparr>vp_passwordError := True, vp_passwordErrorMessage := ''PASSWORD_ERROR''\<rparr> else d)
      | Rejected _ \<Rightarrow> d)"

text \<open>A click on the button with nothing in between.\<close>

definition vp_click :: "cryptojs \<Rightarrow> form_validate \<Rightarrow> (request \<Rightarrow> outcome) \<Rightarrow>
    verification_dialog \<times> client \<Rightarrow> verification_dialog \<times> client" where
  "vp_click cj validate net = (\<lambda>(d, st).
     case vp_next cj validate d of
       None \<Rightarrow> (d, st)
     | Some a \<Rightarrow> (let (st', r) = run_action a net st in (vp_next_done r d, st')))"

section \<open>SecretSeed.vue\<close>

record seed_dialog =
  sd_step :: int
  sd_visible :: bool
  sd_password :: string
  sd_secretSeed :: jsval
  sd_showPassword :: bool
  sd_passwordError :: bool
  sd_passwordErrorMessage :: string
  sd_events :: "ui_event list"

definition sd_init :: "bool \<Rightarrow> seed_dialog" where
  "sd_init value = \<lparr>sd_step = 1, sd_visible = value, sd_password = [], sd_secretSeed = JStr [],
     sd_showPassword = False, sd_passwordError = False, sd_passwordErrorMessage = [], sd_events = []\<rparr>"

text \<open>
  Closing goes back to the first step; the form's \<open>reset()\<close> empties the password field, whose
  watcher takes the error away.
\<close>

definition sd_watch_value :: "bool \<Rightarrow> seed_dialog \<Rightarrow> seed_dialog" where
  "sd_watch_value val d =
     (let d = d\<lparr>sd_visible := val\<rparr> in
      if sd_visible d = False
      then d\<lparr>sd_step := 1, sd_password := [], sd_passwordError := False, sd_passwordErrorMessage := []\<rparr>
      else d)"

definition sd_watch_password :: "string \<Rightarrow> seed_dialog \<Rightarrow> seed_dialog" where
  "sd_watch_password val d =
     d\<lparr>sd_password := val, sd_passwordError := False, sd_passwordErrorMessage := []\<rparr>"

definition sd_toggle :: "seed_dialog \<Rightarrow> seed_dialog" where
  "sd_toggle d = d\<lparr>sd_showPassword := \<not> sd_showPassword d\<rparr>"

definition sd_cancel :: "seed_dialog \<Rightarrow> seed_dialog" where
  "sd_cancel d = d\<lparr>sd_visible := False, sd_events := sd_events d @ [EmitInput False]\<rparr>"

definition sd_next :: "cryptojs \<Rightarrow> form_validate \<Rightarrow> seed_dialog \<Rightarrow> action option" where
  "sd_next cj validate d =
     (if validate [password_rule (sd_password d)]
      then Some (getCurrentWalletDetails cj (sd_password d)) else None)"

definition sd_next_done :: "result \<Rightarrow> seed_dialog \<Rightarrow> seed_dialog" where
  "sd_next_done r d =
     (case r of
        Resolved res \<Rightarrow>
          (case js_get res ''secretSeed'' of
             None \<Rightarrow> d
           | Some s \<Rightarrow> d\<lparr>sd_secretSeed := s, sd_passwordError := False, sd_passwordErrorMessage := [],
                         sd_step := sd_step d + 1\<rparr>)
      | Rejected (Coded c) \<Rightarrow>
          (if c = 401 \<or> c = 403
           then d\<lparr>sd_passwordError := True, sd_passwordErrorMessage := ''PASSWORD_ERROR''\<rparr> else d)
      | Rejected _ \<Rightarrow> d)"

definition sd_click :: "cryptojs \<Rightarrow> form_validate \<Rightarrow> (request \<Rightarrow> outcome) \<Rightarrow>
    seed_dialog \<times> client \<Rightarrow> seed_dialog \<times> client" where
  "sd_click cj validate net = (\<lambda>(d, st).
     case sd_next cj validate d of
       None \<Rightarrow> (d, st)
     | Some a \<Rightarrow> (let (st', r) = run_action a net st in (sd_next_done r d, st')))"

section \<open>BeneficiaryAddr.vue\<close>

record beneficiary_dialog =
  ba_step :: int
  ba_visible :: bool
  ba_beneficiaryAddr :: string
  ba_password :: string
  ba_showPassword :: bool
  ba_passwordError :: bool
  ba_passwordErrorMessage :: string
  ba_beneficiaryAddrError :: bool
  ba_beneficiaryAddrErrorMessage :: string
  ba_events :: "ui_event list"

definition ba_init :: "bool \<Rightarrow> beneficiary_dialog" where
  "ba_init value = \<lparr>ba_step = 1, ba_visible = value, ba_beneficiaryAddr = [], ba_password = [],
     ba_showPassword = False, ba_passwordError = False, ba_passwordErrorMessage = [],
     ba_beneficiaryAddrError = False, ba_beneficiaryAddrErrorMessage = [], ba_events = []\<rparr>"

definition ba_watch_value :: "bool \<Rightarrow> beneficiary_dialog \<Rightarrow> beneficiary_dialog" where
  "ba_watch_value val d =
     (let d = d\<lparr>ba_visible := val\<rparr> in
      if ba_visible d = False
      then d\<lparr>ba_step := 1, ba_password := [], ba_passwordError := False, ba_passwordErrorMessage := [],
             ba_beneficiaryAddr := [], ba_beneficiaryAddrError := False,
             ba_beneficiaryAddrErrorMessage := []\<rparr>
      else d)"

definition ba_watch_password :: "string \<Rightarrow> beneficiary_dialog \<Rightarrow> beneficiary_dialog" where
  "ba_watch_password val d =
     d\<lparr>ba_password := val, ba_passwordError := False, ba_passwordErrorMessage := []\<rparr>"

definition ba_toggle :: "beneficiary_dialog \<Rightarrow> beneficiary_dialog" where
  "ba_toggle d = d\<lparr>ba_showPassword := \<not> ba_showPassword d\<rparr>"

definition ba_input_addr :: "string \<Rightarrow> beneficiary_dialog \<Rightarrow> beneficiary_dialog" where
  "ba_input_addr v d = d\<lparr>ba_beneficiaryAddr := v\<rparr>"

definition ba_cancel :: "beneficiary_dialog \<Rightarrow> beneficiary_dialog" where
  "ba_cancel d = d\<lparr>ba_visible := False, ba_events := ba_events d @ [EmitInput False]\<rparr>"

definition ba_next :: "cryptojs \<Rightarrow> form_validate \<Rightarrow> beneficiary_dialog \<Rightarrow> action option" where
  "ba_next cj validate d =
     (if ba_step d = 1 then
        if validate [password_rule (ba_password d)] then Some (verification cj (ba_password d)) else None
      else if ba_step d = 2 then
        if validate [] then Some (setBeneficiaryAddr cj (ba_password d) (JStr (ba_beneficiaryAddr d)))
        else None
      else None)"

text \<open>
  The rest of the two branches, told apart by the step at the call. \<open>callback_ok\<close> says on which
  values the parent's callback returns normally; when it throws, the \<open>catch\<close> swallows it.
\<close>

definition ba_next_done :: "(jsval \<Rightarrow> bool) \<Rightarrow> int \<Rightarrow> result \<Rightarrow> beneficiary_dialog \<Rightarrow> beneficiary_dialog" where
  "ba_next_done callback_ok called_at r d =
     (if called_at = 1 then
        (case r of
           Resolved _ \<Rightarrow>
             d\<lparr>ba_passwordError := False, ba_passwordErrorMessage := [], ba_step := ba_step d + 1\<rparr>
         | Rejected (Coded c) \<Rightarrow>
             (if c = 401 \<or> c = 403
              then d\<lparr>ba_passwordError := True, ba_passwordErrorMessage := ''PASSWORD_ERROR''\<rparr> else d)
         | Rejected _ \<Rightarrow> d)
      else
        (case r of
           Resolved res \<Rightarrow>
             (let d = d\<lparr>ba_beneficiaryAddrError := False, ba_beneficiaryAddrErrorMessage := [],
                        ba_events := ba_events d @ [OnSuccess res]\<rparr>
              in if callback_ok res then ba_cancel d else d)
         | Rejected (Coded c) \<Rightarrow>
             (if c = 400
              then d\<lparr>ba_beneficiaryAddrError := True,
                     ba_beneficiaryAddrErrorMessage := ''settings.BENEFICIARY_ERROR''\<rparr>
              else d)
         | Rejected _ \<Rightarrow> d))"

definition ba_click :: "cryptojs \<Rightarrow> form_validate \<Rightarrow> (jsval \<Rightarrow> bool) \<Rightarrow> (request \<Rightarrow> outcome) \<Rightarrow>
    beneficiary_dialog \<times> client \<Rightarrow> beneficiary_dialog \<times> client" where
  "ba_click cj validate callback_ok net = (\<lambda>(d, st).
     case ba_next cj validate d of
       None \<Rightarrow> (d, st)
     | Some a \<Rightarrow>
         (let (st', r) = run_action a net st in (ba_next_done callback_ok (ba_step d) r d, st')))"

section \<open>Result.vue\<close>

record result_bar =
  rb_visible :: bool
  rb_type :: string
  rb_timeout :: int
  rb_events :: "ui_event list"

text \<open>The properties \<open>type\<close> and \<open>timeout\<close> have defaults.\<close>

definition rb_init :: "bool \<Rightarrow> string option \<Rightarrow> int option \<Rightarrow> result_bar" where
  "rb_init value ty timeout = \<lparr>
     rb_visible = value,
     rb_type = (case ty of None \<Rightarrow> ''success'' | Some s \<Rightarrow> s),
     rb_timeout = (case timeout of None \<Rightarrow> 2000 | Some n \<Rightarrow> n),
     rb_events = []\<rparr>"

text \<open>\<open>None\<close> is \<open>undefined\<close>: nothing is shown for another type.\<close>

definition rb_message :: "string \<Rightarrow> string option" where
  "rb_message ty =
     (if ty = ''success'' then Some ''settings.UPDATE_CONFIG_SUCCESS''
      else if ty = ''error'' then Some ''settings.UPDATE_CONFIG_ERROR''
      else None)"

text \<open>The watcher of \<open>visible\<close> tells the parent about every change.\<close>

definition rb_set_visible :: "bool \<Rightarrow> result_bar \<Rightarrow> result_bar" where
  "rb_set_visible v b =
     (if v = rb_visible b then b else b\<lparr>rb_visible := v, rb_events := rb_events b @ [EmitInput v]\<rparr>)"

definition rb_close :: "result_bar \<Rightarrow> result_bar" where
  "rb_close b = rb_set_visible False b"

definition rb_watch_value :: "bool \<Rightarrow> result_bar \<Rightarrow> result_bar" where
  "rb_watch_value v b = rb_set_visible v b"

section \<open>Runs of the guarded actions\<close>

abbreviation head_req :: request where
  "head_req \<equiv> \<lparr>req_method = HEAD, req_url = ''/api/verification'', req_body = JUndef\<rparr>"

lemma run_with_auth:
  "run_action (with_auth cj pw rq k) net st =
     (case auth_value cj (common st) pw of
        None \<Rightarrow> (st, Rejected TypeErr)
      | Some h \<Rightarrow> k (net rq) (st\<lparr>authorization := Some h\<rparr>))"
  by (simp add: run_action_def with_auth_def split: option.split)

lemma verification_run:
  assumes "auth_value cj (common st) pw = Some h"
  shows "run_action (verification cj pw) net st =
    (st\<lparr>authorization := Some h\<rparr>,
     case net head_req of Resp data _ \<Rightarrow> Resolved data
     | e \<Rightarrow> catch_status (\<lambda>s. s = 401 \<or> s = 403) e)"
  using assms by (simp add: verification_def run_with_auth split: outcome.split)

lemma details_run:
  assumes "auth_value cj (common st) pw = Some h"
  shows "run_action (getCurrentWalletDetails cj pw) net st =
    (st\<lparr>authorization := Some h\<rparr>,
     case net (get_req ''/api/current-wallet/details'') of Resp data _ \<Rightarrow> Resolved data
     | e \<Rightarrow> catch_status (\<lambda>s. s = 401 \<or> s = 403) e)"
  using assms by (simp add: getCurrentWalletDetails_def run_with_auth split: outcome.split)

section \<open>Properties\<close>

text \<open>The two ways the password dialog can end.\<close>

definition vp_accepted :: "verification_dialog \<Rightarrow> verification_dialog" where
  "vp_accepted d = d\<lparr>vp_visible := False, vp_passwordError := False, vp_passwordErrorMessage := [],
     vp_events := vp_events d @ [OnSuccess (JStr (vp_password d)), EmitInput False]\<rparr>"

definition vp_refused :: "verification_dialog \<Rightarrow> verification_dialog" where
  "vp_refused d = d\<lparr>vp_passwordError := True, vp_passwordErrorMessage := ''PASSWORD_ERROR''\<rparr>"

lemma vp_done_accepts: "vp_next_done (Resolved v) d = vp_accepted d"
  by (simp add: vp_next_done_def vp_accepted_def vp_cancel_def)

lemma vp_done_refuses: "c = 401 \<or> c = 403 \<Longrightarrow> vp_next_done (Rejected (Coded c)) d = vp_refused d"
  by (auto simp: vp_next_done_def vp_refused_def)

lemma vp_click_run:
  assumes "form_std validate" and "vp_step d = 1" and "vp_password d \<noteq> []"
    and "auth_value cj (common st) (vp_password d) = Some h"
  shows "fst (vp_click cj validate net (d, st)) =
    (case net head_req of
       Resp _ _ \<Rightarrow> vp_accepted d
     | Fail c \<Rightarrow> if c = 401 \<or> c = 403 then vp_refused d else vp_accepted d
     | NoResp \<Rightarrow> d)"
  using assms form_std.validate_iff [OF assms(1)]
  by (simp add: vp_click_def vp_next_def password_rule_def verification_run vp_done_accepts vp_done_refuses
      split: outcome.split) (simp add: vp_next_done_def)

text \<open>
  C30: what a click in the password dialog does for every answer of the server. Only the statuses 401
  and 403 are taken as a wrong password; an answer, but also every other error status, closes
  the dialog and hands the password on as verified; an error without a response leaves the
  dialog as it was, without a message.
\<close>

theorem password_dialog_outcomes:
  assumes "cryptojs_std cj" and "form_std validate" and "vp_step d = 1" and "vp_password d \<noteq> []"
    and "synced st tok n" and "0 \<le> n" and "n < 10 ^ 15"
  shows "fst (vp_click cj validate net (d, st)) =
    (case net head_req of
       Resp _ _ \<Rightarrow> vp_accepted d
     | Fail c \<Rightarrow> if c = 401 \<or> c = 403 then vp_refused d else vp_accepted d
     | NoResp \<Rightarrow> d)"
  using cryptojs_std.auth_value_eq [OF assms(1)] assms(5-7)
  by (intro vp_click_run [OF assms(2-4)]) simp

theorem password_dialog_outcomes_witness:
  "fst (vp_click std_cryptojs all_rules (\<lambda>_. Fail 500) ((vp_init True)\<lparr>vp_password := ''pw''\<rparr>, sample_client None 1000)) =
     vp_accepted ((vp_init True)\<lparr>vp_password := ''pw''\<rparr>)"
  by (subst password_dialog_outcomes [OF std_cryptojs_ok all_rules_ok _ _ sample_synced])
    (simp_all add: vp_init_def)

text \<open>A click with an empty password, or at another step, sends nothing and changes nothing.\<close>

lemma password_dialog_guard:
  assumes "form_std validate" and "vp_step d \<noteq> 1 \<or> vp_password d = []"
  shows "vp_click cj validate net (d, st) = (d, st)"
  using assms form_std.validate_iff [OF assms(1)]
  by (auto simp: vp_click_def vp_next_def password_rule_def)

text \<open>
  The secret seed is shown exactly when the server sent one: a click in the seed dialog moves
  on to the second step just if the answer is data with properties, and then what is shown is
  the \<open>secretSeed\<close> of that answer; in every other case the dialog stays where it was and shows
  what it showed before.
\<close>

theorem secret_seed_shown_iff_sent:
  assumes "cryptojs_std cj" and "form_std validate" and "sd_password d \<noteq> []"
    and "synced st tok n" and "0 \<le> n" and "n < 10 ^ 15"
    and "d' = fst (sd_click cj validate net (d, st))"
    and "out = net (get_req ''/api/current-wallet/details'')"
  shows "(sd_step d' = sd_step d + 1 \<longleftrightarrow> (\<exists>data t s. out = Resp data t \<and> js_get data ''secretSeed'' = Some s)) \<and>
    (\<forall>data t s. out = Resp data t \<and> js_get data ''secretSeed'' = Some s \<longrightarrow> sd_secretSeed d' = s) \<and>
    (sd_step d' = sd_step d \<longrightarrow> sd_secretSeed d' = sd_secretSeed d)"
proof -
  have a: "auth_value cj (common st) (sd_password d) \<noteq> None"
    using cryptojs_std.auth_value_eq [OF assms(1)] assms(4-6) by simp
  then obtain h where h: "auth_value cj (common st) (sd_password d) = Some h" by blast
  have "d' = sd_next_done (case out of Resp data _ \<Rightarrow> Resolved data
      | e \<Rightarrow> catch_status (\<lambda>s. s = 401 \<or> s = 403) e) d"
    using assms(3,7,8) form_std.validate_iff [OF assms(2)]
    by (simp add: sd_click_def sd_next_def password_rule_def details_run [OF h])
  then show ?thesis
    by (cases out) (auto simp: sd_next_done_def split: option.splits)
qed

theorem secret_seed_shown_iff_sent_witness:
  "sd_secretSeed (fst (sd_click std_cryptojs all_rules
      (\<lambda>_. Resp (JObj [(''secretSeed'', JStr ''s'')]) JUndef)
      ((sd_init True)\<lparr>sd_password := ''pw''\<rparr>, sample_client None 1000))) = JStr ''s''"
  using secret_seed_shown_iff_sent [OF std_cryptojs_ok all_rules_ok _ sample_synced [of None 1000] _ _ refl refl,
    where d = "(sd_init True)\<lparr>sd_password := ''pw''\<rparr>"
      and net = "\<lambda>_. Resp (JObj [(''secretSeed'', JStr ''s'')]) JUndef"]
  by simp

section \<open>Two clicks before the first answer\<close>

text \<open>
  The beneficiary dialog with the answers it still waits for: a click adds the step at which
  \<open>next\<close> was called, an answer takes the oldest one.
\<close>

type_synonym waiting = "int list"

definition ba_press :: "cryptojs \<Rightarrow> form_validate \<Rightarrow> beneficiary_dialog \<times> waiting \<Rightarrow> beneficiary_dialog \<times> waiting" where
  "ba_press cj validate = (\<lambda>(d, ws).
     if ba_next cj validate d = None then (d, ws) else (d, ws @ [ba_step d]))"

definition ba_answer :: "(jsval \<Rightarrow> bool) \<Rightarrow> result \<Rightarrow> beneficiary_dialog \<times> waiting \<Rightarrow> beneficiary_dialog \<times> waiting" where
  "ba_answer callback_ok r = (\<lambda>(d, ws).
     case ws of [] \<Rightarrow> (d, []) | s # ws' \<Rightarrow> (ba_next_done callback_ok s r d, ws'))"

text \<open>
  Two clicks on NEXT with the right password before the first answer arrives skip the address:
  the step is then 3, for which the dialog has no page, and \<open>next\<close> does nothing any more.
\<close>

theorem double_click_skips_address:
  assumes "form_std validate" and "ba_step d = 1" and "ba_password d \<noteq> []"
    and "s = ba_answer callback_ok (Resolved v) (ba_answer callback_ok (Resolved v)
      (ba_press cj validate (ba_press cj validate (d, []))))"
  shows "ba_step (fst s) = 3 \<and> snd s = [] \<and> ba_next cj validate (fst s) = None \<and> ba_events (fst s) = ba_events d"
  using assms form_std.validate_iff [OF assms(1)]
  by (simp add: ba_press_def ba_answer_def ba_next_def ba_next_done_def password_rule_def)

theorem double_click_skips_address_witness:
  "ba_step (fst (ba_answer (\<lambda>_. True) (Resolved JUndef) (ba_answer (\<lambda>_. True) (Resolved JUndef)
    (ba_press std_cryptojs all_rules (ba_press std_cryptojs all_rules
      ((ba_init True)\<lparr>ba_password := ''pw''\<rparr>, [])))))) = 3"
  using double_click_skips_address [OF all_rules_ok _ _ refl, where d = "(ba_init True)\<lparr>ba_password := ''pw''\<rparr>"
    and cj = std_cryptojs and callback_ok = "\<lambda>_. True" and v = JUndef]
  by (simp add: ba_init_def)

end
