(* ===== verification/Web_Math.thy ===== *)
theory Web_Math
  imports Js_Value
begin

text \<open>
  \<open>dashboard/web/helpers/math.js\<close> and \<open>helpers/tools.js\<close>: decimal arithmetic on amounts and the
  conversion between NKN and its smallest unit. The decimal.js package is outside the
  repository: it is the record \<open>decimaljs\<close>, an argument of every definition. A decimal is held
  by its value (\<open>Fin q\<close> is not confined to doubles here). The contract \<open>decimaljs_std\<close> is the
  package's documentation: results are rounded to 20 significant digits, half up; the
  constructor is exact, takes a number by its shortest text and throws on an invalid text.
\<close>

section \<open>The package's interface\<close>

record decimaljs =
  d_new :: "jsval \<Rightarrow> jsnum option"
  d_add :: "jsnum \<Rightarrow> jsnum \<Rightarrow> jsnum"
  d_sub :: "jsnum \<Rightarrow> jsnum \<Rightarrow> jsnum"
  d_mul :: "jsnum \<Rightarrow> jsnum \<Rightarrow> jsnum"
  d_div :: "jsnum \<Rightarrow> jsnum \<Rightarrow> jsnum"
  d_floor :: "jsnum \<Rightarrow> jsnum"
  d_eq :: "jsnum \<Rightarrow> jsnum \<Rightarrow> bool"
  d_gt :: "jsnum \<Rightarrow> jsnum \<Rightarrow> bool"
  d_gte :: "jsnum \<Rightarrow> jsnum \<Rightarrow> bool"
  d_lt :: "jsnum \<Rightarrow> jsnum \<Rightarrow> bool"
  d_lte :: "jsnum \<Rightarrow> jsnum \<Rightarrow> bool"
  d_dp :: "jsnum \<Rightarrow> jsnum"
  d_toFixed :: "jsnum \<Rightarrow> string"
  d_toNumber :: "jsnum \<Rightarrow> jsnum"
  d_toHexadecimal :: "jsnum \<Rightarrow> string"

text \<open>An argument of the helpers is a plain value or a decimal made before.\<close>

datatype numarg = Raw jsval | Dec jsnum

fun d_conv :: "decimaljs \<Rightarrow> numarg \<Rightarrow> jsnum option" where
  "d_conv D (Raw v) = d_new D v"
| "d_conv D (Dec x) = Some x"

definition d_op :: "decimaljs \<Rightarrow> (jsnum \<Rightarrow> jsnum \<Rightarrow> 'a) \<Rightarrow> numarg \<Rightarrow> numarg \<Rightarrow> 'a option" where
  "d_op D f a b = (case (d_conv D a, d_conv D b) of (Some x, Some y) \<Rightarrow> Some (f x y) | _ \<Rightarrow> None)"

section \<open>math.js\<close>

definition newNum :: "decimaljs \<Rightarrow> numarg \<Rightarrow> jsnum option" where
  "newNum D arg = d_conv D arg"

definition NKN_ACC_MUL :: "decimaljs \<Rightarrow> jsnum option" where
  "NKN_ACC_MUL D = newNum D (Raw (JInt 100000000))"

definition NKN_DP_LENGTH :: int where
  "NKN_DP_LENGTH = 8"

definition add_dec :: "decimaljs \<Rightarrow> numarg \<Rightarrow> numarg \<Rightarrow> jsnum option" where
  "add_dec D arg1 arg2 = d_op D (d_add D) arg1 arg2"

definition sub_dec :: "decimaljs \<Rightarrow> numarg \<Rightarrow> numarg \<Rightarrow> jsnum option" where
  "sub_dec D arg1 arg2 = d_op D (d_sub D) arg1 arg2"

definition mul_dec :: "decimaljs \<Rightarrow> numarg \<Rightarrow> numarg \<Rightarrow> jsnum option" where
  "mul_dec D arg1 arg2 = d_op D (d_mul D) arg1 arg2"

definition mulAndFloor :: "decimaljs \<Rightarrow> numarg \<Rightarrow> numarg \<Rightarrow> jsnum option" where
  "mulAndFloor D arg1 arg2 = map_option (d_floor D) (d_op D (d_mul D) arg1 arg2)"

definition div_dec :: "decimaljs \<Rightarrow> numarg \<Rightarrow> numarg \<Rightarrow> jsnum option" where
  "div_dec D arg1 arg2 = d_op D (d_div D) arg1 arg2"

definition eq_dec :: "decimaljs \<Rightarrow> numarg \<Rightarrow> numarg \<Rightarrow> bool option" where
  "eq_dec D arg1 arg2 = d_op D (d_eq D) arg1 arg2"

definition greaterThan :: "decimaljs \<Rightarrow> numarg \<Rightarrow> numarg \<Rightarrow> bool option" where
  "greaterThan D base target = d_op D (d_gt D) base target"

definition greaterThanOrEqualTo :: "decimaljs \<Rightarrow> numarg \<Rightarrow> numarg \<Rightarrow> bool option" where
  "greaterThanOrEqualTo D base target = d_op D (d_gte D) base target"

definition lessThan :: "decimaljs \<Rightarrow> numarg \<Rightarrow> numarg \<Rightarrow> bool option" where
  "lessThan D base target = d_op D (d_lt D) base target"

definition lessThanOrEqualTo :: "decimaljs \<Rightarrow> numarg \<Rightarrow> numarg \<Rightarrow> bool option" where
  "lessThanOrEqualTo D base target = d_op D (d_lte D) base target"

definition int2HexString :: "decimaljs \<Rightarrow> numarg \<Rightarrow> string option" where
  "int2HexString D arg =
     (case d_conv D arg of
        None \<Rightarrow> None
      | Some x \<Rightarrow>
          (let hexString = drop 2 (d_toHexadecimal D (d_floor D x))
           in Some (if length hexString mod 2 = 1 then CHR ''0'' # hexString else hexString)))"

definition hexString2Int :: "decimaljs \<Rightarrow> string \<Rightarrow> jsnum option" where
  "hexString2Int D arg =
     (if take 2 arg = ''0x'' then d_new D (JStr arg) else d_new D (JStr (''0x'' @ arg)))"

section \<open>tools.js\<close>

definition formatFee :: "decimaljs \<Rightarrow> jsval \<Rightarrow> jsval option" where
  "formatFee D fee =
     (if \<not> truthy fee then Some (JInt 0)
      else case (newNum D (Raw fee), NKN_ACC_MUL D) of
             (Some x, Some m) \<Rightarrow> map_option (\<lambda>d. JStr (d_toFixed D d)) (div_dec D (Dec x) (Dec m))
           | _ \<Rightarrow> None)"

definition parseFee :: "decimaljs \<Rightarrow> jsval \<Rightarrow> jsval option" where
  "parseFee D fee =
     (if \<not> truthy fee then Some (JInt 0)
      else case (newNum D (Raw fee), NKN_ACC_MUL D) of
             (Some x, Some m) \<Rightarrow> map_option (\<lambda>d. JNum (d_toNumber D d)) (mul_dec D (Dec x) (Dec m))
           | _ \<Rightarrow> None)"

section \<open>What the package documents\<close>

function show_hex :: "int \<Rightarrow> string" where
  "show_hex n = (if n < 16 then [hex_digit (nat n)] else show_hex (n div 16) @ [hex_digit (nat (n mod 16))])"
  by pat_completeness auto
termination
  by (relation "measure nat") auto

declare show_hex.simps [simp del]

definition plain_dec :: "string \<Rightarrow> bool" where
  "plain_dec s \<longleftrightarrow> (\<forall>c \<in> set s. is_digit c \<or> c = CHR ''.'')"

definition blank_text :: "string \<Rightarrow> bool" where
  "blank_text s \<longleftrightarrow> s \<noteq> [] \<and> (\<forall>c \<in> set s. c = CHR '' '')"

locale decimaljs_std =
  fixes D :: decimaljs
  assumes new_num: "is_double q \<Longrightarrow> 0 < q \<Longrightarrow> d_new D (JNum (Fin q)) = Some (Fin (shortest q))"
    and new_zero: "d_new D (JNum (Fin 0)) = Some (Fin 0)"
    and new_text: "plain_dec s \<Longrightarrow> scan_udec s = Some (q, []) \<Longrightarrow> d_new D (JStr s) = Some (Fin q)"
    and new_blank: "blank_text s \<Longrightarrow> d_new D (JStr s) = None"
    and new_hex: "h \<noteq> [] \<Longrightarrow> list_all (radix_digit 16) h \<Longrightarrow>
        d_new D (JStr (''0x'' @ h)) = Some (Fin (of_int (radix_val 16 h)))"
    and add_law: "d_add D (Fin a) (Fin b) = Fin (sd_round 20 (a + b))"
    and sub_law: "d_sub D (Fin a) (Fin b) = Fin (sd_round 20 (a - b))"
    and mul_law: "d_mul D (Fin a) (Fin b) = Fin (sd_round 20 (a * b))"
    and div_law: "b \<noteq> 0 \<Longrightarrow> d_div D (Fin a) (Fin b) = Fin (sd_round 20 (a / b))"
    and floor_law: "d_floor D (Fin a) = Fin (of_int \<lfloor>a\<rfloor>)"
    and toFixed_law: "finite_dec a \<Longrightarrow> d_toFixed D (Fin a) = plain_text a"
    and toNumber_law: "d_toNumber D (Fin a) = dbl a"
    and dp_law: "finite_dec a \<Longrightarrow> d_dp D (Fin a) = Fin (of_nat (decimals a))"
    and hex_law: "0 \<le> n \<Longrightarrow> d_toHexadecimal D (Fin (of_int n)) = ''0x'' @ show_hex n"

lemma plain_fixed_text: "0 \<le> m \<Longrightarrow> plain_dec (fixed_text m j)"
proof -
  assume m: "0 \<le> m"
  have ip: "0 \<le> m div 10 ^ j" using m by (simp add: pos_imp_zdiv_nonneg_iff)
  show ?thesis
    using show_uint_digits [OF m] show_uint_digits [OF ip] fixed_frac(3) [OF m, of j]
    by (auto simp: plain_dec_def fixed_text_def Let_def split: if_splits)
qed

lemma plain_text_plain: "0 \<le> q \<Longrightarrow> finite_dec q \<Longrightarrow> plain_dec (plain_text q)"
  by (metis plain_text_fixed plain_fixed_text)

lemma plain_text_ne: "plain_text q \<noteq> []"
  by (simp add: plain_text_def fixed_text_def Let_def)

lemma hex_digit_radix [simp]: "n < 16 \<Longrightarrow> radix_digit 16 (hex_digit n)"
  by (simp add: radix_digit_def)

lemma radix_val_snoc: "radix_val 16 (s @ [c]) =
    radix_val 16 s * 16 + (case hex_value c of None \<Rightarrow> 0 | Some v \<Rightarrow> int v)"
  by (simp add: radix_val_def)

lemma show_hex_value: "0 \<le> n \<Longrightarrow> radix_val 16 (show_hex n) = n"
proof (induction n rule: show_hex.induct)
  case (1 n)
  show ?case
  proof (cases "n < 16")
    case True
    then have "show_hex n = [] @ [hex_digit (nat n)]" by (simp add: show_hex.simps)
    then show ?thesis using True "1.prems" by (simp only: radix_val_snoc) (simp add: radix_val_def)
  next
    case False
    then have "show_hex n = show_hex (n div 16) @ [hex_digit (nat (n mod 16))]"
      by (simp add: show_hex.simps)
    then show ?thesis using 1 False by (simp add: radix_val_snoc)
  qed
qed

lemma show_hex_digits: "0 \<le> n \<Longrightarrow> list_all (radix_digit 16) (show_hex n)"
proof (induction n rule: show_hex.induct)
  case (1 n)
  then show ?case by (subst show_hex.simps) (cases "n < 16", simp_all)
qed

lemma show_hex_ne [simp]: "show_hex n \<noteq> []"
  by (subst show_hex.simps) simp

lemma radix_val_zero: "radix_val 16 (CHR ''0'' # s) = radix_val 16 s"
  by (simp add: radix_val_def hex_value_def)

lemma padded_hex_digits:
  "0 \<le> n \<Longrightarrow> list_all (radix_digit 16) (replicate k CHR ''0'' @ show_hex n)"
  using show_hex_digits [of n] by (auto simp: list_all_iff radix_digit_def hex_value_def)

context decimaljs_std
begin

lemma acc_mul: "NKN_ACC_MUL D = Some (Fin (10 ^ 8))"
  using new_num [of "of_int 100000000"] shortest_int [of 100000000] dbl_int [of 100000000]
  by (simp add: NKN_ACC_MUL_def newNum_def is_double_def)

lemma new_int:
  assumes "0 \<le> n" and "n < 10 ^ 15"
  shows "d_new D (JInt n) = Some (Fin (of_int n))"
proof (cases "n = 0")
  case False
  with assms have n: "0 < n" by simp
  have "is_double (of_int n)" using assms by (simp add: is_double_def)
  with new_num [of "of_int n"] shortest_int [OF n assms(2)] n show ?thesis by simp
qed (simp add: new_zero)

lemma formatFee_int:
  assumes "0 < n" and "n < 10 ^ 15"
  shows "formatFee D (JInt n) = Some (JStr (plain_text (of_int n / 10 ^ 8)))"
proof -
  define q :: rat where "q = of_int n / 10 ^ 8"
  have "(of_int n :: rat) < of_int (10 ^ 15)" using assms(2) by (simp only: of_int_less_iff)
  then have "sd_round 20 q = q"
    unfolding q_def using assms(1) by (intro sd_round_small [where d = 7]) simp_all
  then have div: "d_div D (Fin (of_int n)) (Fin (10 ^ 8)) = Fin q"
    using div_law [of "10 ^ 8" "of_int n"] by (simp add: q_def)
  have "d_toFixed D (Fin q) = plain_text q"
    by (rule toFixed_law) (simp only: q_def finite_decI [OF refl])
  then show ?thesis
    using assms new_int [of n] div
    by (simp add: formatFee_def newNum_def acc_mul div_dec_def d_op_def) (simp add: q_def)
qed

lemma parseFee_text:
  assumes "0 \<le> n" and "n < 10 ^ 15"
  shows "parseFee D (JStr (plain_text (of_int n / 10 ^ 8))) = Some (JInt n)"
proof -
  define q :: rat where "q = of_int n / 10 ^ 8"
  have q: "0 \<le> q" "finite_dec q"
    using assms(1) by (simp_all only: q_def finite_decI [OF refl]) simp
  have "scan_udec (plain_text q @ []) = Some (q, [])"
    by (rule plain_text_read [OF q]) (simp add: stops_def)
  then have new: "d_new D (JStr (plain_text q)) = Some (Fin q)"
    using new_text [OF plain_text_plain [OF q]] by simp
  have "(of_int n :: rat) < of_int (10 ^ 15)" using assms(2) by (simp only: of_int_less_iff)
  then have "sd_round 20 (of_int n) = (of_int n :: rat)"
    using sd_round_small [OF assms(1), of 0 15 20] by simp
  then have "sd_round 20 (q * 10 ^ 8) = of_int n" by (simp add: q_def)
  then have "parseFee D (JStr (plain_text q)) = Some (JInt n)"
    using assms new plain_text_ne [of q]
    by (simp add: parseFee_def newNum_def acc_mul mul_dec_def d_op_def mul_law toNumber_law)
  then show ?thesis unfolding q_def .
qed

lemma fee_roundtrip:
  assumes "0 \<le> n" and "n < 10 ^ 15"
  shows "Option.bind (formatFee D (JInt n)) (parseFee D) = Some (JInt n)"
proof (cases "n = 0")
  case True
  then show ?thesis by (simp add: formatFee_def parseFee_def)
next
  case False
  then show ?thesis using formatFee_int [of n] parseFee_text [of n] assms by simp
qed

lemma int2Hex_shape:
  assumes "0 \<le> n" and "n < 10 ^ 15"
  shows "int2HexString D (Raw (JInt n)) =
    Some (if length (show_hex n) mod 2 = 1 then CHR ''0'' # show_hex n else show_hex n)"
  using new_int [OF assms] by (simp add: int2HexString_def floor_law hex_law assms(1))

lemma new_hex_pad:
  assumes "0 \<le> n"
  shows "d_new D (JStr (''0x'' @ replicate k CHR ''0'' @ show_hex n)) = Some (Fin (of_int n))"
proof -
  have "radix_val 16 (replicate k CHR ''0'' @ show_hex n) = n"
    using show_hex_value [OF assms] by (induction k) (simp_all add: radix_val_zero)
  then show ?thesis using new_hex [OF _ padded_hex_digits [OF assms]] by simp
qed

lemma hexString2Int_prefixed:
  assumes "0 \<le> n"
  shows "hexString2Int D (''0x'' @ replicate k CHR ''0'' @ show_hex n) = Some (Fin (of_int n))"
  using new_hex_pad [OF assms, of k] by (simp add: hexString2Int_def)

lemma hexString2Int_pad:
  assumes "0 \<le> n"
  shows "hexString2Int D (replicate k CHR ''0'' @ show_hex n) = Some (Fin (of_int n))"
proof -
  let ?h = "replicate k CHR ''0'' @ show_hex n"
  have digits: "list_all (radix_digit 16) ?h" by (rule padded_hex_digits [OF assms])
  have "take 2 ?h \<noteq> ''0x''"
  proof
    assume "take 2 ?h = ''0x''"
    then have "CHR ''x'' \<in> set ?h" by (metis in_set_takeD list.set_intros(1,2))
    then have "radix_digit 16 (CHR ''x'')" using digits by (auto simp: list_all_iff)
    then show False by (simp add: radix_digit_def hex_value_def)
  qed
  then show ?thesis
    using new_hex_pad [OF assms, of k] by (simp add: hexString2Int_def)
qed

end

section \<open>Exact arithmetic meets the contract\<close>

definition std_decimaljs :: decimaljs where
  "std_decimaljs = \<lparr>
     d_new = (\<lambda>v. case v of
        JNum (Fin q) \<Rightarrow>
          Some (Fin (if q = 0 then 0 else if 0 < q then shortest q else - shortest (- q)))
      | JNum x \<Rightarrow> Some x
      | JStr s \<Rightarrow>
          (if take 2 s = ''0x'' \<and> drop 2 s \<noteq> [] \<and> list_all (radix_digit 16) (drop 2 s)
           then Some (Fin (of_int (radix_val 16 (drop 2 s))))
           else let (neg, u) = split_sign s
                in case scan_udec u of
                     Some (q, []) \<Rightarrow> Some (Fin (if neg then - q else q))
                   | _ \<Rightarrow> None)
      | _ \<Rightarrow> None),
     d_add = (\<lambda>x y. case (x, y) of (Fin a, Fin b) \<Rightarrow> Fin (sd_round 20 (a + b)) | _ \<Rightarrow> num_add x y),
     d_sub = (\<lambda>x y. case (x, y) of (Fin a, Fin b) \<Rightarrow> Fin (sd_round 20 (a - b)) | _ \<Rightarrow> num_sub x y),
     d_mul = (\<lambda>x y. case (x, y) of (Fin a, Fin b) \<Rightarrow> Fin (sd_round 20 (a * b)) | _ \<Rightarrow> NaN),
     d_div = (\<lambda>x y. case (x, y) of
        (Fin a, Fin b) \<Rightarrow> (if b = 0 then NaN else Fin (sd_round 20 (a / b))) | _ \<Rightarrow> NaN),
     d_floor = (\<lambda>x. case x of Fin a \<Rightarrow> Fin (of_int \<lfloor>a\<rfloor>) | _ \<Rightarrow> x),
     d_eq = (\<lambda>x y. x = y \<and> x \<noteq> NaN),
     d_gt = (\<lambda>x y. num_lt y x),
     d_gte = (\<lambda>x y. num_le y x),
     d_lt = num_lt,
     d_lte = num_le,
     d_dp = (\<lambda>x. case x of Fin a \<Rightarrow> Fin (of_nat (decimals a)) | _ \<Rightarrow> NaN),
     d_toFixed = (\<lambda>x. case x of Fin a \<Rightarrow> plain_text a | _ \<Rightarrow> num_text x),
     d_toNumber = (\<lambda>x. case x of Fin a \<Rightarrow> dbl a | _ \<Rightarrow> x),
     d_toHexadecimal = (\<lambda>x. case x of Fin a \<Rightarrow> ''0x'' @ show_hex \<lfloor>a\<rfloor> | _ \<Rightarrow> num_text x)\<rparr>"

lemma plain_not_hex: "plain_dec s \<Longrightarrow> take 2 s \<noteq> ''0x''"
proof
  assume p: "plain_dec s" and "take 2 s = ''0x''"
  then have "CHR ''x'' \<in> set s" by (metis in_set_takeD list.set_intros(1,2))
  with p show False by (auto simp: plain_dec_def is_digit_def)
qed

lemma plain_no_sign: "plain_dec s \<Longrightarrow> split_sign s = (False, s)"
  by (cases s) (auto simp: split_sign_def plain_dec_def is_digit_def)

lemma blank_scan:
  assumes "blank_text s"
  shows "split_sign s = (False, s)" and "scan_udec s = None" and "take 2 s \<noteq> ''0x''"
  using assms
  by (cases s; auto simp: blank_text_def split_sign_def scan_udec_def scan_frac_def is_digit_def)+

interpretation std_dec: decimaljs_std std_decimaljs
proof unfold_locales
  fix s q assume "plain_dec s" and "scan_udec s = Some (q, [])"
  then show "d_new std_decimaljs (JStr s) = Some (Fin q)"
    by (simp add: std_decimaljs_def plain_not_hex plain_no_sign)
next
  fix s assume "blank_text s"
  then show "d_new std_decimaljs (JStr s) = None"
    by (simp add: std_decimaljs_def blank_scan)
qed (simp_all add: std_decimaljs_def)

lemmas std_decimaljs_ok = std_dec.decimaljs_std_axioms

section \<open>Properties\<close>

text \<open>
  \<open>int2HexString\<close> gives whole bytes (an even number of digits), and \<open>hexString2Int\<close> reads the
  number back, with or without the \<open>0x\<close> prefix.
\<close>

theorem hexString2Int_int2HexString:
  assumes "decimaljs_std D" and "0 \<le> n" and "n < 10 ^ 15"
  shows "\<exists>h. int2HexString D (Raw (JInt n)) = Some h \<and> even (length h) \<and>
    hexString2Int D h = Some (Fin (of_int n)) \<and> hexString2Int D (''0x'' @ h) = Some (Fin (of_int n))"
proof -
  define k where "k = length (show_hex n) mod 2"
  define h where "h = replicate k CHR ''0'' @ show_hex n"
  have "int2HexString D (Raw (JInt n)) = Some h"
    using decimaljs_std.int2Hex_shape [OF assms] by (cases "k = 0") (simp_all add: h_def k_def mod_2_eq_odd)
  moreover have "even (length h)" by (simp add: h_def k_def mod_2_eq_odd)
  moreover have "hexString2Int D h = Some (Fin (of_int n))"
    unfolding h_def by (rule decimaljs_std.hexString2Int_pad [OF assms(1,2)])
  moreover have "hexString2Int D (''0x'' @ h) = Some (Fin (of_int n))"
    unfolding h_def by (rule decimaljs_std.hexString2Int_prefixed [OF assms(1,2)])
  ultimately show ?thesis by blast
qed

theorem hexString2Int_int2HexString_witness:
  "\<exists>h. int2HexString std_decimaljs (Raw (JInt 4097)) = Some h \<and> even (length h) \<and>
    hexString2Int std_decimaljs h = Some (Fin (of_int 4097)) \<and>
    hexString2Int std_decimaljs (''0x'' @ h) = Some (Fin (of_int 4097))"
  by (rule hexString2Int_int2HexString [OF std_decimaljs_ok]) simp_all

text \<open>
  The two fee conversions never throw on what is falsy: an empty field, a missing value and
  zero all stand for 0. A field that holds only blanks is not falsy, and \<open>parseFee\<close> throws on it.
\<close>

theorem fee_empty_and_blank:
  assumes "decimaljs_std D" and "blank_text s" and "\<not> truthy v"
  shows "formatFee D v = Some (JInt 0) \<and> parseFee D v = Some (JInt 0) \<and> parseFee D (JStr s) = None"
  using assms(2,3) decimaljs_std.new_blank [OF assms(1,2)]
  by (auto simp: formatFee_def parseFee_def newNum_def blank_text_def)

theorem fee_empty_and_blank_witness:
  "formatFee std_decimaljs JUndef = Some (JInt 0) \<and> parseFee std_decimaljs JUndef = Some (JInt 0) \<and>
   parseFee std_decimaljs (JStr '' '') = None"
  by (rule fee_empty_and_blank [OF std_decimaljs_ok]) (simp_all add: blank_text_def)

end
