(* ===== verification/Js_Decimal.thy ===== *)
theory Js_Decimal
  imports Js_Number
begin

text \<open>
  Decimals of at most 15 significant digits survive a trip through a double: the shortest text
  of the nearest double is the decimal itself. This is what makes amounts in NKN exact on the
  way between the store, the form fields and decimal.js.
\<close>

section \<open>The error of rounding\<close>

lemma ibits_bounds: "0 < n \<Longrightarrow> 0 < ibits n \<and> 2 ^ nat (ibits n - 1) \<le> n \<and> n < 2 ^ nat (ibits n)"
proof (induction n rule: ibits.induct)
  case (1 n)
  have step: "ibits n = 1 + ibits (n div 2)" using "1.prems" by (subst ibits.simps) simp
  show ?case
  proof (cases "n < 2")
    case True
    then have "ibits (n div 2) = 0" using "1.prems" by (subst ibits.simps) simp
    with step True "1.prems" show ?thesis by simp
  next
    case False
    let ?m = "n div 2"
    have m: "0 < ?m" using False by simp
    with "1.IH" "1.prems" have ih: "0 < ibits ?m" "2 ^ nat (ibits ?m - 1) \<le> ?m" "?m < 2 ^ nat (ibits ?m)"
      by auto
    have e: "nat (ibits n - 1) = Suc (nat (ibits ?m - 1))" "nat (ibits n) = Suc (nat (ibits ?m))"
      using step ih(1) by auto
    have "2 * ?m \<le> n" "n < 2 * (?m + 1)" by simp_all
    with ih(2,3) have "2 * 2 ^ nat (ibits ?m - 1) \<le> n" "n < 2 * 2 ^ nat (ibits ?m)"
      by linarith+
    then show ?thesis unfolding e power_Suc using step ih(1) by simp
  qed
qed

lemma pow2_pos [simp]: "0 < pow2 e"
  by (simp add: pow2_def)

lemma pow2_ne [simp]: "pow2 e \<noteq> 0"
  using pow2_pos [of e] by (simp del: pow2_pos)

lemma pow2_ilog2_le:
  assumes "0 < q"
  shows "pow2 (ilog2 q) \<le> q"
proof (cases "1 \<le> q")
  case True
  then have f: "0 < \<lfloor>q\<rfloor>" by simp
  have "(of_int (2 ^ nat (ibits \<lfloor>q\<rfloor> - 1)) :: rat) \<le> of_int \<lfloor>q\<rfloor>"
    using ibits_bounds [OF f] by (simp only: of_int_le_iff)
  also have "\<dots> \<le> q" by simp
  finally show ?thesis using True ibits_bounds [OF f] by (simp add: ilog2_def pow2_def)
next
  case False
  let ?n = "\<lceil>1 / q\<rceil> - 1"
  have "1 < 1 / q" using False assms by simp
  then have n: "0 < ?n" by linarith
  have "\<lceil>1 / q\<rceil> \<le> 2 ^ nat (ibits ?n)" using ibits_bounds [OF n] by linarith
  then have "1 / q \<le> of_int (2 ^ nat (ibits ?n))" by (simp only: ceiling_le_iff)
  then have "1 / 2 ^ nat (ibits ?n) \<le> q" using assms by (simp add: field_simps)
  moreover have "pow2 (- ibits ?n) = 1 / 2 ^ nat (ibits ?n)" using ibits_bounds [OF n] by (simp add: pow2_def)
  ultimately show ?thesis using False by (simp add: ilog2_def)
qed

lemma pow2_minus: "pow2 (e - int k) = pow2 e / 2 ^ k"
proof (cases "0 \<le> e")
  case True
  show ?thesis
  proof (cases "int k \<le> e")
    case True
    then have "(2 :: rat) ^ nat e = 2 ^ nat (e - int k) * 2 ^ k"
      by (simp flip: power_add)
    with True show ?thesis by (simp add: pow2_def)
  next
    case False
    then have "(2 :: rat) ^ k = 2 ^ nat (int k - e) * 2 ^ nat e"
      using \<open>0 \<le> e\<close> by (simp flip: power_add nat_add_distrib)
    with False \<open>0 \<le> e\<close> show ?thesis by (simp add: pow2_def field_simps)
  qed
next
  case False
  then have "nat (int k - e) = k + nat (- e)" by simp
  with False show ?thesis by (simp add: pow2_def power_add field_simps)
qed

lemma round_even_error: "\<bar>of_int (round_even y) - y\<bar> \<le> 1 / 2"
proof -
  have "of_int \<lfloor>y\<rfloor> \<le> y" "y < of_int \<lfloor>y\<rfloor> + 1" by linarith+
  then show ?thesis unfolding round_even_def Let_def by (auto simp: abs_le_iff)
qed

text \<open>Outside the subnormal range the unit of rounding is at most \<open>2\<^sup>-\<^sup>5\<^sup>2\<close> of the number.\<close>

lemma pow2_subnormal: "pow2 (- 1074) = 1 / 2 ^ 1022 / 2 ^ 52"
proof -
  have "pow2 (- 1022 - int 52) = pow2 (- 1022) / 2 ^ 52" by (rule pow2_minus)
  moreover have "pow2 (- int k) = 1 / 2 ^ k" for k by (cases "k = 0") (simp_all add: pow2_def)
  from this [of 1022] have "pow2 (- 1022) = 1 / 2 ^ 1022" by (simp only: of_nat_numeral)
  moreover have "(- 1022 - int 52) = - 1074" by simp
  ultimately show ?thesis by (simp only:)
qed

lemma rounding_unit:
  assumes "0 < d" and "1 / 2 ^ 1022 \<le> d"
  shows "pow2 (max (- 1074) (ilog2 d - 52)) \<le> d / 2 ^ 52"
proof (cases "ilog2 d - 52 \<le> - 1074")
  case True
  then have "max (- 1074) (ilog2 d - 52) = - 1074" by simp
  then show ?thesis using assms(2) by (simp only: pow2_subnormal) (rule divide_right_mono, simp_all only: zero_le_power zero_le_numeral)
next
  case False
  then have "pow2 (max (- 1074) (ilog2 d - 52)) = pow2 (ilog2 d) / 2 ^ 52"
    using pow2_minus [of "ilog2 d" 52] by simp
  then show ?thesis using pow2_ilog2_le [OF assms(1)] by (simp add: divide_right_mono)
qed

lemma scaled_error:
  "\<bar>of_int (round_even (d / pow2 e)) * pow2 e - d\<bar> \<le> pow2 e / 2"
proof -
  have "of_int (round_even (d / pow2 e)) * pow2 e - d =
      (of_int (round_even (d / pow2 e)) - d / pow2 e) * pow2 e"
    by (simp add: left_diff_distrib)
  then have "\<bar>of_int (round_even (d / pow2 e)) * pow2 e - d\<bar> =
      \<bar>of_int (round_even (d / pow2 e)) - d / pow2 e\<bar> * pow2 e"
    by (simp add: abs_mult less_imp_le)
  also have "\<dots> \<le> 1 / 2 * pow2 e"
    by (intro mult_right_mono round_even_error) (simp add: less_imp_le)
  finally show ?thesis by simp
qed

lemma normal_range: "1 / 2 ^ 1022 \<le> (1 / 10 ^ 20 :: rat)"
proof -
  have "(10 :: rat) ^ 20 \<le> 2 ^ 100" by simp
  also have "(2 :: rat) ^ 100 \<le> 2 ^ 1022" by (rule power_increasing) simp_all
  finally show ?thesis by (simp only: divide_simps) simp
qed

lemma dbl_error:
  assumes "0 < d" and "1 / 2 ^ 1022 \<le> d" and "dbl d = Fin q"
  shows "\<bar>q - d\<bar> \<le> d / 2 ^ 53"
proof -
  define e where "e = max (- 1074) (ilog2 d - 52)"
  have "q = of_int (round_even (d / pow2 e)) * pow2 e"
    using assms(1,3) by (simp add: dbl_def Let_def flip: e_def split: if_splits)
  then have "\<bar>q - d\<bar> \<le> pow2 e / 2" using scaled_error [of d e] by simp
  with rounding_unit [OF assms(1,2)] show ?thesis by (simp flip: e_def)
qed

lemma dbl_finite:
  assumes "0 < d" and "1 / 2 ^ 1022 \<le> d" and "d < 2 ^ 100"
  obtains q where "dbl d = Fin q"
proof -
  define e where "e = max (- 1074) (ilog2 d - 52)"
  let ?r = "of_int (round_even (d / pow2 e)) * pow2 e"
  have "pow2 e \<le> d" using rounding_unit [OF assms(1,2)] assms(1) by (simp flip: e_def)
  moreover have "?r \<le> d + pow2 e / 2" using scaled_error [of d e] by linarith
  ultimately have "?r < 2 ^ 101" using assms(1,3) by simp
  also have "(2 :: rat) ^ 101 \<le> 2 ^ 1024" by (rule power_increasing) simp_all
  finally have "\<not> 2 ^ 1024 \<le> ?r" by simp
  then show ?thesis using that assms(1) by (simp add: dbl_def Let_def flip: e_def)
qed

lemma dbl_le_twice:
  assumes "1 / 10 ^ 20 \<le> d" and "dbl d = Fin q"
  shows "q \<le> 2 * d"
proof -
  have d0: "0 < d" by (rule less_le_trans [OF _ assms(1)]) simp
  have "\<bar>q - d\<bar> \<le> d / 2 ^ 53" by (rule dbl_error [OF d0 order_trans [OF normal_range assms(1)] assms(2)])
  then have "q - d \<le> d / 2 ^ 53" by linarith
  also have "\<dots> \<le> d" using d0 by simp
  finally show ?thesis by simp
qed

section \<open>A rounded number is a double\<close>

lemma pow2_ilog2_gt:
  assumes "0 < q"
  shows "q < pow2 (ilog2 q + 1)"
proof (cases "1 \<le> q")
  case True
  then have f: "0 < \<lfloor>q\<rfloor>" by simp
  have "\<lfloor>q\<rfloor> < 2 ^ nat (ibits \<lfloor>q\<rfloor>)" using ibits_bounds [OF f] by blast
  then have "q < of_int (2 ^ nat (ibits \<lfloor>q\<rfloor>))" by (simp only: floor_less_iff)
  then show ?thesis using True ibits_bounds [OF f] by (simp add: ilog2_def pow2_def)
next
  case False
  let ?n = "\<lceil>1 / q\<rceil> - 1"
  have "1 < 1 / q" using False assms by simp
  then have n: "0 < ?n" by linarith
  have "(of_int (2 ^ nat (ibits ?n - 1)) :: rat) \<le> of_int ?n"
    using ibits_bounds [OF n] by (simp only: of_int_le_iff)
  also have "of_int ?n < 1 / q" by linarith
  finally have "q < 1 / 2 ^ nat (ibits ?n - 1)" using assms by (simp add: field_simps)
  moreover have "pow2 (1 - ibits ?n) = 1 / 2 ^ nat (ibits ?n - 1)"
    using ibits_bounds [OF n] by (auto simp: pow2_def)
  ultimately show ?thesis using False by (simp add: ilog2_def)
qed

lemma pow2_add: "pow2 (e + int k) = pow2 e * 2 ^ k"
  using pow2_minus [of "e + int k" k] by simp

lemma pow2_less:
  assumes "pow2 a < pow2 b"
  shows "a < b"
proof (rule ccontr)
  assume "\<not> a < b"
  then have "pow2 a = pow2 b * 2 ^ nat (a - b)" using pow2_add [of b "nat (a - b)"] by simp
  also have "pow2 b * 1 \<le> \<dots>" by (intro mult_left_mono) (simp_all add: less_imp_le)
  finally show False using assms by simp
qed

lemma dbl_of_repr:
  assumes q: "q = of_int N * pow2 e" and N: "0 < N" "N < 2 ^ 53" and e: "- 1074 \<le> e" and big: "q < 2 ^ 1024"
  shows "dbl q = Fin q"
proof -
  define e' where "e' = max (- 1074) (ilog2 q - 52)"
  have q0: "0 < q" using q N by simp
  have "(of_int N :: rat) < of_int (2 ^ 53)" using N(2) by (simp only: of_int_less_iff)
  then have "q < pow2 e * 2 ^ 53" unfolding q by simp
  also have "\<dots> = pow2 (e + int 53)" by (rule pow2_add [symmetric])
  finally have "pow2 (ilog2 q) < pow2 (e + int 53)" using pow2_ilog2_le [OF q0] by (rule le_less_trans [rotated])
  then have "ilog2 q < e + 53" using pow2_less by fastforce
  then have le: "e' \<le> e" using e by (simp add: e'_def)
  have "pow2 e = pow2 e' * 2 ^ nat (e - e')" using pow2_add [of e' "nat (e - e')"] le by simp
  then have "q / pow2 e' = of_int (N * 2 ^ nat (e - e'))" by (simp add: q)
  then have "of_int (round_even (q / pow2 e')) * pow2 e' = q" by (simp only: round_even_int) (metis nonzero_divide_eq_eq pow2_ne)
  then show ?thesis using q0 big by (simp add: dbl_def Let_def flip: e'_def)
qed

lemma dbl_is_double:
  assumes "0 < d" and "dbl d = Fin q"
  shows "dbl q = Fin q"
proof -
  define e where "e = max (- 1074) (ilog2 d - 52)"
  define N where "N = round_even (d / pow2 e)"
  have q: "q = of_int N * pow2 e" and big: "q < 2 ^ 1024"
    using assms by (simp_all add: dbl_def Let_def N_def not_le flip: e_def split: if_splits)
  have "d < pow2 (ilog2 d + 1)" by (rule pow2_ilog2_gt [OF assms(1)])
  also have "\<dots> \<le> pow2 (e + int 53)"
    using pow2_less [of "e + int 53" "ilog2 d + 1"] by (force simp: e_def not_le [symmetric])
  also have "\<dots> = pow2 e * 2 ^ 53" by (rule pow2_add)
  finally have "d / pow2 e < of_int (2 ^ 53)" by (simp add: field_simps)
  then have "of_int N \<le> (of_int (2 ^ 53) + 1 / 2 :: rat)"
    using round_even_bounds(2) [of "d / pow2 e"] by (simp add: N_def)
  then have N: "N \<le> 2 ^ 53" by linarith
  have "0 \<le> \<lfloor>d / pow2 e\<rfloor>" using assms(1) by (simp add: less_imp_le)
  then have "0 \<le> N" unfolding N_def using round_even_bounds(1) [of "d / pow2 e"] by (rule order_trans)
  then consider "N = 0" | "0 < N" "N < 2 ^ 53" | "N = 2 ^ 53" using N by linarith
  then show ?thesis
  proof cases
    case 1
    then show ?thesis using q by (simp add: dbl_def)
  next
    case 2
    then show ?thesis using dbl_of_repr [OF q _ _ _ big] by (simp add: e_def)
  next
    case 3
    have "q = of_int (2 ^ 52) * pow2 (e + 1)" using pow2_add [of e 1] by (simp add: q 3)
    from dbl_of_repr [OF this _ _ _ big] show ?thesis by (simp add: e_def)
  qed
qed

section \<open>Rounding to 15 digits undoes it\<close>

lemma dexp_bounds:
  assumes "0 < q"
  shows "pow10 (dexp q - 1) \<le> q" and "q < pow10 (dexp q)"
proof -
  show "pow10 (dexp q - 1) \<le> q"
  proof (cases "1 \<le> q")
    case True
    then have f: "0 < \<lfloor>q\<rfloor>" by simp
    have "(of_int (10 ^ nat (dlen \<lfloor>q\<rfloor> - 1)) :: rat) \<le> of_int \<lfloor>q\<rfloor>"
      using dlen_bounds [OF f] by (simp only: of_int_le_iff)
    also have "\<dots> \<le> q" by simp
    finally show ?thesis using True dlen_bounds [OF f] by (simp add: dexp_def pow10_def)
  next
    case False
    let ?n = "\<lceil>1 / q\<rceil> - 1"
    have "1 < 1 / q" using False assms by simp
    then have n: "0 < ?n" by linarith
    have "\<lceil>1 / q\<rceil> \<le> 10 ^ nat (dlen ?n)" using dlen_bounds [OF n] by linarith
    then have "1 / q \<le> of_int (10 ^ nat (dlen ?n))" by (simp only: ceiling_le_iff)
    then have "1 / 10 ^ nat (dlen ?n) \<le> q" using assms by (simp add: field_simps)
    moreover have "pow10 (- dlen ?n) = 1 / 10 ^ nat (dlen ?n)" using dlen_bounds [OF n] by (simp add: pow10_def)
    ultimately show ?thesis using False by (simp add: dexp_def)
  qed
  show "q < pow10 (dexp q)"
  proof (cases "1 \<le> q")
    case True
    then have f: "0 < \<lfloor>q\<rfloor>" by simp
    have "\<lfloor>q\<rfloor> < 10 ^ nat (dlen \<lfloor>q\<rfloor>)" using dlen_bounds [OF f] by blast
    then have "q < of_int (10 ^ nat (dlen \<lfloor>q\<rfloor>))" by (simp only: floor_less_iff)
    then show ?thesis using True dlen_bounds [OF f] by (simp add: dexp_def pow10_def)
  next
    case False
    let ?n = "\<lceil>1 / q\<rceil> - 1"
    have "1 < 1 / q" using False assms by simp
    then have n: "0 < ?n" by linarith
    have "(of_int (10 ^ nat (dlen ?n - 1)) :: rat) \<le> of_int ?n"
      using dlen_bounds [OF n] by (simp only: of_int_le_iff)
    also have "of_int ?n < 1 / q" by linarith
    finally have "q < 1 / 10 ^ nat (dlen ?n - 1)" using assms by (simp add: field_simps)
    moreover have "pow10 (1 - dlen ?n) = 1 / 10 ^ nat (dlen ?n - 1)"
      using dlen_bounds [OF n] by (auto simp: pow10_def)
    ultimately show ?thesis using False by (simp add: dexp_def)
  qed
qed

lemma pow10_mono: "e \<le> f \<Longrightarrow> pow10 e \<le> pow10 f"
proof -
  assume le: "e \<le> f"
  have "1 * pow10 e \<le> of_int (10 ^ nat (f - e)) * pow10 e"
    by (intro mult_right_mono) (simp_all add: less_imp_le)
  then show ?thesis using pow10_diff [OF le] by simp
qed

lemma find_upto_le:
  assumes "find P [a..b] = Some k" and "P j" and "a \<le> j" and "j \<le> b"
  shows "k \<le> j"
proof (rule ccontr)
  assume less: "\<not> k \<le> j"
  obtain i where i: "i < length [a..b]" "k = [a..b] ! i" "\<forall>j'<i. \<not> P ([a..b] ! j')"
    using assms(1) by (auto simp: find_Some_iff)
  then have "k = a + int i" by (simp add: nth_upto)
  with less i have "nat (j - a) < i" and "[a..b] ! nat (j - a) = j" using assms(3,4) by (auto simp: nth_upto)
  with i(3) assms(2) show False by auto
qed

lemma near_half: "0 < d \<Longrightarrow> \<bar>q - d\<bar> \<le> d / 2 ^ 53 \<Longrightarrow> d / 2 \<le> (q :: rat)"
proof -
  assume d: "0 < d" and "\<bar>q - d\<bar> \<le> d / 2 ^ 53"
  then have "d - q \<le> d / 2 ^ 53" by linarith
  also have "\<dots> \<le> d / 2" using d by simp
  finally show ?thesis by simp
qed

lemma sd_round_near:
  assumes m: "0 < m" "m < 10 ^ 15" and d: "d = of_int m * pow10 e"
    and q: "0 < q" and near: "\<bar>q - d\<bar> \<le> d / 2 ^ 53"
  shows "sd_round 15 q = d"
proof -
  define u where "u = pow10 (dexp q - 15)"
  have u0: "0 < u" by (simp add: u_def)
  have top: "pow10 (dexp q) = 10 ^ 15 * u"
    using pow10_diff [of "dexp q - 15" "dexp q"] by (simp add: u_def)
  have d0: "0 < d" using m d by simp
  have le: "dexp q - 15 \<le> e"
  proof (rule ccontr)
    assume "\<not> dexp q - 15 \<le> e"
    then have "e + 15 \<le> dexp q - 1" by simp
    then have "pow10 (e + 15) \<le> pow10 (dexp q - 1)" by (rule pow10_mono)
    moreover have "pow10 (e + 15) = 10 ^ 15 * pow10 e" using pow10_diff [of e "e + 15"] by simp
    ultimately have "10 ^ 15 * pow10 e \<le> q" using dexp_bounds(1) [OF q] by linarith
    moreover have "(of_int m :: rat) \<le> of_int (10 ^ 15 - 1)" using m(2) by (simp only: of_int_le_iff)
    then have "d \<le> (10 ^ 15 - 1) * pow10 e"
      unfolding d by (intro mult_right_mono) (simp_all add: less_imp_le)
    ultimately have "pow10 e \<le> q - d" "d \<le> 10 ^ 15 * pow10 e - pow10 e" by (simp_all add: algebra_simps)
    moreover have "q - d \<le> d / 2 ^ 53" using near by linarith
    ultimately show False using pow10_pos [of e] by simp
  qed
  define c where "c = m * 10 ^ nat (e - (dexp q - 15))"
  have c: "d = of_int c * u" using pow10_diff [OF le] by (simp add: d c_def u_def)
  have "d \<le> 2 * q" using near_half [OF d0 near] by simp
  then have "\<bar>q - d\<bar> \<le> 2 * q / 2 ^ 53" using near by simp
  also have "\<dots> < u / 2" using dexp_bounds(2) [OF q] top u0 by simp
  finally have "\<bar>q - d\<bar> < u / 2" .
  then have "\<bar>q / u - of_int c\<bar> < 1 / 2"
    using u0 by (simp add: c abs_less_iff field_simps)
  then have "\<lfloor>q / u + 1 / 2\<rfloor> = c" by (intro floor_unique) linarith+
  then show ?thesis using q c by (simp add: sd_round_def Let_def flip: u_def)
qed

lemma sd_round_parts:
  assumes q: "0 < q" and k: "0 < k"
  obtains f where "sd_round k q = of_int f * pow10 (dexp q - k)" and "f \<le> 10 ^ nat k"
    and "q / 2 \<le> sd_round k q"
proof -
  define u where "u = pow10 (dexp q - k)"
  define f where "f = \<lfloor>q / u + 1 / 2\<rfloor>"
  have u0: "0 < u" by (simp add: u_def)
  have "pow10 (dexp q) = 10 ^ nat k * u"
    using pow10_diff [of "dexp q - k" "dexp q"] k by (simp add: u_def)
  then have "q / u < of_int (10 ^ nat k)"
    using dexp_bounds(2) [OF q] u0 by (simp add: field_simps)
  then have f: "f \<le> 10 ^ nat k" unfolding f_def by linarith
  have "u \<le> pow10 (dexp q - 1)" unfolding u_def by (rule pow10_mono) (use k in simp)
  then have "u \<le> q" using dexp_bounds(1) [OF q] by linarith
  moreover have "q / u - 1 / 2 \<le> of_int f" unfolding f_def by linarith
  then have "(q / u - 1 / 2) * u \<le> of_int f * u" using u0 by (intro mult_right_mono) auto
  then have "q - u / 2 \<le> of_int f * u" using u0 by (simp add: left_diff_distrib)
  ultimately have "q / 2 \<le> of_int f * u" by linarith
  moreover have "sd_round k q = of_int f * u"
    using q by (simp add: sd_round_def Let_def f_def flip: u_def)
  ultimately show ?thesis using that [of f, folded u_def] f by simp
qed

text \<open>The theorem: 15 significant digits come back as they went in.\<close>

lemma shortest_15:
  assumes m: "0 < m" "m < 10 ^ 15" and d: "d = of_int m * pow10 e"
    and small: "1 / 10 ^ 20 \<le> d" and q: "dbl d = Fin q"
  shows "shortest q = d" and "0 < q"
proof -
  have d0: "0 < d" using m d by simp
  define t :: rat where "t = 1 / 2 ^ 1022"
  have "(4 :: rat) * 10 ^ 20 \<le> 2 ^ 100" by simp
  also have "(2 :: rat) ^ 100 \<le> 2 ^ 1022" by (rule power_increasing) simp_all
  finally have tiny: "4 * t \<le> 1 / 10 ^ 20" unfolding t_def by (simp only: divide_simps) simp
  have t0: "0 < t" by (simp add: t_def)
  note error = dbl_error [folded t_def]
  have near: "\<bar>q - d\<bar> \<le> d / 2 ^ 53"
    by (rule error [OF d0 _ q]) (use small tiny t0 in linarith)
  then have half: "d / 2 \<le> q" by (rule near_half [OF d0])
  show q0: "0 < q" using d0 half by linarith
  have r15: "sd_round 15 q = d" by (rule sd_round_near [OF m d q0 near])
  have "find (\<lambda>k. dbl (sd_round k q) = Fin q) [1..17] \<noteq> None"
    using r15 q by (auto simp: find_None_iff intro!: exI [of _ 15])
  then obtain k where k: "find (\<lambda>k. dbl (sd_round k q) = Fin q) [1..17] = Some k" by blast
  have kq: "dbl (sd_round k q) = Fin q" and "k \<in> {1..17}"
    using k by (auto simp: find_Some_iff dest: nth_mem)
  have "k \<le> 15" using find_upto_le [OF k] r15 q by simp
  have "sd_round k q = d"
  proof (cases "k = 15")
    case False
    with \<open>k \<le> 15\<close> \<open>k \<in> {1..17}\<close> have k0: "0 < k" "k < 15" by auto
    obtain f where f: "sd_round k q = of_int f * pow10 (dexp q - k)" "f \<le> 10 ^ nat k" "q / 2 \<le> sd_round k q"
      using sd_round_parts [OF q0 k0(1)] .
    have pos: "0 < sd_round k q" using f(3) q0 by linarith
    then have "0 < f" using f(1) pow10_pos [of "dexp q - k"] by (simp add: zero_less_mult_iff)
    have "(10 :: int) ^ nat k < 10 ^ 15" using k0 by (intro power_strict_increasing) auto
    then have "f < 10 ^ 15" using f(2) by linarith
    have "t \<le> sd_round k q" using f(3) half small tiny by linarith
    from sd_round_near [OF \<open>0 < f\<close> \<open>f < 10 ^ 15\<close> f(1) q0 error [OF pos this kq]]
    show ?thesis using r15 by simp
  qed (simp add: r15)
  then show "shortest q = d" using k by (simp add: shortest_def)
qed

end
