(* ===== verification/Web_NumberInput.thy ===== *)
theory Web_NumberInput
  imports Web_Math Js_Decimal
begin

text \<open>
  \<open>dashboard/web/components/widget/NumberInput.vue\<close>: a text field with a slider beside it and
  two buttons that step the slider's value. The record holds the properties and the data of the
  component; \<open>ni_emitted\<close> logs the values of its \<open>input\<close> events, newest last. Messages are named by
  their keys in the translation table.
\<close>

section \<open>The component\<close>

record number_input =
  ni_min :: jsnum
  ni_max :: jsnum
  ni_numberMin :: jsnum
  ni_numberMax :: jsnum
  ni_step :: jsnum
  ni_val :: jsval
  ni_emitted :: "jsval list"

definition MAX_SAFE_INTEGER :: int where
  "MAX_SAFE_INTEGER = 2 ^ 53 - 1"

text \<open>The component as created, with the defaults of the properties.\<close>

definition number_input_init :: "jsval \<Rightarrow> number_input" where
  "number_input_init value = \<lparr>
     ni_min = Fin 0, ni_max = Fin 1, ni_numberMin = Fin 0,
     ni_numberMax = Fin (of_int MAX_SAFE_INTEGER), ni_step = dbl (1 / 100),
     ni_val = value, ni_emitted = []\<rparr>"

fun num_div :: "jsnum \<Rightarrow> jsnum \<Rightarrow> jsnum" where
  "num_div (Fin a) (Fin b) =
     (if b \<noteq> 0 then dbl (a / b) else if a = 0 then NaN else if 0 < a then PInf else NInf)"
| "num_div NaN _ = NaN"
| "num_div _ NaN = NaN"
| "num_div (Fin _) _ = Fin 0"
| "num_div PInf (Fin b) = (if 0 \<le> b then PInf else NInf)"
| "num_div NInf (Fin b) = (if 0 \<le> b then NInf else PInf)"
| "num_div _ _ = NaN"

definition color :: "number_input \<Rightarrow> string" where
  "color ni =
     (let r = num_div (to_number (ni_val ni)) (ni_max ni) in
      if num_lt r (dbl (1 / 10)) then ''grey''
      else if num_lt r (dbl (4 / 10)) then ''green''
      else if num_lt r (dbl (6 / 10)) then ''indigo''
      else if num_lt r (dbl (8 / 10)) then ''orange''
      else ''red'')"

datatype rule_result = Valid | Message string

text \<open>The rule of the text field; \<open>None\<close> if the \<open>Decimal\<close> constructor throws.\<close>

definition number_rule :: "decimaljs \<Rightarrow> number_input \<Rightarrow> jsval \<Rightarrow> rule_result option" where
  "number_rule D ni v =
     (if js_seq v (JStr []) then Some (Message ''NUMBER_FIELD_ERROR'')
      else let num = to_number v in
        if num = NaN then Some (Message ''NUMBER_FIELD_ERROR'')
        else if num_lt num (Fin 0) then Some (Message ''POSITIVE_NUMBER_FIELD_ERROR'')
        else if num_lt num (ni_numberMin ni) then Some (Message ''NUMBER_MIN_ERROR'')
        else if num_lt (ni_numberMax ni) num then Some (Message ''NUMBER_MAX_ERROR'')
        else case d_new D (JNum num) of
          None \<Rightarrow> None
        | Some x \<Rightarrow>
            (if num_lt (Fin (of_int NKN_DP_LENGTH)) (d_dp D x) then Some (Message ''NUMBER_DP_ERROR'')
             else Some Valid))"

definition ni_emit :: "jsval \<Rightarrow> number_input \<Rightarrow> number_input" where
  "ni_emit v ni = ni\<lparr>ni_emitted := ni_emitted ni @ [v]\<rparr>"

definition onInput :: "number_input \<Rightarrow> jsval \<Rightarrow> number_input" where
  "onInput ni v =
     (let ni = ni_emit v ni; num = js_parseFloat (js_text v) in
      if num_lt num (ni_min ni) then ni\<lparr>ni_val := JNum (ni_min ni)\<rparr>
      else if num_lt (ni_max ni) num then ni\<lparr>ni_val := JNum (ni_max ni)\<rparr>
      else ni\<lparr>ni_val := JNum num\<rparr>)"

text \<open>The watcher of the property \<open>value\<close>.\<close>

definition ni_watch_value :: "number_input \<Rightarrow> jsval \<Rightarrow> number_input" where
  "ni_watch_value ni v = onInput ni v"

definition onValueChange :: "number_input \<Rightarrow> number_input" where
  "onValueChange ni = ni_emit (ni_val ni) ni"

definition decrement :: "decimaljs \<Rightarrow> number_input \<Rightarrow> number_input option" where
  "decrement D ni =
     (if num_le (to_number (ni_val ni)) (ni_min ni) then Some ni
      else map_option (\<lambda>d. onValueChange (ni\<lparr>ni_val := JNum (d_toNumber D d)\<rparr>))
             (sub_dec D (Raw (ni_val ni)) (Raw (JNum (ni_step ni)))))"

definition increment :: "decimaljs \<Rightarrow> number_input \<Rightarrow> number_input option" where
  "increment D ni =
     (if num_le (ni_max ni) (to_number (ni_val ni)) then Some ni
      else map_option (\<lambda>d. onValueChange (ni\<lparr>ni_val := JNum (d_toNumber D d)\<rparr>))
             (add_dec D (Raw (ni_val ni)) (Raw (JNum (ni_step ni)))))"

section \<open>Amounts with few digits\<close>

text \<open>A positive multiple of \<open>10\<^sup>-\<^sup>8\<close> below ten million, as a double and back.\<close>

lemma amount_double:
  assumes "0 < n" and "n < 10 ^ 15" and "j \<le> 8"
  obtains q where "dbl (of_int n / 10 ^ j) = Fin q" and "shortest q = of_int n / 10 ^ j"
    and "0 < q" and "is_double q"
proof -
  let ?d = "of_int n / 10 ^ j :: rat"
  have e: "?d = of_int n * pow10 (- int j)" by (simp add: pow10_def)
  have "(1 :: rat) \<le> of_int n" using assms(1) by simp
  then have "1 / 10 ^ j \<le> ?d" by (intro divide_right_mono) simp_all
  moreover have "(1 :: rat) / 10 ^ 20 \<le> 1 / 10 ^ j"
    using assms(3) by (intro divide_left_mono power_increasing) simp_all
  ultimately have small: "1 / 10 ^ 20 \<le> ?d" by linarith
  have normal: "1 / 2 ^ 1022 \<le> ?d" by (rule order_trans [OF normal_range small])
  have d0: "0 < ?d" using assms(1) by simp
  have "(of_int n :: rat) < of_int (10 ^ 15)" using assms(2) by (simp only: of_int_less_iff)
  moreover have "?d \<le> of_int n" using assms(1) by (simp add: divide_le_eq)
  ultimately have "?d < 2 ^ 100" by simp
  with dbl_finite [OF d0 normal] obtain q where q: "dbl ?d = Fin q" by blast
  have s: "shortest q = ?d" and q0: "0 < q" using shortest_15 [OF assms(1,2) e small q] by simp_all
  have "is_double q" unfolding is_double_def by (rule dbl_is_double [OF d0 q])
  with that q s q0 show ?thesis by blast
qed

lemma sd_round_minus: "sd_round k (- q) = - sd_round k q"
  by (simp add: sd_round_def Let_def)

section \<open>Reading plain decimals\<close>

lemma plain_heads:
  assumes "plain_dec s" and "s \<noteq> []"
  shows "numeral_char (hd s)" and "numeral_char (last s)"
  using assms hd_in_set [OF assms(2)] last_in_set [OF assms(2)]
  by (auto simp: plain_dec_def numeral_char_def)

lemma plain_letters:
  assumes "plain_dec s"
  shows "CHR ''x'' \<notin> set s" "CHR ''X'' \<notin> set s" "CHR ''o'' \<notin> set s" "CHR ''O'' \<notin> set s"
    "CHR ''b'' \<notin> set s" "CHR ''B'' \<notin> set s" "CHR ''I'' \<notin> set s"
  using assms by (auto simp: plain_dec_def is_digit_def)

lemma take_mem: "take n s = cs \<Longrightarrow> c \<in> set cs \<Longrightarrow> c \<in> set s"
  by (auto dest: in_set_takeD)

lemma plain_radix:
  assumes "plain_dec s"
  shows "radix_prefix s = None"
proof -
  have "take 2 s \<noteq> [CHR ''0'', c]" if "c \<notin> set s" for c
    using take_mem [of 2 s "[CHR ''0'', c]" c] that by auto
  then show ?thesis unfolding radix_prefix_def using plain_letters [OF assms] by simp
qed

lemma plain_not_inf: "plain_dec s \<Longrightarrow> take 8 s \<noteq> ''Infinity''"
  using take_mem [of 8 s "''Infinity''" "CHR ''I''"] plain_letters(7) [of s] by auto

lemma js_Number_plain:
  assumes "plain_dec s" and "s \<noteq> []" and "scan_udec s = Some (q, [])"
  shows "js_Number s = dbl q"
  using assms js_trim_numeral [of s] plain_heads [OF assms(1,2)] plain_not_inf [OF assms(1)]
  by (auto simp: js_Number_def plain_radix plain_no_sign)

lemma js_parseFloat_plain:
  assumes "plain_dec s" and "s \<noteq> []" and "scan_udec s = Some (q, [])"
  shows "js_parseFloat s = dbl q"
  using assms js_trim_numeral [of s] plain_heads [OF assms(1,2)] plain_not_inf [OF assms(1)]
  by (auto simp: js_parseFloat_def plain_no_sign)

lemma plain_text_amount:
  assumes "0 \<le> n"
  shows "plain_dec (plain_text (of_int n / 10 ^ j))"
    and "scan_udec (plain_text (of_int n / 10 ^ j)) = Some (of_int n / 10 ^ j, [])"
proof -
  let ?q = "of_int n / 10 ^ j :: rat"
  have q: "0 \<le> ?q" "finite_dec ?q" using assms finite_decI [OF refl] by simp_all
  show "plain_dec (plain_text ?q)" by (rule plain_text_plain [OF q])
  show "scan_udec (plain_text ?q) = Some (?q, [])"
    using plain_text_read [OF q, of "[]"] by (simp add: stops_def)
qed

context decimaljs_std
begin

lemma new_amount:
  assumes "0 \<le> n" and "n < 10 ^ 15" and "j \<le> 8"
  obtains q where "dbl (of_int n / 10 ^ j) = Fin q" and "0 \<le> q"
    and "d_new D (JNum (Fin q)) = Some (Fin (of_int n / 10 ^ j))"
proof (cases "n = 0")
  case True
  then show ?thesis using that [of 0] new_zero by (simp add: dbl_def)
next
  case False
  with assms(1) have "0 < n" by simp
  then obtain q where q: "dbl (of_int n / 10 ^ j) = Fin q" "shortest q = of_int n / 10 ^ j"
      "0 < q" "is_double q"
    using amount_double [OF _ assms(2,3)] by blast
  show ?thesis by (rule that [OF q(1)]) (use new_num [OF q(4,3)] q(2,3) in simp_all)
qed

lemma sum_amounts:
  assumes "0 \<le> a + b" and "a + b < 10 ^ 15" and "j \<le> 5"
  shows "sd_round 20 (of_int a / 10 ^ j + of_int b / 10 ^ j) = (of_int (a + b) / 10 ^ j :: rat)"
proof -
  have "(of_int (a + b) :: rat) < of_int (10 ^ 15)" using assms(2) by (simp only: of_int_less_iff)
  moreover have "(of_int (a + b) :: rat) / 10 ^ j \<le> of_int (a + b) / 1"
    by (rule divide_left_mono) (use assms(1) in \<open>simp_all only: of_int_0_le_iff one_le_power zero_less_power one_le_numeral zero_less_numeral mult_1 mult_1_right\<close>)
  ultimately have "of_int (a + b) / (10 :: rat) ^ j < 10 ^ 15" by simp
  from sd_round_small [OF assms(1) this, of 20] assms(3) show ?thesis by (simp add: add_divide_distrib)
qed

lemma step_up:
  assumes "0 \<le> n" and "0 \<le> s" and "n + s < 10 ^ 15" and "j \<le> 5"
    and "ni_val ni = JNum (dbl (of_int n / 10 ^ j))" and "ni_step ni = dbl (of_int s / 10 ^ j)"
    and "\<not> num_le (ni_max ni) (to_number (ni_val ni))"
  shows "increment D ni = Some (onValueChange (ni\<lparr>ni_val := JNum (dbl (of_int (n + s) / 10 ^ j))\<rparr>))"
proof -
  obtain q where q: "dbl (of_int n / 10 ^ j) = Fin q" "d_new D (JNum (Fin q)) = Some (Fin (of_int n / 10 ^ j))"
    using new_amount [of n j] assms(1-4) by auto
  obtain r where r: "dbl (of_int s / 10 ^ j) = Fin r" "d_new D (JNum (Fin r)) = Some (Fin (of_int s / 10 ^ j))"
    using new_amount [of s j] assms(1-4) by auto
  show ?thesis
    using assms q r sum_amounts [of n s j]
    by (simp add: increment_def add_dec_def d_op_def add_law toNumber_law)
qed

lemma step_down:
  assumes "0 \<le> s" and "s \<le> n" and "n < 10 ^ 15" and "j \<le> 5"
    and "ni_val ni = JNum (dbl (of_int n / 10 ^ j))" and "ni_step ni = dbl (of_int s / 10 ^ j)"
    and "\<not> num_le (to_number (ni_val ni)) (ni_min ni)"
  shows "decrement D ni = Some (onValueChange (ni\<lparr>ni_val := JNum (dbl (of_int (n - s) / 10 ^ j))\<rparr>))"
proof -
  obtain q where q: "dbl (of_int n / 10 ^ j) = Fin q" "d_new D (JNum (Fin q)) = Some (Fin (of_int n / 10 ^ j))"
    using new_amount [of n j] assms(1-4) by auto
  obtain r where r: "dbl (of_int s / 10 ^ j) = Fin r" "d_new D (JNum (Fin r)) = Some (Fin (of_int s / 10 ^ j))"
    using new_amount [of s j] assms(1-4) by auto
  show ?thesis
    using assms q r sum_amounts [of n "- s" j]
    by (simp add: decrement_def sub_dec_def d_op_def sub_law toNumber_law)
qed

lemma rule_accepts_amount:
  assumes "0 \<le> n" and "n < 10 ^ 15" and "ni_numberMin ni = Fin 0"
    and "ni_numberMax ni = Fin (of_int MAX_SAFE_INTEGER)"
    and "\<not> js_seq v (JStr [])" and "to_number v = dbl (of_int n / 10 ^ 8)"
  shows "number_rule D ni v = Some Valid"
proof -
  let ?d = "of_int n / 10 ^ 8 :: rat"
  obtain q where q: "dbl ?d = Fin q" "0 \<le> q" "d_new D (JNum (Fin q)) = Some (Fin ?d)"
    using new_amount [OF assms(1,2), of 8] by auto
  have dp: "d_dp D (Fin ?d) = Fin (of_nat (decimals ?d))" by (rule dp_law [OF finite_decI [OF refl]])
  have "decimals ?d \<le> 8" by (rule decimals_le [OF refl])
  then have few: "\<not> num_lt (Fin (of_int NKN_DP_LENGTH)) (Fin (of_nat (decimals ?d)))"
    by (simp add: NKN_DP_LENGTH_def)
  have "q \<le> of_int MAX_SAFE_INTEGER"
  proof (cases "n = 0")
    case True
    then show ?thesis using q(1) by (simp add: dbl_def MAX_SAFE_INTEGER_def)
  next
    case False
    have "(of_int n :: rat) < of_int (10 ^ 15)" using assms(2) by (simp only: of_int_less_iff)
    moreover have "q \<le> 2 * ?d" by (rule dbl_le_twice [OF _ q(1)]) (use False assms(1) in simp_all)
    ultimately show ?thesis by (simp add: MAX_SAFE_INTEGER_def)
  qed
  then show ?thesis
    using assms(3-6) q few dp by (simp add: number_rule_def Let_def)
qed

lemma rule_accepts_int:
  assumes "0 \<le> n" and "n < 10 ^ 7" and "ni_numberMin ni = Fin 0"
    and "ni_numberMax ni = Fin (of_int MAX_SAFE_INTEGER)"
  shows "number_rule D ni (JInt n) = Some Valid"
  using rule_accepts_amount [of "n * 10 ^ 8" ni "JInt n"] dbl_int [of n] assms by simp

lemma parseFee_amount:
  assumes "0 \<le> n" and "n < 10 ^ 15"
  shows "parseFee D (JNum (dbl (of_int n / 10 ^ 8))) = Some (JInt n)"
proof -
  obtain q where q: "dbl (of_int n / 10 ^ 8) = Fin q" "d_new D (JNum (Fin q)) = Some (Fin (of_int n / 10 ^ 8))"
    using new_amount [OF assms, of 8] by auto
  have "n = 0" if "q = 0"
    by (rule ccontr) (rule amount_double [of n 8], use assms q(1) that in auto)
  moreover have "dbl (of_int n / 10 ^ 8 * 10 ^ 8) = Fin (of_int n)"
    using dbl_int [of n] assms by simp
  moreover have "(of_int n :: rat) < of_int (10 ^ 15)" using assms(2) by (simp only: of_int_less_iff)
  then have "sd_round 20 (of_int n) = (of_int n :: rat)"
    using sd_round_small [OF assms(1), of 0 15 20] by simp
  ultimately show ?thesis
    using q by (auto simp: parseFee_def newNum_def acc_mul mul_dec_def d_op_def mul_law toNumber_law)
qed

text \<open>An amount as the settings page shows it: it reads back, and the field's rule accepts it.\<close>

lemma fee_shown:
  assumes "0 \<le> n" and "n < 10 ^ 15"
  shows "\<exists>v. formatFee D (JInt n) = Some v \<and> parseFee D v = Some (JInt n) \<and>
    (\<forall>ni. ni_numberMin ni = Fin 0 \<longrightarrow> ni_numberMax ni = Fin (of_int MAX_SAFE_INTEGER) \<longrightarrow>
       number_rule D ni v = Some Valid)"
proof (cases "n = 0")
  case True
  then show ?thesis using rule_accepts_int [of 0] by (simp add: formatFee_def parseFee_def)
next
  case False
  let ?s = "plain_text (of_int n / 10 ^ 8)"
  have "js_Number ?s = dbl (of_int n / 10 ^ 8)"
    by (rule js_Number_plain [OF plain_text_amount(1) plain_text_ne plain_text_amount(2)]) (rule assms(1))+
  then have "number_rule D ni (JStr ?s) = Some Valid"
    if "ni_numberMin ni = Fin 0" "ni_numberMax ni = Fin (of_int MAX_SAFE_INTEGER)" for ni
    using rule_accepts_amount [OF assms that, of "JStr ?s"] plain_text_ne by simp
  moreover have "formatFee D (JInt n) = Some (JStr ?s)" using formatFee_int [of n] False assms by simp
  ultimately show ?thesis using parseFee_text [OF assms] by blast
qed

end

lemma half_double: "dbl (1 / 2) = Fin (1 / 2)"
  using dbl_of_repr [of "1 / 2" 1 "- 1"] by (simp add: pow2_def)

lemma new_half: "d_new std_decimaljs (JNum (Fin (1 / 2))) = Some (Fin (1 / 2))"
proof -
  have d: "of_int 5 / 10 ^ 1 = (1 / 2 :: rat)" by simp
  obtain q where q: "dbl (1 / 2) = Fin q" "d_new std_decimaljs (JNum (Fin q)) = Some (Fin (1 / 2))"
    by (rule std_dec.new_amount [of 5 1, unfolded d]) simp_all
  from q(1) half_double have "q = 1 / 2" by simp
  with q(2) show ?thesis by (simp only:)
qed

lemma sd_round_minus_half: "sd_round 20 (- 1 / 2) = - 1 / 2"
  using sd_round_small [of 5 1 1 20] sd_round_minus [of 20 "1 / 2"] by simp

section \<open>Properties\<close>

text \<open>
  What the rule of a number field accepts is a finite number that is not negative, lies
  between \<open>numberMin\<close> and \<open>numberMax\<close>, and, written out in full, has at most eight decimals.
\<close>

theorem number_rule_sound:
  assumes "decimaljs_std D" and "number_rule D ni v = Some Valid"
    and "ni_numberMin ni = Fin lo" and "ni_numberMax ni = Fin hi"
    and "\<And>q. to_number v = Fin q \<Longrightarrow> is_double q"
  shows "\<exists>q. to_number v = Fin q \<and> 0 \<le> q \<and> lo \<le> q \<and> q \<le> hi \<and>
    (0 < q \<longrightarrow> decimals (shortest q) \<le> 8)"
proof -
  note rule = assms(2) [unfolded number_rule_def Let_def]
  obtain q where x: "to_number v = Fin q" and b: "0 \<le> q" "lo \<le> q" "q \<le> hi"
    using rule assms(3,4) by (cases "to_number v") (simp_all split: if_splits)
  moreover have "decimals (shortest q) \<le> 8" if q0: "0 < q"
  proof -
    have dq: "is_double q" by (rule assms(5) [OF x])
    have "d_dp D (Fin (shortest q)) = Fin (of_nat (decimals (shortest q)))"
      by (rule decimaljs_std.dp_law [OF assms(1) shortest_props(2) [OF dq q0]])
    then show ?thesis
      using rule x decimaljs_std.new_num [OF assms(1) dq q0]
      by (simp add: NKN_DP_LENGTH_def split: if_splits)
  qed
  ultimately show ?thesis by blast
qed

theorem number_rule_sound_witness:
  "\<exists>q. to_number (JInt 7) = Fin q \<and> 0 \<le> q \<and> 0 \<le> q \<and> q \<le> of_int MAX_SAFE_INTEGER \<and>
    (0 < q \<longrightarrow> decimals (shortest q) \<le> 8)"
proof (rule number_rule_sound [OF std_decimaljs_ok])
  let ?ni = "number_input_init (JInt 0)"
  show "number_rule std_decimaljs ?ni (JInt 7) = Some Valid"
    by (rule std_dec.rule_accepts_amount [of 700000000])
       (use dbl_int [of 7] in \<open>simp_all add: number_input_init_def\<close>)
qed (use dbl_int [of 7] in \<open>auto simp: number_input_init_def is_double_def\<close>)

text \<open>
  Typing never moves the slider out of its range: after \<open>onInput\<close> the slider's value lies
  between \<open>min\<close> and \<open>max\<close> whenever the text reads as a number, it is that number if it was in
  range already, and the text itself is passed on unchanged to the parent exactly once.
\<close>

theorem onInput_clamps:
  assumes "ni_min ni = Fin lo" and "ni_max ni = Fin hi" and "lo \<le> hi"
    and "js_parseFloat (js_text v) = Fin q"
  shows "ni_val (onInput ni v) = JNum (Fin (max lo (min hi q))) \<and>
    ni_emitted (onInput ni v) = ni_emitted ni @ [v]"
  using assms by (auto simp: onInput_def ni_emit_def Let_def max_def min_def)

theorem onInput_clamps_witness:
  "ni_val (onInput (number_input_init (JInt 0)) (JInt 42)) = JNum (Fin (max 0 (min 1 42))) \<and>
   ni_emitted (onInput (number_input_init (JInt 0)) (JInt 42)) = [] @ [JInt 42]"
proof -
  have "js_parseFloat (js_text (JInt 42)) = Fin 42"
    using js_parseFloat_plain [OF plain_text_amount(1) plain_text_ne plain_text_amount(2), of 42 0]
      plain_text_int [of 42] dbl_int [of 42] num_text_int [of 42] by (simp del: dbl_int num_text_int)
  from onInput_clamps [of "number_input_init (JInt 0)" 0 1, OF _ _ _ this] show ?thesis
    by (simp add: number_input_init_def)
qed

text \<open>
  C40: stepping does not drift. A field that shows \<open>n\<close> hundredths (the double nearest to it) and is
  stepped up by \<open>0.01\<close> shows and emits exactly the double nearest to \<open>n + 1\<close> hundredths, and
  stepping down leads back: the binary error of \<open>0.01\<close> never accumulates, for any number of clicks.
\<close>

theorem hundredths_do_not_drift:
  assumes "decimaljs_std D" and "0 \<le> n" and "n + 1 < 10 ^ 15"
    and "ni_val ni = JNum (dbl (of_int n / 10 ^ 2))" and "ni_step ni = dbl (1 / 100)"
    and "\<not> num_le (ni_max ni) (to_number (ni_val ni))"
    and "\<not> num_le (dbl (of_int (n + 1) / 10 ^ 2)) (ni_min ni)"
  shows "\<exists>up. increment D ni = Some up \<and>
    ni_val up = JNum (dbl (of_int (n + 1) / 10 ^ 2)) \<and> ni_emitted up = ni_emitted ni @ [ni_val up] \<and>
    (\<exists>down. decrement D up = Some down \<and> ni_val down = ni_val ni)"
proof -
  let ?v = "JNum (dbl (of_int (n + 1) / 10 ^ 2))"
  let ?up = "onValueChange (ni\<lparr>ni_val := ?v\<rparr>)"
  have step: "ni_step ni = dbl (of_int 1 / 10 ^ 2)" using assms(5) by simp
  have up: "increment D ni = Some ?up"
    by (rule decimaljs_std.step_up [OF assms(1,2) _ assms(3) _ assms(4) step assms(6)]) simp_all
  have "decrement D ?up = Some (onValueChange (?up\<lparr>ni_val := JNum (dbl (of_int (n + 1 - 1) / 10 ^ 2))\<rparr>))"
    by (rule decimaljs_std.step_down [OF assms(1)])
       (use assms(2,3,7) step in \<open>simp_all add: onValueChange_def ni_emit_def\<close>)
  then show ?thesis using up assms(4) by (simp add: onValueChange_def ni_emit_def)
qed

theorem hundredths_do_not_drift_witness:
  "\<exists>up. increment std_decimaljs (number_input_init (JNum (dbl (of_int 25 / 10 ^ 2)))) = Some up \<and>
    ni_val up = JNum (dbl (of_int (25 + 1) / 10 ^ 2)) \<and> ni_emitted up = [] @ [ni_val up] \<and>
    (\<exists>down. decrement std_decimaljs up = Some down \<and> ni_val down = JNum (dbl (of_int 25 / 10 ^ 2)))"
proof -
  let ?ni = "number_input_init (JNum (dbl (of_int 25 / 10 ^ 2)))"
  have q: "dbl (of_int 25 / 10 ^ 2) = Fin (1 / 4)"
    using dbl_of_repr [of "1 / 4" 1 "- 2"] by (simp add: pow2_def)
  obtain r where r: "dbl (of_int (25 + 1) / 10 ^ 2) = Fin r" "0 < r"
    using amount_double [of "25 + 1" 2] by auto
  have "\<not> num_le (ni_max ?ni) (to_number (ni_val ?ni))"
    unfolding q by (simp add: number_input_init_def num_le_def)
  moreover have "\<not> num_le (dbl (of_int (25 + 1) / 10 ^ 2)) (ni_min ?ni)"
    unfolding r(1) using r(2) by (simp add: number_input_init_def num_le_def)
  ultimately show ?thesis
    using hundredths_do_not_drift [OF std_decimaljs_ok, of 25 ?ni] by (simp add: number_input_init_def)
qed

text \<open>
  The guard of \<open>decrement\<close> looks at the value and not at the step, so stepping down from a value
  less than one step above \<open>min\<close> goes below \<open>min\<close>: a field with step 1 that shows one half emits
  minus one half.
\<close>

theorem decrement_undershoots:
  "map_option ni_emitted
     (decrement std_decimaljs ((number_input_init (JNum (Fin (1 / 2))))\<lparr>ni_step := Fin 1\<rparr>)) =
   Some [JNum (Fin (- 1 / 2))]"
proof -
  have new: "d_new std_decimaljs (JNum (Fin 1)) = Some (Fin 1)" using std_dec.new_int [of 1] by simp
  have "d_sub std_decimaljs (Fin (1 / 2)) (Fin 1) = Fin (- 1 / 2)"
    using std_dec.sub_law [of "1 / 2" 1] sd_round_minus_half by simp
  moreover have "d_toNumber std_decimaljs (Fin (- 1 / 2)) = Fin (- 1 / 2)"
    using std_dec.toNumber_law [of "- 1 / 2"] half_double dbl_minus [of "1 / 2"] by simp
  ultimately show ?thesis
    by (simp add: decrement_def number_input_init_def num_le_def sub_dec_def d_op_def new_half new onValueChange_def
        ni_emit_def)
qed

end
