(* ===== verification/Web_Router.thy ===== *)
theory Web_Router
  imports Web_Store
begin

text \<open>
  \<open>dashboard/web/plugins/router.js\<close> and the two waiting pages \<open>pages/index.vue\<close> and
  \<open>pages/loading.vue\<close>: which page the service status and the session's seed lead to. The path of
  a named route comes from the localisation package (\<open>app.localePath\<close>), a parameter here; what the
  router needs of it is that the two wallet routes lie under their own directories.
\<close>

unbundle bit_operations_syntax

section \<open>Text search\<close>

fun index_from :: "int \<Rightarrow> string \<Rightarrow> string \<Rightarrow> int" where
  "index_from i pat [] = (if pat = [] then i else - 1)"
| "index_from i pat (c # s) =
     (if take (length pat) (c # s) = pat then i else index_from (i + 1) pat s)"

definition js_indexOf :: "string \<Rightarrow> string \<Rightarrow> int" where
  "js_indexOf s pat = index_from 0 pat s"

text \<open>\<open>!~s.indexOf(pat)\<close>: the complement of the index is zero exactly for \<open>-1\<close>.\<close>

definition lacks :: "string \<Rightarrow> string \<Rightarrow> bool" where
  "lacks s pat \<longleftrightarrow> NOT (js_indexOf s pat) = 0"

lemma index_from_found: "0 \<le> i \<Longrightarrow> index_from i pat (xs @ pat @ ys) \<noteq> - 1"
proof (induction xs arbitrary: i)
  case Nil
  then show ?case by (cases pat; cases ys) auto
next
  case (Cons c xs)
  then show ?case using Cons.IH [of "i + 1"] by auto
qed

lemma lacks_iff: "lacks s pat \<longleftrightarrow> js_indexOf s pat = - 1"
  by (simp add: lacks_def not_int_def)

lemma not_lacks [simp]: "\<not> lacks (xs @ pat @ ys) pat"
  using index_from_found [of 0 pat xs ys] by (simp add: lacks_iff js_indexOf_def)

section \<open>router.js\<close>

definition beforeEach :: "string \<Rightarrow> bool" where
  "beforeEach to_path = (if to_path = ''/loading'' then True else True)"

text \<open>\<open>Some p\<close>: \<open>redirect(p)\<close>.\<close>

definition afterEach :: "(string \<Rightarrow> string) \<Rightarrow> client \<Rightarrow> string \<Rightarrow> string option" where
  "afterEach localePath st to_path =
     (let status = serviceStatus (common st) in
      if js_seq status (JInt SERVICE_STATUS_DEFAULT) then Some (localePath ''loading'')
      else if has_flag status SERVICE_STATUS_NO_WALLET_FILE then
        (if lacks to_path ''/wallet/create'' then Some (localePath ''wallet-create'') else None)
      else if has_flag status SERVICE_STATUS_NO_PASSWORD then
        (if lacks to_path ''/wallet/open'' then Some (localePath ''wallet-open'') else None)
      else
        (case seed st of
           Some (c # s) \<Rightarrow> None
         | _ \<Rightarrow> Some (localePath ''wallet-open'')))"

section \<open>index.vue and loading.vue\<close>

text \<open>\<open>Some p\<close>: \<open>this.$router.push(p)\<close>. The two pages have the same script.\<close>

definition loadPage :: "(string \<Rightarrow> string) \<Rightarrow> client \<Rightarrow> string option" where
  "loadPage localePath st =
     (let status = serviceStatus (common st) in
      if has_flag status SERVICE_STATUS_NO_PASSWORD then Some (localePath ''wallet-open'')
      else if has_flag status SERVICE_STATUS_NO_WALLET_FILE then Some (localePath ''wallet-create'')
      else if has_flag status SERVICE_STATUS_RUNNING then Some (localePath ''nodeStatus'')
      else None)"

definition index_loadPage :: "(string \<Rightarrow> string) \<Rightarrow> client \<Rightarrow> string option" where
  "index_loadPage = loadPage"

section \<open>Navigation\<close>

text \<open>Where a navigation ends when the router's redirect is followed once.\<close>

definition navigate :: "(string \<Rightarrow> string) \<Rightarrow> client \<Rightarrow> string \<Rightarrow> string" where
  "navigate localePath st p = (case afterEach localePath st p of None \<Rightarrow> p | Some p' \<Rightarrow> p')"

locale wallet_routes =
  fixes localePath :: "string \<Rightarrow> string"
  assumes create_path: "\<exists>pre post. localePath ''wallet-create'' = pre @ ''/wallet/create'' @ post"
    and open_path: "\<exists>pre post. localePath ''wallet-open'' = pre @ ''/wallet/open'' @ post"
begin

lemma create_here: "\<not> lacks (localePath ''wallet-create'') ''/wallet/create''"
  using create_path not_lacks by metis

lemma open_here: "\<not> lacks (localePath ''wallet-open'') ''/wallet/open''"
  using open_path not_lacks by metis

lemma settles: "navigate localePath st (navigate localePath st p) = navigate localePath st p"
  using create_here open_here
  by (auto simp: navigate_def afterEach_def Let_def split: option.splits list.splits)

end

text \<open>The default routes: the name of a route with its dashes as directories.\<close>

definition default_path :: "string \<Rightarrow> string" where
  "default_path name = CHR ''/'' # map (\<lambda>c. if c = CHR ''-'' then CHR ''/'' else c) name"

interpretation default_routes: wallet_routes default_path
proof
  show "\<exists>pre post. default_path ''wallet-create'' = pre @ ''/wallet/create'' @ post"
    by (rule exI [of _ "[]"], rule exI [of _ "[]"]) (simp add: default_path_def)
  show "\<exists>pre post. default_path ''wallet-open'' = pre @ ''/wallet/open'' @ post"
    by (rule exI [of _ "[]"], rule exI [of _ "[]"]) (simp add: default_path_def)
qed

lemmas default_routes_ok = default_routes.wallet_routes_axioms

lemma has_flag_Fin:
  "has_flag (JNum (Fin q)) f \<longleftrightarrow>
     0 < sint ((of_int (if 0 \<le> q then \<lfloor>q\<rfloor> else \<lceil>q\<rceil>) :: 32 word) AND of_int f)"
  by (simp add: has_flag_def js_band_def to_int32_def)

section \<open>Properties\<close>



text \<open>
  Without a seed in the session no page but the two wallet pages stays open: when the router
  does not redirect, either the session has a seed that is not empty or the path is that of
  the page that creates or opens a wallet.
\<close>

theorem no_seed_no_page:
  assumes "afterEach localePath st p = None"
  shows "(\<exists>s. seed st = Some s \<and> s \<noteq> []) \<or>
    \<not> lacks p ''/wallet/create'' \<or> \<not> lacks p ''/wallet/open''"
  using assms by (auto simp: afterEach_def Let_def split: if_splits option.splits list.splits)

theorem no_seed_no_page_witness:
  "(\<exists>s. seed ((client_init 0)\<lparr>seed := Some ''ab'',
         common := (common_init 0)\<lparr>serviceStatus := JInt SERVICE_STATUS_RUNNING\<rparr>\<rparr>) = Some s \<and> s \<noteq> []) \<or>
   \<not> lacks ''/settings'' ''/wallet/create'' \<or> \<not> lacks ''/settings'' ''/wallet/open''"
  by (rule no_seed_no_page [where localePath = default_path])
     (simp add: afterEach_def has_flag_Fin service_status_defs Let_def)

text \<open>
  When a node reports both that it has no wallet file and that it has no password, the
  waiting page and the router disagree (the one goes to the open page, the other to the create
  page), and the router has the last word: the user ends on the page that creates a wallet.
\<close>

theorem no_wallet_file_wins:
  assumes "wallet_routes localePath" and "lacks (localePath ''wallet-open'') ''/wallet/create''"
    and "has_flag (serviceStatus (common st)) SERVICE_STATUS_NO_WALLET_FILE"
    and "has_flag (serviceStatus (common st)) SERVICE_STATUS_NO_PASSWORD"
  shows "loadPage localePath st = Some (localePath ''wallet-open'') \<and>
    navigate localePath st (localePath ''wallet-open'') = localePath ''wallet-create''"
proof -
  have "\<not> js_seq (serviceStatus (common st)) (JInt SERVICE_STATUS_DEFAULT)"
    using assms(3) by (cases "serviceStatus (common st)") (auto simp: has_flag_Fin service_status_defs
        has_flag_def js_band_def to_int32_def)
  then show ?thesis using assms(2-4) by (simp add: loadPage_def navigate_def afterEach_def Let_def)
qed

theorem no_wallet_file_wins_witness:
  "loadPage default_path ((client_init 0)\<lparr>common := (common_init 0)\<lparr>serviceStatus := JInt 6\<rparr>\<rparr>) =
     Some (default_path ''wallet-open'') \<and>
   navigate default_path ((client_init 0)\<lparr>common := (common_init 0)\<lparr>serviceStatus := JInt 6\<rparr>\<rparr>)
     (default_path ''wallet-open'') = default_path ''wallet-create''"
proof (rule no_wallet_file_wins [OF default_routes_ok])
  show "lacks (default_path ''wallet-open'') ''/wallet/create''"
    by (simp add: default_path_def lacks_iff js_indexOf_def)
qed (simp_all add: has_flag_Fin service_status_defs)

end
