(* ===== verification/Web_Pages.thy ===== *)
theory Web_Pages
  imports Web_Dialogs Web_NumberInput Web_Router
begin

text \<open>
  The pages of \<open>dashboard/web/pages\<close> that have behaviour of their own: \<open>wallet/open.vue\<close>,
  \<open>wallet/create.vue\<close> and \<open>settings.vue\<close>. As with the dialogs, a handler that waits for a store
  action is what it does up to the call and what it does when the action settles. The
  values shown or kept by a form field are JavaScript values; labels and messages are named by
  their keys. \<open>push\<close> is the path handed to \<open>$router.push\<close>, if any.
\<close>

definition js_and :: "jsval \<Rightarrow> jsval \<Rightarrow> jsval" where
  "js_and a b = (if truthy a then b else a)"

section \<open>wallet/open.vue\<close>

record open_page =
  op_password :: string
  op_showPassword :: bool
  op_passwordError :: bool
  op_passwordErrorMessage :: string

definition op_init :: open_page where
  "op_init = \<lparr>op_password = [], op_showPassword = False, op_passwordError = False,
     op_passwordErrorMessage = []\<rparr>"

definition op_toggle :: "open_page \<Rightarrow> open_page" where
  "op_toggle d = d\<lparr>op_showPassword := \<not> op_showPassword d\<rparr>"

definition op_input :: "string \<Rightarrow> open_page \<Rightarrow> open_page" where
  "op_input v d = d\<lparr>op_password := v\<rparr>"

text \<open>The seed of the last session is dropped before anything else.\<close>

definition op_submit :: "cryptojs \<Rightarrow> form_validate \<Rightarrow> open_page \<Rightarrow> client \<Rightarrow> client \<times> action option" where
  "op_submit cj validate pg st =
     (st\<lparr>seed := Some []\<rparr>,
      if validate [password_rule (op_password pg)] then Some (openWallet cj (op_password pg)) else None)"

definition op_submit_done :: "(string \<Rightarrow> string) \<Rightarrow> result \<Rightarrow> open_page \<Rightarrow> open_page \<times> string option" where
  "op_submit_done localePath r pg =
     (case r of
        Resolved _ \<Rightarrow> (pg, Some (localePath ''loading''))
      | Rejected _ \<Rightarrow>
          (pg\<lparr>op_passwordError := True, op_passwordErrorMessage := ''PASSWORD_ERROR''\<rparr>, None))"

definition op_click :: "cryptojs \<Rightarrow> form_validate \<Rightarrow> (string \<Rightarrow> string) \<Rightarrow> (request \<Rightarrow> outcome) \<Rightarrow>
    open_page \<Rightarrow> client \<Rightarrow> (open_page \<times> string option) \<times> client" where
  "op_click cj validate localePath net pg st =
     (case op_submit cj validate pg st of
        (st', None) \<Rightarrow> ((pg, None), st')
      | (st', Some a) \<Rightarrow> (let (st'', r) = run_action a net st' in (op_submit_done localePath r pg, st'')))"

section \<open>wallet/create.vue\<close>

record create_page =
  cr_password :: string
  cr_passwordConfirm :: string
  cr_showPassword :: bool
  cr_showPasswordConfirm :: bool
  cr_passwordError :: bool
  cr_passwordConfirmError :: bool
  cr_passwordErrorMessage :: string
  cr_passwordConfirmErrorMessage :: string
  cr_beneficiaryAddr :: jsval
  cr_beneficiaryAddrError :: bool
  cr_beneficiaryAddrErrorMessage :: string

definition cr_init :: create_page where
  "cr_init = \<lparr>cr_password = [], cr_passwordConfirm = [], cr_showPassword = False,
     cr_showPasswordConfirm = False, cr_passwordError = False, cr_passwordConfirmError = False,
     cr_passwordErrorMessage = [], cr_passwordConfirmErrorMessage = [], cr_beneficiaryAddr = JStr [],
     cr_beneficiaryAddrError = False, cr_beneficiaryAddrErrorMessage = []\<rparr>"

definition cr_toggle :: "create_page \<Rightarrow> create_page" where
  "cr_toggle d = d\<lparr>cr_showPassword := \<not> cr_showPassword d\<rparr>"

definition cr_toggle_confirm :: "create_page \<Rightarrow> create_page" where
  "cr_toggle_confirm d = d\<lparr>cr_showPasswordConfirm := \<not> cr_showPasswordConfirm d\<rparr>"

definition cr_input :: "string \<Rightarrow> string \<Rightarrow> jsval \<Rightarrow> create_page \<Rightarrow> create_page" where
  "cr_input v w a d = d\<lparr>cr_password := v, cr_passwordConfirm := w, cr_beneficiaryAddr := a\<rparr>"

definition cr_rules :: "client \<Rightarrow> create_page \<Rightarrow> bool list" where
  "cr_rules st pg =
     [password_rule (cr_password pg),
      password_rule (cr_passwordConfirm pg),
      cr_password pg = cr_passwordConfirm pg,
      \<not> truthy (beneficiaryAddrRequired (common st)) \<or> truthy (cr_beneficiaryAddr pg)]"

text \<open>The label of the address field; \<open>name\<close> is the text of \<open>BENEFICIARY\<close>.\<close>

definition cr_label :: "string \<Rightarrow> client \<Rightarrow> jsval" where
  "cr_label name st = js_plus (JStr name) (js_and (beneficiaryAddrRequired (common st)) (JStr ''*''))"

definition cr_created :: "client \<Rightarrow> create_page \<Rightarrow> create_page" where
  "cr_created st pg = pg\<lparr>cr_beneficiaryAddr := beneficiaryAddr (common st)\<rparr>"

definition cr_submit :: "cryptojs \<Rightarrow> form_validate \<Rightarrow> create_page \<Rightarrow> client \<Rightarrow> client \<times> action option" where
  "cr_submit cj validate pg st =
     (let st = st\<lparr>seed := Some []\<rparr> in
      (st, if validate (cr_rules st pg)
           then Some (createWallet cj (cr_password pg) (cr_beneficiaryAddr pg)) else None))"

definition cr_submit_done :: "(string \<Rightarrow> string) \<Rightarrow> result \<Rightarrow> create_page \<Rightarrow> create_page \<times> string option" where
  "cr_submit_done localePath r pg =
     (case r of
        Resolved _ \<Rightarrow> (pg, Some (localePath ''loading''))
      | Rejected _ \<Rightarrow>
          (pg\<lparr>cr_beneficiaryAddrError := True,
              cr_beneficiaryAddrErrorMessage := ''settings.BENEFICIARY_ERROR''\<rparr>, None))"

definition cr_click :: "cryptojs \<Rightarrow> form_validate \<Rightarrow> (string \<Rightarrow> string) \<Rightarrow> (request \<Rightarrow> outcome) \<Rightarrow>
    create_page \<Rightarrow> client \<Rightarrow> (create_page \<times> string option) \<times> client" where
  "cr_click cj validate localePath net pg st =
     (case cr_submit cj validate pg st of
        (st', None) \<Rightarrow> ((pg, None), st')
      | (st', Some a) \<Rightarrow> (let (st'', r) = run_action a net st' in (cr_submit_done localePath r pg, st'')))"

section \<open>settings.vue\<close>

record settings_page =
  se_loaded :: bool
  se_beneficiaryAddrDialog :: bool
  se_submitDialog :: bool
  se_submitResult :: string
  se_submitResultDialog :: bool
  se_restarting :: bool
  se_wallets :: jsval
  se_beneficiaryAddr :: jsval
  se_registerIDTxnFee :: jsval
  se_numLowFeeTxnPerBlock :: jsval
  se_lowFeeTxnSizePerBlock :: jsval
  se_lowTxnFee :: jsval
  se_lowTxnFeePerSize :: jsval

definition se_data :: settings_page where
  "se_data = \<lparr>se_loaded = False, se_beneficiaryAddrDialog = False, se_submitDialog = False,
     se_submitResult = ''error'', se_submitResultDialog = False, se_restarting = False,
     se_wallets = JNull, se_beneficiaryAddr = JStr [], se_registerIDTxnFee = JInt 0,
     se_numLowFeeTxnPerBlock = JInt 0, se_lowFeeTxnSizePerBlock = JInt 0, se_lowTxnFee = JInt 0,
     se_lowTxnFeePerSize = JInt 0\<rparr>"

text \<open>The five number fields of the form, with the properties the page gives them.\<close>

definition field_registerIDTxnFee :: "settings_page \<Rightarrow> number_input" where
  "field_registerIDTxnFee pg = (number_input_init (se_registerIDTxnFee pg))\<lparr>
     ni_min := Fin 0, ni_max := Fin 10, ni_step := dbl (1 / 100)\<rparr>"

definition field_lowFeeTxnSizePerBlock :: "settings_page \<Rightarrow> number_input" where
  "field_lowFeeTxnSizePerBlock pg = (number_input_init (se_lowFeeTxnSizePerBlock pg))\<lparr>
     ni_min := Fin 0, ni_max := Fin 102400, ni_step := Fin 1\<rparr>"

definition field_numLowFeeTxnPerBlock :: "settings_page \<Rightarrow> number_input" where
  "field_numLowFeeTxnPerBlock pg = (number_input_init (se_numLowFeeTxnPerBlock pg))\<lparr>
     ni_min := Fin 0, ni_max := Fin 100, ni_step := Fin 1\<rparr>"

definition field_lowTxnFee :: "settings_page \<Rightarrow> number_input" where
  "field_lowTxnFee pg = (number_input_init (se_lowTxnFee pg))\<lparr>
     ni_min := Fin 0, ni_max := Fin 10, ni_step := dbl (1 / 100)\<rparr>"

definition field_lowTxnFeePerSize :: "settings_page \<Rightarrow> number_input" where
  "field_lowTxnFeePerSize pg = (number_input_init (se_lowTxnFeePerSize pg))\<lparr>
     ni_min := Fin 0, ni_max := Fin 1, ni_step := dbl (1 / 100)\<rparr>"

lemmas field_defs =
  field_registerIDTxnFee_def field_lowFeeTxnSizePerBlock_def field_numLowFeeTxnPerBlock_def
  field_lowTxnFee_def field_lowTxnFeePerSize_def

text \<open>The rules of the form: each field's rule on the value the page hands to the field.\<close>

definition se_rules :: "decimaljs \<Rightarrow> settings_page \<Rightarrow> rule_result option list" where
  "se_rules D pg =
     [number_rule D (field_registerIDTxnFee pg) (se_registerIDTxnFee pg),
      number_rule D (field_lowFeeTxnSizePerBlock pg) (se_lowFeeTxnSizePerBlock pg),
      number_rule D (field_numLowFeeTxnPerBlock pg) (se_numLowFeeTxnPerBlock pg),
      number_rule D (field_lowTxnFee pg) (se_lowTxnFee pg),
      number_rule D (field_lowTxnFeePerSize pg) (se_lowTxnFeePerSize pg)]"

definition se_edit_beneficiary :: "settings_page \<Rightarrow> settings_page" where
  "se_edit_beneficiary pg = pg\<lparr>se_beneficiaryAddrDialog := True\<rparr>"

text \<open>What the five fields emit is stored in the page.\<close>

definition se_input :: "jsval \<Rightarrow> jsval \<Rightarrow> jsval \<Rightarrow> jsval \<Rightarrow> jsval \<Rightarrow> settings_page \<Rightarrow> settings_page" where
  "se_input a b c d e pg = pg\<lparr>se_registerIDTxnFee := a, se_numLowFeeTxnPerBlock := b,
     se_lowFeeTxnSizePerBlock := c, se_lowTxnFee := d, se_lowTxnFeePerSize := e\<rparr>"

text \<open>The callback of the beneficiary dialog; \<open>None\<close> when there is no data to read from.\<close>

definition onDialogSuccess :: "jsval \<Rightarrow> settings_page \<Rightarrow> settings_page option" where
  "onDialogSuccess data pg =
     map_option (\<lambda>a. pg\<lparr>se_beneficiaryAddr := a\<rparr>) (js_get data ''beneficiaryAddr'')"

text \<open>\<open>init\<close> assigns field by field: what was assigned before a throw stays (\<open>False\<close>: it threw).\<close>

definition assign :: "'a option \<Rightarrow> ('a \<Rightarrow> 's \<Rightarrow> 's) \<Rightarrow> ('s \<Rightarrow> 's \<times> bool) \<Rightarrow> 's \<Rightarrow> 's \<times> bool" where
  "assign v f k pg = (case v of None \<Rightarrow> (pg, False) | Some x \<Rightarrow> k (f x pg))"

definition fee_of :: "decimaljs \<Rightarrow> jsval \<Rightarrow> string \<Rightarrow> jsval option" where
  "fee_of D ns k = Option.bind (js_get ns k) (formatFee D)"

definition se_init :: "decimaljs \<Rightarrow> jsval \<Rightarrow> settings_page \<Rightarrow> settings_page \<times> bool" where
  "se_init D ns =
     assign (fee_of D ns ''registerIDTxnFee'') (\<lambda>v. se_registerIDTxnFee_update (\<lambda>_. v))
     (assign (js_get ns ''numLowFeeTxnPerBlock'') (\<lambda>v. se_numLowFeeTxnPerBlock_update (\<lambda>_. v))
     (assign (js_get ns ''lowFeeTxnSizePerBlock'') (\<lambda>v. se_lowFeeTxnSizePerBlock_update (\<lambda>_. v))
     (assign (fee_of D ns ''lowTxnFee'') (\<lambda>v. se_lowTxnFee_update (\<lambda>_. v))
     (assign (fee_of D ns ''lowTxnFeePerSize'') (\<lambda>v. se_lowTxnFeePerSize_update (\<lambda>_. v))
     (\<lambda>pg. (pg, True))))))"

definition se_reset :: "settings_page \<Rightarrow> settings_page" where
  "se_reset pg = pg\<lparr>se_registerIDTxnFee := JInt 0, se_numLowFeeTxnPerBlock := JInt 0,
     se_lowFeeTxnSizePerBlock := JInt 4096, se_lowTxnFee := JNum (dbl (1 / 10)),
     se_lowTxnFeePerSize := JNum (dbl (5 / 10000))\<rparr>"

text \<open>A rule that throws makes \<open>validate()\<close> throw: then the dialog stays closed as well.\<close>

definition se_submit :: "decimaljs \<Rightarrow> form_validate \<Rightarrow> settings_page \<Rightarrow> settings_page" where
  "se_submit D validate pg =
     (if None \<notin> set (se_rules D pg) \<and> validate (map (\<lambda>r. r = Some Valid) (se_rules D pg))
      then pg\<lparr>se_submitDialog := True\<rparr> else pg)"

text \<open>The configuration that \<open>onSubmitSuccess\<close> builds; \<open>None\<close> when \<open>parseFee\<close> throws.\<close>

definition se_config :: "decimaljs \<Rightarrow> settings_page \<Rightarrow> jsval option" where
  "se_config D pg =
     (case (parseFee D (se_registerIDTxnFee pg), parseFee D (se_lowTxnFee pg),
            parseFee D (se_lowTxnFeePerSize pg)) of
        (Some a, Some d, Some e) \<Rightarrow>
          Some (JObj [(''registerIDTxnFee'', a),
             (''numLowFeeTxnPerBlock'', JNum (to_number (se_numLowFeeTxnPerBlock pg))),
             (''lowFeeTxnSizePerBlock'', JNum (to_number (se_lowFeeTxnSizePerBlock pg))),
             (''lowTxnFee'', d), (''lowTxnFeePerSize'', e)])
      | _ \<Rightarrow> None)"

definition onSubmitSuccess :: "cryptojs \<Rightarrow> decimaljs \<Rightarrow> string \<Rightarrow> settings_page \<Rightarrow> action option" where
  "onSubmitSuccess cj D data pg = map_option (setNodeConfig cj data) (se_config D pg)"

definition onSubmitSuccess_done :: "result \<Rightarrow> settings_page \<Rightarrow> settings_page" where
  "onSubmitSuccess_done r pg =
     (case r of
        Resolved _ \<Rightarrow> pg\<lparr>se_submitResult := ''success'', se_submitResultDialog := True\<rparr>
      | Rejected _ \<Rightarrow> pg\<lparr>se_submitResult := ''error'', se_submitResultDialog := True\<rparr>)"

definition se_confirm :: "cryptojs \<Rightarrow> decimaljs \<Rightarrow> (request \<Rightarrow> outcome) \<Rightarrow> string \<Rightarrow>
    settings_page \<Rightarrow> client \<Rightarrow> settings_page \<times> client" where
  "se_confirm cj D net data pg st =
     (case onSubmitSuccess cj D data pg of
        None \<Rightarrow> (onSubmitSuccess_done (Rejected TypeErr) pg, st)
      | Some a \<Rightarrow> (let (st', r) = run_action a net st in (onSubmitSuccess_done r pg, st')))"

definition se_watch_nodeStatus :: "decimaljs \<Rightarrow> jsval \<Rightarrow> settings_page \<Rightarrow> settings_page \<times> bool" where
  "se_watch_nodeStatus D ns pg =
     (if \<not> se_loaded pg then se_init D ns (pg\<lparr>se_loaded := True\<rparr>) else (pg, True))"

section \<open>Settings: loading, checking and sending\<close>

text \<open>The configuration as the server has it: whole numbers, fees in the smallest unit.\<close>

definition config_data :: "int \<Rightarrow> int \<Rightarrow> int \<Rightarrow> int \<Rightarrow> int \<Rightarrow> jsval" where
  "config_data a b c d e = JObj [(''registerIDTxnFee'', JInt a), (''numLowFeeTxnPerBlock'', JInt b),
     (''lowFeeTxnSizePerBlock'', JInt c), (''lowTxnFee'', JInt d), (''lowTxnFeePerSize'', JInt e)]"

definition has_config :: "jsval \<Rightarrow> int \<Rightarrow> int \<Rightarrow> int \<Rightarrow> int \<Rightarrow> int \<Rightarrow> bool" where
  "has_config ns a b c d e \<longleftrightarrow>
     js_get ns ''registerIDTxnFee'' = Some (JInt a) \<and> js_get ns ''numLowFeeTxnPerBlock'' = Some (JInt b) \<and>
     js_get ns ''lowFeeTxnSizePerBlock'' = Some (JInt c) \<and> js_get ns ''lowTxnFee'' = Some (JInt d) \<and>
     js_get ns ''lowTxnFeePerSize'' = Some (JInt e)"

lemma has_config_data [simp]: "has_config (config_data a b c d e) a b c d e"
  by (simp add: has_config_def config_data_def)

text \<open>A form whose fees show the amounts \<open>a\<close>, \<open>d\<close> and \<open>e\<close>, and whose sizes are \<open>b\<close> and \<open>c\<close>.\<close>

definition shows_config :: "decimaljs \<Rightarrow> settings_page \<Rightarrow> int \<Rightarrow> int \<Rightarrow> int \<Rightarrow> int \<Rightarrow> int \<Rightarrow> bool" where
  "shows_config D pg a b c d e \<longleftrightarrow>
     (\<forall>(v, n) \<in> {(se_registerIDTxnFee pg, a), (se_lowTxnFee pg, d), (se_lowTxnFeePerSize pg, e)}.
        parseFee D v = Some (JInt n) \<and>
        (\<forall>ni. ni_numberMin ni = Fin 0 \<longrightarrow> ni_numberMax ni = Fin (of_int MAX_SAFE_INTEGER) \<longrightarrow>
           number_rule D ni v = Some Valid)) \<and>
     se_numLowFeeTxnPerBlock pg = JInt b \<and> se_lowFeeTxnSizePerBlock pg = JInt c"

lemma shows_config_sends: "shows_config D pg a b c d e \<Longrightarrow> se_config D pg = Some (config_data a b c d e)"
  by (simp add: shows_config_def se_config_def config_data_def)

lemma field_limits [simp]:
  "ni_numberMin (field_registerIDTxnFee pg) = Fin 0"
  "ni_numberMax (field_registerIDTxnFee pg) = Fin (of_int MAX_SAFE_INTEGER)"
  "ni_numberMin (field_lowFeeTxnSizePerBlock pg) = Fin 0"
  "ni_numberMax (field_lowFeeTxnSizePerBlock pg) = Fin (of_int MAX_SAFE_INTEGER)"
  "ni_numberMin (field_numLowFeeTxnPerBlock pg) = Fin 0"
  "ni_numberMax (field_numLowFeeTxnPerBlock pg) = Fin (of_int MAX_SAFE_INTEGER)"
  "ni_numberMin (field_lowTxnFee pg) = Fin 0"
  "ni_numberMax (field_lowTxnFee pg) = Fin (of_int MAX_SAFE_INTEGER)"
  "ni_numberMin (field_lowTxnFeePerSize pg) = Fin 0"
  "ni_numberMax (field_lowTxnFeePerSize pg) = Fin (of_int MAX_SAFE_INTEGER)"
  by (simp_all add: field_defs number_input_init_def)

lemma shows_config_valid:
  assumes "decimaljs_std D" and "shows_config D pg a b c d e"
    and "0 \<le> b" and "b < 10 ^ 7" and "0 \<le> c" and "c < 10 ^ 7"
  shows "se_rules D pg = replicate 5 (Some Valid)"
  using assms(2) decimaljs_std.rule_accepts_int [OF assms(1,3,4)] decimaljs_std.rule_accepts_int [OF assms(1,5,6)]
  by (simp add: shows_config_def se_rules_def numeral_eq_Suc)

lemma valid_form_submits:
  assumes "form_std validate" and "se_rules D pg = replicate 5 (Some Valid)"
  shows "se_submitDialog (se_submit D validate pg)"
  using assms(2) form_std.validate_iff [OF assms(1)] by (simp add: se_submit_def list_all_iff)

lemma init_shows_config:
  assumes "decimaljs_std D" and "has_config ns a b c d e"
    and "0 \<le> a" and "a < 10 ^ 15" and "0 \<le> d" and "d < 10 ^ 15" and "0 \<le> e" and "e < 10 ^ 15"
  shows "snd (se_init D ns pg) \<and> shows_config D (fst (se_init D ns pg)) a b c d e"
proof -
  note shown = decimaljs_std.fee_shown [OF assms(1)]
  obtain u v w where
    "formatFee D (JInt a) = Some u" "formatFee D (JInt d) = Some v" "formatFee D (JInt e) = Some w"
    and "shows_config D (pg\<lparr>se_registerIDTxnFee := u, se_numLowFeeTxnPerBlock := JInt b,
      se_lowFeeTxnSizePerBlock := JInt c, se_lowTxnFee := v, se_lowTxnFeePerSize := w\<rparr>) a b c d e"
    using shown [OF assms(3,4)] shown [OF assms(5,6)] shown [OF assms(7,8)]
    unfolding shows_config_def by fastforce
  with assms(2) show ?thesis by (simp add: se_init_def assign_def fee_of_def has_config_def)
qed

lemma reset_shows_config:
  assumes "decimaljs_std D"
  shows "shows_config D (se_reset pg) 0 0 4096 10000000 50000"
proof -
  have tenth: "dbl (of_int 10000000 / 10 ^ 8) = dbl (1 / 10)"
    and small: "dbl (of_int 50000 / 10 ^ 8) = dbl (5 / 10000)" by simp_all
  note parse = decimaljs_std.parseFee_amount [OF assms] and rule = decimaljs_std.rule_accepts_amount [OF assms]
  have "parseFee D (JNum (dbl (1 / 10))) = Some (JInt 10000000)"
    using parse [of 10000000, unfolded tenth] by simp
  moreover have "parseFee D (JNum (dbl (5 / 10000))) = Some (JInt 50000)"
    using parse [of 50000, unfolded small] by simp
  moreover have "number_rule D ni (JNum (dbl (1 / 10))) = Some Valid"
      "number_rule D ni (JNum (dbl (5 / 10000))) = Some Valid" "number_rule D ni (JInt 0) = Some Valid"
    if "ni_numberMin ni = Fin 0" "ni_numberMax ni = Fin (of_int MAX_SAFE_INTEGER)" for ni
    using rule [OF _ _ that, of 10000000 "JNum (dbl (1 / 10))", unfolded tenth]
      rule [OF _ _ that, of 50000 "JNum (dbl (5 / 10000))", unfolded small]
      decimaljs_std.rule_accepts_int [OF assms _ _ that, of 0] by simp_all
  ultimately show ?thesis by (simp add: shows_config_def se_reset_def parseFee_def)
qed

section \<open>Properties\<close>

text \<open>
  C31: the settings form sends back what it was loaded with: after the first status with whole
  fees and sizes, \<open>init\<close> has not thrown, the form passes its own rules so that SUBMIT opens the
  password dialog, and the configuration then sent is the one the status had, to the last unit.
\<close>

theorem settings_round_trip:
  assumes "decimaljs_std D" and "form_std validate" and "has_config ns a b c d e" and "\<not> se_loaded pg"
    and "0 \<le> a" and "a < 10 ^ 15" and "0 \<le> b" and "b < 10 ^ 7" and "0 \<le> c" and "c < 10 ^ 7"
    and "0 \<le> d" and "d < 10 ^ 15" and "0 \<le> e" and "e < 10 ^ 15"
    and "se_watch_nodeStatus D ns pg = (pg', ok)"
  shows "ok \<and> se_loaded pg' \<and> se_submitDialog (se_submit D validate pg') \<and>
    se_config D pg' = Some (config_data a b c d e)"
proof -
  have s: "se_init D ns (pg\<lparr>se_loaded := True\<rparr>) = (pg', ok)"
    using assms(4,15) by (simp add: se_watch_nodeStatus_def)
  have ok: "ok" and shown: "shows_config D pg' a b c d e"
    using init_shows_config [OF assms(1,3,5,6,11-14), of "pg\<lparr>se_loaded := True\<rparr>"] s by simp_all
  moreover have "se_loaded pg'"
    using s ok by (auto simp: se_init_def assign_def split: option.splits)
  moreover have "se_submitDialog (se_submit D validate pg')"
    by (rule valid_form_submits [OF assms(2) shows_config_valid [OF assms(1) shown assms(7-10)]])
  ultimately show ?thesis using shows_config_sends by blast
qed

theorem settings_round_trip_witness:
  "\<exists>pg'. se_watch_nodeStatus std_decimaljs (config_data 1 2 8192 10000000 50000) se_data = (pg', True) \<and>
     se_config std_decimaljs pg' = Some (config_data 1 2 8192 10000000 50000)"
  using settings_round_trip [OF std_decimaljs_ok all_rules_ok has_config_data, of se_data 1 2 8192 10000000 50000
      "fst (se_watch_nodeStatus std_decimaljs (config_data 1 2 8192 10000000 50000) se_data)"
      "snd (se_watch_nodeStatus std_decimaljs (config_data 1 2 8192 10000000 50000) se_data)"]
  by (simp add: se_data_def prod_eq_iff)

text \<open>
  RESET fills in values that the form accepts and that are sent as 0, 0, 4096, 10000000 and
  50000: one tenth and five ten-thousandths of a token, exactly, although neither is a double.
\<close>

theorem reset_config:
  assumes "decimaljs_std D" and "form_std validate"
  shows "se_config D (se_reset pg) = Some (config_data 0 0 4096 10000000 50000) \<and>
    se_submitDialog (se_submit D validate (se_reset pg))"
  using shows_config_sends [OF reset_shows_config [OF assms(1)]]
    valid_form_submits [OF assms(2) shows_config_valid [OF assms(1) reset_shows_config [OF assms(1)]]]
  by simp

theorem reset_config_witness:
  "se_config std_decimaljs (se_reset se_data) = Some (config_data 0 0 4096 10000000 50000)"
  using reset_config [OF std_decimaljs_ok all_rules_ok] by blast

text \<open>
  A form that no status has reached yet also passes its rules, and what it sends is all zeros.
\<close>

theorem unloaded_form_sends_zeros:
  assumes "decimaljs_std D" and "form_std validate"
  shows "se_submitDialog (se_submit D validate se_data) \<and> se_config D se_data = Some (config_data 0 0 0 0 0)"
proof -
  have "shows_config D se_data 0 0 0 0 0"
    using decimaljs_std.rule_accepts_int [OF assms(1), of 0]
    by (simp add: shows_config_def se_data_def parseFee_def)
  from shows_config_sends [OF this] valid_form_submits [OF assms(2) shows_config_valid [OF assms(1) this]]
  show ?thesis by simp
qed

theorem unloaded_form_sends_zeros_witness:
  "se_config std_decimaljs se_data = Some (config_data 0 0 0 0 0)"
  using unloaded_form_sends_zeros [OF std_decimaljs_ok all_rules_ok] by blast

text \<open>
  What the settings page reports. The result bar says \<open>success\<close> for an answer and also for
  every error status but 400, in particular when the server could not write its
  configuration file (500); it says \<open>error\<close> for 400 and for an error without a response.
\<close>

theorem settings_report:
  assumes "cryptojs_std cj" and "synced st tok n" and "0 \<le> n" and "n < 10 ^ 15"
    and "se_config D pg = Some cfg"
    and "net \<lparr>req_method = PUT, req_url = ''/api/node/config'', req_body = cfg\<rparr> = out"
  shows "rb_message (se_submitResult (fst (se_confirm cj D net pw pg st))) =
    Some (case out of
       Resp _ _ \<Rightarrow> ''settings.UPDATE_CONFIG_SUCCESS''
     | Fail s \<Rightarrow> if s = 400 then ''settings.UPDATE_CONFIG_ERROR'' else ''settings.UPDATE_CONFIG_SUCCESS''
     | NoResp \<Rightarrow> ''settings.UPDATE_CONFIG_ERROR'') \<and>
    se_submitResultDialog (fst (se_confirm cj D net pw pg st))"
proof -
  obtain h where "auth_value cj (common st) pw = Some h"
    using cryptojs_std.auth_value_eq [OF assms(1)] assms(2-4) by simp
  then show ?thesis
    using assms(5,6)
    by (cases out) (simp_all add: se_confirm_def onSubmitSuccess_def setNodeConfig_def run_with_auth
        onSubmitSuccess_done_def rb_message_def)
qed

theorem settings_report_witness:
  "rb_message (se_submitResult (fst (se_confirm std_cryptojs std_decimaljs (\<lambda>_. Fail 500) ''pw'' se_data
     (sample_client None 1000)))) = Some ''settings.UPDATE_CONFIG_SUCCESS''"
proof -
  have "se_config std_decimaljs se_data \<noteq> None" by (simp add: se_config_def se_data_def parseFee_def)
  then obtain cfg where "se_config std_decimaljs se_data = Some cfg" by blast
  from settings_report [OF std_cryptojs_ok sample_synced [of None 1000] _ _ this refl,
      where net = "\<lambda>_. Fail 500" and pw = "''pw''"]
  show ?thesis by simp
qed

text \<open>
  C33: submitting the page that opens a wallet. The old session is dropped first. An answer
  starts the new session and goes to \<open>loading\<close>; 401 and 403 show the password error; but every
  other error status goes to \<open>loading\<close> as if the wallet were open, with no session, and an error
  without a response is shown as a wrong password.
\<close>

theorem open_page_outcomes:
  assumes "form_std validate" and "op_password pg \<noteq> []"
    and "net \<lparr>req_method = POST, req_url = ''/api/wallet/open'',
      req_body = JObj [(''password'', JStr (op_password pg))]\<rparr> = out"
    and "op_click cj validate localePath net pg st = ((pg', push), st')"
  shows "case out of
      Resp _ _ \<Rightarrow> pg' = pg \<and> push = Some (localePath ''loading'') \<and>
        seed st' = Some (seedHash cj (op_password pg)) \<and> serviceStatus (common st') = JInt SERVICE_STATUS_RUNNING
    | Fail s \<Rightarrow> st' = st\<lparr>seed := Some []\<rparr> \<and>
        (if s = 401 \<or> s = 403 then op_passwordError pg' \<and> push = None
         else pg' = pg \<and> push = Some (localePath ''loading''))
    | NoResp \<Rightarrow> st' = st\<lparr>seed := Some []\<rparr> \<and> op_passwordError pg' \<and> push = None"
  using assms form_std.validate_iff [OF assms(1)]
  by (cases out) (auto simp: op_click_def op_submit_def op_submit_done_def password_rule_def openWallet_def
      run_action_def wallet_opened_def syncServiceStatus_def Let_def split: if_splits)

theorem open_page_outcomes_witness:
  "snd (fst (op_click std_cryptojs all_rules default_path (\<lambda>_. Fail 500) (op_init\<lparr>op_password := ''pw''\<rparr>) (client_init 0)))
     = Some (default_path ''loading'')"
  using open_page_outcomes [OF all_rules_ok _ refl, of "op_init\<lparr>op_password := ''pw''\<rparr>" std_cryptojs
      default_path "\<lambda>_. Fail 500" "client_init 0"]
  by (cases "op_click std_cryptojs all_rules default_path (\<lambda>_. Fail 500) (op_init\<lparr>op_password := ''pw''\<rparr>) (client_init 0)")
    auto

text \<open>
  The page that creates a wallet asks the server exactly when both passwords are given and
  equal and the address is given where it is required; the old session is dropped in any case.
\<close>

theorem create_asks_iff:
  assumes "form_std validate"
  shows "snd (cr_submit cj validate pg st) =
      (if cr_password pg \<noteq> [] \<and> cr_passwordConfirm pg = cr_password pg \<and>
          (truthy (allowEmptyBeneficiaryAddress (common st)) \<or> \<not> truthy (webGuiCreateWallet (common st)) \<or>
           truthy (cr_beneficiaryAddr pg))
       then Some (createWallet cj (cr_password pg) (cr_beneficiaryAddr pg)) else None) \<and>
    fst (cr_submit cj validate pg st) = st\<lparr>seed := Some []\<rparr>"
  using form_std.validate_iff [OF assms]
  by (auto simp: cr_submit_def cr_rules_def password_rule_def beneficiaryAddrRequired_def Let_def)

theorem create_asks_iff_witness:
  "snd (cr_submit std_cryptojs all_rules cr_init (client_init 0)) = None"
  using create_asks_iff [OF all_rules_ok, of std_cryptojs cr_init "client_init 0"] by (simp add: cr_init_def)

text \<open>
  The label of the address field has a star where the address is required; where it is not,
  the value of the test itself is appended, and the label reads \<open>false\<close> at its end.
\<close>

theorem create_label:
  assumes "allowEmptyBeneficiaryAddress (common st) = JBool allow" and "webGuiCreateWallet (common st) = JBool gui"
  shows "cr_label name st = JStr (name @ (if gui \<and> \<not> allow then ''*'' else ''false''))"
  using assms by (simp add: cr_label_def js_and_def beneficiaryAddrRequired_def)

theorem create_label_witness: "cr_label ''Beneficiary'' (client_init 0) = JStr ''Beneficiaryfalse''"
  using create_label [of "client_init 0" False False "''Beneficiary''"]
  by (simp add: client_init_def common_init_def)

end
