(* ===== verification/Web_Views.thy ===== *)
theory Web_Views
  imports Web_Pages
begin

text \<open>
  The components that show the node: \<open>pages/nodeStatus.vue\<close>, \<open>components/status/NodeRunStatus.vue\<close>,
  \<open>components/widget/Neighbors.vue\<close>, \<open>components/widget/WatchOutBoundCount.vue\<close> and
  \<open>components/Balance.vue\<close>, with the names of the node's states from \<open>pb/node.pb.go\<close>. A template is a
  function from the state it reads to what it shows: keys for the texts that are translated,
  texts for the values; \<open>None\<close> when rendering throws. A lookup \<open>table[s]\<close> is a lookup among the
  table's own keys; the members every object inherits are not state names.
\<close>

text \<open>
  How the view layer shows a value in double braces; arrays and objects are printed by its own
  \<open>pretty\<close>, a parameter here.
\<close>

definition vue_text :: "(jsval \<Rightarrow> string) \<Rightarrow> jsval \<Rightarrow> string" where
  "vue_text pretty v =
     (case v of JUndef \<Rightarrow> [] | JNull \<Rightarrow> [] | JArr _ \<Rightarrow> pretty v | JObj _ \<Rightarrow> pretty v | _ \<Rightarrow> js_text v)"

text \<open>\<open>Balance.vue\<close>.\<close>

definition balance_text :: "(jsval \<Rightarrow> string) \<Rightarrow> jsval \<Rightarrow> string" where
  "balance_text pretty balance = vue_text pretty balance @ '' NKN''"

section \<open>pb/node.pb.go\<close>

definition SyncState_name :: "string list" where
  "SyncState_name = [''WAIT_FOR_SYNCING'', ''SYNC_STARTED'', ''SYNC_FINISHED'', ''PERSIST_FINISHED'']"

section \<open>NodeRunStatus.vue\<close>

definition nrs_color :: "(string \<times> string) list" where
  "nrs_color = [
     (''DEFAULT'', ''grey''),
     (''WAIT_FOR_SYNCING'', ''yellow accent-2''),
     (''SYNC_STARTED'', ''green accent-4''),
     (''SYNC_FINISHED'', ''green accent-4''),
     (''PERSIST_FINISHED'', ''green accent-4'')]"

definition nrs_getServiceStatus :: "jsval \<Rightarrow> string option" where
  "nrs_getServiceStatus state =
     (if has_flag state SERVICE_STATUS_CREATE_ID
      then Some ''node.serviceStatus.SERVICE_STATUS_CREATE_ID'' else None)"

definition nrs_getStatus :: "jsval \<Rightarrow> jsval \<Rightarrow> string" where
  "nrs_getStatus svc stateStr =
     (let statusEnum = [
        (''WAIT_FOR_SYNCING'', ''node.state.WAIT_FOR_SYNCING''),
        (''SYNC_STARTED'', ''node.state.SYNC_STARTED''),
        (''SYNC_FINISHED'', ''node.state.SYNC_FINISHED''),
        (''PERSIST_FINISHED'', ''node.state.PERSIST_FINISHED'')]
      in case map_of statusEnum (js_text stateStr) of
           Some k \<Rightarrow> k
         | None \<Rightarrow>
             (case nrs_getServiceStatus svc of
                Some k \<Rightarrow> k
              | None \<Rightarrow> ''node.state.DEFAULT''))"

definition nrs_getStatusColor :: "jsval \<Rightarrow> string option" where
  "nrs_getStatusColor stateStr =
     (let stateStr = js_or stateStr (JStr ''DEFAULT'') in map_of nrs_color (js_text stateStr))"

text \<open>The component's template: the colour of the dot and the key of the text.\<close>

definition nrs_view :: "jsval \<Rightarrow> jsval \<Rightarrow> (string option \<times> string) option" where
  "nrs_view svc ns =
     map_option (\<lambda>s. (nrs_getStatusColor s, nrs_getStatus svc s)) (js_get ns ''syncState'')"

section \<open>Neighbors.vue\<close>

record neighbors_view =
  nb_search :: string
  nb_descending :: bool
  nb_rowsPerPage :: int
  nb_sortBy :: string
  nb_headers :: "(string \<times> string \<times> bool) list"

text \<open>A header: the key of its text, the property it sorts by, whether it can be sorted.\<close>

definition nb_data :: neighbors_view where
  "nb_data = \<lparr>nb_search = [], nb_descending = False, nb_rowsPerPage = 10, nb_sortBy = ''id'',
     nb_headers = [
       (''neighbor.header.ID'', ''id'', False),
       (''neighbor.header.IP'', ''addr'', True),
       (''neighbor.header.STATE'', ''syncState'', True),
       (''neighbor.header.BOUND'', ''isOutbound'', True),
       (''neighbor.header.PING'', ''roundTripTime'', True)]\<rparr>"

definition nb_getStatus :: "jsval \<Rightarrow> string" where
  "nb_getStatus stateStr =
     (let statusEnum = [
        (''DEFAULT'', ''node.state.DEFAULT''),
        (''WAIT_FOR_SYNCING'', ''node.state.WAIT_FOR_SYNCING''),
        (''SYNC_STARTED'', ''node.state.SYNC_STARTED''),
        (''SYNC_FINISHED'', ''node.state.SYNC_FINISHED''),
        (''PERSIST_FINISHED'', ''node.state.PERSIST_FINISHED'')]
      in case map_of statusEnum (js_text stateStr) of
           Some k \<Rightarrow> k | None \<Rightarrow> ''node.state.DEFAULT'')"

definition nb_getBound :: "jsval \<Rightarrow> string option" where
  "nb_getBound str =
     (let statusEnum = [(''true'', ''neighbor.OUT_BOUND''), (''false'', ''neighbor.IN_BOUND'')]
      in map_of statusEnum (js_text str))"

text \<open>One row of the table: id, address, state, direction and round trip time.\<close>

definition nb_row :: "(jsval \<Rightarrow> string) \<Rightarrow> jsval \<Rightarrow> (string \<times> string \<times> string \<times> string option \<times> string) option" where
  "nb_row pretty item =
     (case (js_get item ''id'', js_get item ''addr'', js_get item ''syncState'',
            js_get item ''isOutbound'', js_get item ''roundTripTime'') of
        (Some a, Some b, Some c, Some d, Some e) \<Rightarrow>
          Some (vue_text pretty a, vue_text pretty b, nb_getStatus c, nb_getBound d, vue_text pretty e)
      | _ \<Rightarrow> None)"

section \<open>WatchOutBoundCount.vue\<close>

text \<open>The warning bar, with the times at which its timers are due, in milliseconds.\<close>

record warning_bar =
  wb_visible :: bool
  wb_timers :: "int list"

definition wb_data :: warning_bar where
  "wb_data = \<lparr>wb_visible = True, wb_timers = []\<rparr>"

definition wb_close :: "int \<Rightarrow> warning_bar \<Rightarrow> warning_bar" where
  "wb_close now w = w\<lparr>wb_visible := False, wb_timers := wb_timers w @ [now + 10000]\<rparr>"

text \<open>The browser runs the callbacks of the timers that are due.\<close>

definition wb_run_timers :: "int \<Rightarrow> warning_bar \<Rightarrow> warning_bar" where
  "wb_run_timers now w =
     (if list_all (\<lambda>d. now < d) (wb_timers w) then w
      else w\<lparr>wb_visible := True, wb_timers := filter (\<lambda>d. now < d) (wb_timers w)\<rparr>)"

text \<open>On the screen: \<open>inBoundCount === 0\<close> and visible. \<open>None\<close>: the getter throws.\<close>

definition wb_shown :: "count_by \<Rightarrow> client \<Rightarrow> warning_bar \<Rightarrow> bool option" where
  "wb_shown countBy st w =
     map_option (\<lambda>n. js_seq n (JInt 0) \<and> wb_visible w) (inBoundCount countBy (node st))"

section \<open>nodeStatus.vue\<close>

record node_page =
  np_secretSeedDialog :: bool
  np_verificationPasswordDialog :: bool

definition np_data :: node_page where
  "np_data = \<lparr>np_secretSeedDialog = False, np_verificationPasswordDialog = False\<rparr>"

text \<open>A row of the card: the key of its label, the key of its tooltip if it has one, its content.\<close>

datatype cell = Status "(string option \<times> string)" | Shown string

type_synonym card_row = "string \<times> string option \<times> cell"

definition fee_text :: "decimaljs \<Rightarrow> (jsval \<Rightarrow> string) \<Rightarrow> jsval \<Rightarrow> string option" where
  "fee_text D pretty v = map_option (balance_text pretty) (formatFee D v)"

definition np_rows :: "decimaljs \<Rightarrow> (jsval \<Rightarrow> string) \<Rightarrow> jsval \<Rightarrow> jsval \<Rightarrow> card_row list option" where
  "np_rows D pretty svc ns =
     (let shown = (\<lambda>label tip k suffix.
            map_option (\<lambda>v. (label, tip, Shown (vue_text pretty v @ suffix))) (js_get ns k));
          fee = (\<lambda>label tip k suffix.
            map_option (\<lambda>t. (label, tip, Shown (t @ suffix))) (Option.bind (js_get ns k) (fee_text D pretty)))
      in those [
        map_option (\<lambda>v. (''node_status.NODE_STATUS'', None, Status v)) (nrs_view svc ns),
        shown ''node_status.NODE_VERSION'' None ''version'' [],
        shown ''node_status.ID'' None ''id'' [],
        shown ''node_status.RELAY_MESSAGE_COUNT'' None ''relayMessageCount'' [],
        shown ''node_status.HEIGHT'' None ''height'' [],
        shown ''node_status.BENEFICIARY_ADDR'' (Some ''tooltip.BENEFICIARY_TOOLTIP'') ''beneficiaryAddr'' [],
        fee ''config.Register_ID_Txn_Fee'' (Some ''tooltip.Register_ID_Txn_Fee_TOOLTIP'') ''registerIDTxnFee'' [],
        shown ''config.Low_Fee_Txn_Size_Per_Block'' (Some ''tooltip.Low_Fee_Txn_Size_Per_Block_TOOLTIP'')
          ''lowFeeTxnSizePerBlock'' '' kb'',
        shown ''config.Num_Low_Fee_Txn_Per_Block'' (Some ''tooltip.Num_Low_Fee_Txn_Per_Block_TOOLTIP'')
          ''numLowFeeTxnPerBlock'' [],
        fee ''config.Low_Txn_Fee'' (Some ''tooltip.Low_Txn_Fee_TOOLTIP'') ''lowTxnFee'' [],
        fee ''config.Low_Txn_Fee_Per_Size'' (Some ''tooltip.Low_Txn_Fee_Per_Size_TOOLTIP'')
          ''lowTxnFeePerSize'' ''/Byte''])"

text \<open>The wallet card: the balance, and the two fields with their copy buttons.\<close>

definition np_wallet_rows :: "(jsval \<Rightarrow> string) \<Rightarrow> jsval \<Rightarrow> (string \<times> string) list option" where
  "np_wallet_rows pretty ws =
     those [
       map_option (\<lambda>v. (''BALANCE'', balance_text pretty (js_or v (JInt 0)))) (js_get ws ''balance''),
       map_option (\<lambda>v. (''WALLET_ADDRESS'', vue_text pretty v)) (js_get ws ''address''),
       map_option (\<lambda>v. (''PUBLIC_KEY'', vue_text pretty v)) (js_get ws ''publicKey'')]"

definition np_show_download :: "node_page \<Rightarrow> node_page" where
  "np_show_download pg = pg\<lparr>np_verificationPasswordDialog := True\<rparr>"

definition np_show_seed :: "node_page \<Rightarrow> node_page" where
  "np_show_seed pg = pg\<lparr>np_secretSeedDialog := True\<rparr>"

text \<open>
  \<open>remove\<close>, which no part of the template calls: the page has no \<open>wallets\<close>, and after the call
  \<open>nodeStatus\<close> is no variable in scope.
\<close>

definition np_remove :: "jsval \<Rightarrow> node_page \<Rightarrow> node_page option" where
  "np_remove item pg = Option.bind (js_get JUndef ''indexOf'') (\<lambda>index. None)"

definition onVerificationPasswordSuccess :: "cryptojs \<Rightarrow> string \<Rightarrow> action" where
  "onVerificationPasswordSuccess cj data = downloadWallet cj data"

section \<open>Counting neighbors\<close>

text \<open>What lodash documents of \<open>countBy\<close>: how many items give each key, if no key throws.\<close>

locale lodash_std =
  fixes countBy :: count_by
  assumes countBy_counts: "list_all (\<lambda>x. f x \<noteq> None) xs \<Longrightarrow> \<exists>res. countBy f xs = Some res \<and>
      (\<forall>k. map_of res k = (let n = length (filter (\<lambda>x. f x = Some k) xs) in if n = 0 then None else Some n))"
begin

lemma inBoundCount_eq:
  assumes "neighbors st \<noteq> []" and "list_all (\<lambda>x. js_get x ''isOutbound'' \<noteq> None) (neighbors st)"
  shows "inBoundCount countBy st =
    Some (JInt (int (length (filter (\<lambda>x. \<not> truthy (the (js_get x ''isOutbound''))) (neighbors st)))))"
proof -
  have keys: "list_all (\<lambda>x. inbound_key x \<noteq> None) (neighbors st)"
    using assms(2) by (simp add: inbound_key_def)
  have "filter (\<lambda>x. inbound_key x = Some ''true'') (neighbors st) =
      filter (\<lambda>x. \<not> truthy (the (js_get x ''isOutbound''))) (neighbors st)"
    using assms(2) by (intro filter_cong) (auto simp: inbound_key_def list_all_iff split: if_splits)
  with countBy_counts [OF keys] assms(1) show ?thesis
    by (auto simp: inBoundCount_def js_or_def Let_def)
qed

end

definition std_countBy :: count_by where
  "std_countBy f xs =
     (if list_all (\<lambda>x. f x \<noteq> None) xs
      then Some (map (\<lambda>k. (k, length (filter (\<lambda>x. f x = Some k) xs))) (remdups (map (\<lambda>x. the (f x)) xs)))
      else None)"

interpretation std_lodash: lodash_std std_countBy
proof
  fix f :: "jsval \<Rightarrow> string option" and xs :: "jsval list"
  assume ok: "list_all (\<lambda>x. f x \<noteq> None) xs"
  have "k \<in> set (map (\<lambda>x. the (f x)) xs) \<longleftrightarrow> filter (\<lambda>x. f x = Some k) xs \<noteq> []" for k
    using ok by (force simp: list_all_iff filter_empty_conv)
  then have "map_of (map (\<lambda>k. (k, length (filter (\<lambda>x. f x = Some k) xs))) (remdups (map (\<lambda>x. the (f x)) xs))) k =
      (let n = length (filter (\<lambda>x. f x = Some k) xs) in if n = 0 then None else Some n)" for k
    unfolding map_of_map_restrict by (simp add: restrict_map_def Let_def del: set_map)
  then show "\<exists>res. std_countBy f xs = Some res \<and>
      (\<forall>k. map_of res k = (let n = length (filter (\<lambda>x. f x = Some k) xs) in if n = 0 then None else Some n))"
    using ok by (simp add: std_countBy_def)
qed

lemmas std_countBy_ok = std_lodash.lodash_std_axioms

section \<open>The warning bar over time\<close>

text \<open>The states of the bar: it is closed only while it can be seen, and time moves on.\<close>

inductive wb_reach :: "int \<Rightarrow> warning_bar \<Rightarrow> bool" where
  start: "wb_reach now wb_data"
| close: "wb_reach now w \<Longrightarrow> wb_visible w \<Longrightarrow> wb_reach now (wb_close now w)"
| wait: "wb_reach now w \<Longrightarrow> now \<le> later \<Longrightarrow> wb_reach later (wb_run_timers later w)"

lemma wb_reach_inv:
  "wb_reach now w \<Longrightarrow> (if wb_visible w then wb_timers w = []
     else \<exists>d. wb_timers w = [d] \<and> d \<le> now + 10000)"
  by (induction rule: wb_reach.induct)
    (fastforce simp: wb_data_def wb_close_def wb_run_timers_def split: if_splits)+

section \<open>Amounts on the page\<close>

definition amount_text :: "int \<Rightarrow> string" where
  "amount_text n = (if n = 0 then ''0'' else plain_text (of_int n / 10 ^ 8))"

lemma show_uint_0: "show_uint 0 = ''0''"
  by code_simp

lemma fee_text_int:
  assumes "decimaljs_std D" and "0 \<le> n" and "n < 10 ^ 15"
  shows "fee_text D pretty (JInt n) = Some (amount_text n @ '' NKN'')"
proof (cases "n = 0")
  case True
  then show ?thesis
    using js_text_int [of 0] show_uint_0 by (simp add: fee_text_def formatFee_def balance_text_def vue_text_def amount_text_def)
next
  case False
  with decimaljs_std.formatFee_int [OF assms(1), of n] assms(2,3) show ?thesis
    by (simp add: fee_text_def balance_text_def vue_text_def amount_text_def)
qed

section \<open>Properties\<close>

text \<open>
  The warning that no neighbor connects to this node is on the screen exactly when there are
  neighbors, every one of them is outbound, and the user has not just closed it. With no
  neighbors at all there is no warning.
\<close>

theorem warning_shown_iff:
  assumes "lodash_std countBy" and "list_all (\<lambda>x. js_get x ''isOutbound'' \<noteq> None) (neighbors (node st))"
  shows "wb_shown countBy st w = Some (neighbors (node st) \<noteq> [] \<and> wb_visible w \<and>
    list_all (\<lambda>x. truthy (the (js_get x ''isOutbound''))) (neighbors (node st)))"
proof (cases "neighbors (node st) = []")
  case True
  then show ?thesis by (simp add: wb_shown_def inBoundCount_def)
next
  case False
  from lodash_std.inBoundCount_eq [OF assms(1) this assms(2)] False show ?thesis
    by (auto simp: wb_shown_def list_all_iff filter_empty_conv)
qed

theorem warning_shown_iff_witness:
  "wb_shown std_countBy ((client_init 0)\<lparr>node := \<lparr>nodeStatus = JNull,
     neighbors = [JObj [(''isOutbound'', JBool True)], JObj [(''isOutbound'', JBool False)]]\<rparr>\<rparr>) wb_data = Some False"
  by (subst warning_shown_iff [OF std_countBy_ok]) simp_all

text \<open>
  Closing the warning hides it for ten seconds, no less and no more: whenever it can be
  seen and is closed, it is hidden at every moment before ten seconds have gone by and visible again
  from then on; and no sequence of closing and waiting hides it for good.
\<close>

theorem warning_returns:
  assumes "wb_reach now w"
  shows "(wb_visible w \<longrightarrow> wb_visible (wb_run_timers later (wb_close now w)) = (now + 10000 \<le> later)) \<and>
    (now + 10000 \<le> later \<longrightarrow> wb_visible (wb_run_timers later w))"
  using wb_reach_inv [OF assms] by (auto simp: wb_close_def wb_run_timers_def split: if_splits)

theorem warning_returns_witness:
  "\<not> wb_visible (wb_run_timers 9999 (wb_close 0 wb_data)) \<and> wb_visible (wb_run_timers 10000 (wb_close 0 wb_data))"
  using warning_returns [OF wb_reach.start, where now = 0 and later = 9999]
    warning_returns [OF wb_reach.start, where now = 0 and later = 10000]
  by (simp add: wb_data_def)

text \<open>
  The two components that name a node's state agree: on every state, known or not, the status
  line and the neighbor table use the same text, unless the node is just creating its id; and
  each of the states that the node's protocol defines has a text of its own and a colour.
\<close>

theorem state_names_agree:
  assumes "\<not> has_flag svc SERVICE_STATUS_CREATE_ID"
  shows "nrs_getStatus svc s = nb_getStatus s \<and>
    distinct (map (\<lambda>n. nrs_getStatus svc (JStr n)) (''DEFAULT'' # SyncState_name)) \<and>
    list_all (\<lambda>n. nrs_getStatusColor (JStr n) \<noteq> None) (''DEFAULT'' # SyncState_name)"
  using assms
  by (auto simp: nrs_getStatus_def nb_getStatus_def nrs_getServiceStatus_def nrs_getStatusColor_def
      nrs_color_def js_or_def SyncState_name_def Let_def)

theorem state_names_agree_witness:
  "nrs_getStatus JUndef (JStr ''SYNC_STARTED'') = nb_getStatus (JStr ''SYNC_STARTED'')"
  using state_names_agree [of JUndef "JStr ''SYNC_STARTED''"]
  by (simp add: has_flag_def js_band_def to_int32_def)

text \<open>
  The fees on the status page are the server's amounts, exact to the last of the eight
  decimals; the block limits are printed as the numbers they are; and rendering does not throw.
\<close>

theorem status_card_amounts:
  assumes "decimaljs_std D" and "has_config (JObj ps) a b c d e"
    and "0 \<le> a" and "a < 10 ^ 15" and "0 \<le> b" and "b < 10 ^ 15" and "0 \<le> c" and "c < 10 ^ 15"
    and "0 \<le> d" and "d < 10 ^ 15" and "0 \<le> e" and "e < 10 ^ 15"
  shows "\<exists>rows. np_rows D pretty svc (JObj ps) = Some rows \<and> length rows = 11 \<and>
    map (\<lambda>r. snd (snd r)) (drop 6 rows) =
      [Shown (amount_text a @ '' NKN''), Shown (show_uint c @ '' kb''), Shown (show_uint b),
       Shown (amount_text d @ '' NKN''), Shown (amount_text e @ '' NKN/Byte'')]"
proof -
  have n: "vue_text pretty (JInt k) = show_uint k" if "0 \<le> k" "k < 10 ^ 15" for k
    using js_text_int [OF that] by (simp add: vue_text_def)
  show ?thesis
    using assms(2) fee_text_int [OF assms(1,3,4)] fee_text_int [OF assms(1,9,10)] fee_text_int [OF assms(1,11,12)]
      n [OF assms(5,6)] n [OF assms(7,8)]
    by (simp add: np_rows_def nrs_view_def has_config_def Let_def del: js_get.simps) simp
qed

theorem status_card_amounts_witness:
  "\<exists>rows. np_rows std_decimaljs (\<lambda>_. []) JUndef (config_data 1 2 3 4 5) = Some rows \<and> length rows = 11"
  using status_card_amounts [OF std_decimaljs_ok has_config_data [of 1 2 3 4 5, unfolded config_data_def],
    of "\<lambda>_. []" JUndef] by (auto simp: config_data_def)

text \<open>
  The downloaded wallet file is a faithful copy: after an answer with JSON data, exactly one
  file is handed to the browser, named \<open>wallet.json\<close>, with the type of the answer, and its text
  reads back as the data. Without an answer there is no file and the error goes on to the caller.
\<close>

theorem download_is_a_copy:
  assumes "cryptojs_std cj" and "synced st tok n" and "0 \<le> n" and "n < 10 ^ 15"
    and "run_action (onVerificationPasswordSuccess cj pw) net st = (st', r)"
    and "net (get_req ''/api/wallet/download'') = out"
  shows "case out of
      Resp v ctype \<Rightarrow> json_wf v \<longrightarrow> (\<exists>t. downloads st' = downloads st @ [(''wallet.json'', t, ctype)] \<and>
        json_parse t = Some v \<and> r = Resolved JUndef)
    | _ \<Rightarrow> downloads st' = downloads st \<and> (\<exists>e. r = Rejected e)"
proof -
  obtain h where h: "auth_value cj (common st) pw = Some h"
    using cryptojs_std.auth_value_eq [OF assms(1)] assms(2-4) by simp
  have "js_stringify v = Some (json_str v)" if "json_wf v" for v
    using that by (cases v) (simp_all add: js_stringify_def)
  then show ?thesis
    using assms(5,6) h json_parse_str
    by (cases out) (auto simp: onVerificationPasswordSuccess_def downloadWallet_def run_action_def)
qed

theorem download_is_a_copy_witness:
  "\<exists>t. downloads (fst (run_action (onVerificationPasswordSuccess std_cryptojs ''pw'')
      (\<lambda>_. Resp (JBool True) JUndef) (sample_client None 1000))) = [(''wallet.json'', t, JUndef)] \<and>
    json_parse t = Some (JBool True)"
  using download_is_a_copy [OF std_cryptojs_ok sample_synced [of None 1000] _ _ surjective_pairing refl,
    where pw = "''pw''" and net = "\<lambda>_. Resp (JBool True) JUndef"]
  by (auto simp: sample_client_def client_init_def)

text \<open>
  The page can be shown before any answer has arrived: with the store's initial state neither
  card throws, every fee is shown as 0 and so is the balance.
\<close>

theorem first_render:
  "map_option (map (\<lambda>r. snd (snd r))) (np_rows D pretty svc (nodeStatus (node (client_init now)))) =
     Some ([Status (Some ''grey'', nrs_getStatus svc (JStr ''DEFAULT'')), Shown [], Shown [], Shown [],
            Shown [], Shown [], Shown ''0 NKN'', Shown '' kb'', Shown [], Shown ''0 NKN'', Shown ''0 NKN/Byte'']) \<and>
   np_wallet_rows pretty (currentWalletStatus (wallet (client_init now))) =
     Some [(''BALANCE'', ''0 NKN''), (''WALLET_ADDRESS'', []), (''PUBLIC_KEY'', [])]"
proof -
  have "js_text (JInt 0) = ''0''" using js_text_int [of 0] show_uint_0 by simp
  then show ?thesis
    by (simp add: client_init_def node_init_def wallet_init_def np_rows_def np_wallet_rows_def nrs_view_def
        nrs_getStatusColor_def nrs_color_def js_or_def fee_text_def formatFee_def balance_text_def vue_text_def Let_def)
qed

end
