(* ===== verification/Web_Locales.thy ===== *)
theory Web_Locales
  imports Js_Json
begin

text \<open>
  The message tables of \<open>dashboard/web/locales\<close>: one definition per file, in English and in
  Chinese, the texts as UTF-8 like every text of the development. \<open>$t(key)\<close> belongs to the
  translation package; the tables are looked up here by the dotted path of a message, which is
  how a key names its message. The theorems show that the tables have the same messages with
  the same placeholders, and that every key the pages use is there.
\<close>

section \<open>Tables\<close>

datatype message = Text string | Group "(string \<times> message) list"

type_synonym messages = "(string \<times> message) list"

definition u8 :: "nat list \<Rightarrow> string" where
  "u8 cs = concat (map utf8_char cs)"

section \<open>The files of en\<close>

definition en_menu :: messages where
  "en_menu = [
    (''NODE_STATUS'', Text ''Node status''),
    (''OVERVIEW'', Text ''Neighbors''),
    (''SETTINGS'', Text ''settings'')]"

definition en_node :: messages where
  "en_node = [
    (''state'', Group [(''DEFAULT'', Text ''not started''),
      (''WAIT_FOR_SYNCING'', Text ''wait for chain db syncing''),
      (''SYNC_STARTED'', Text ''chain db sync started''),
      (''SYNC_FINISHED'', Text ''chain db sync finished''),
      (''PERSIST_FINISHED'', Text ''mining'')]),
    (''serviceStatus'', Group [(''SERVICE_STATUS_CREATE_ID'', Text ''creating ID'')])]"

definition en_settings :: messages where
  "en_settings = [
    (''TITLE'', Text ''Settings''),
    (''RESTART_NKN'', Text ''Restart NKN.''),
    (''BENEFICIARY_TITLE'', Text ''Input a beneficiary address for auto transfer.''),
    (''BENEFICIARY_HINT'', Text ''New amount will auto transfer to this address.''),
    (''BENEFICIARY_REQUIRED'', Text ''Beneficiary is required''),
    (''BENEFICIARY_ERROR'', Text ''Invalid Beneficiary.''),
    (''BENEFICIARY_WARING'', Text ''Need restart NKN for enabled beneficiary address. (New beneficiary address: {beneficiaryAddr})''),
    (''CONFIG_TITLE'', Text ''Node configure''),
    (''UPDATE_CONFIG_SUCCESS'', Text ''Update node configure success.''),
    (''UPDATE_CONFIG_ERROR'', Text ''Update node configure error.'')]"

definition en_neighbor :: messages where
  "en_neighbor = [
    (''TITLE'', Text ''Neighbors''),
    (''WARNING'', Text ''Warning: Local node has no inbound neighbor, it's possible that local node is unreachable from outside, e.g. behind firewall or NAT.''),
    (''OUT_BOUND'', Text ''out''),
    (''IN_BOUND'', Text ''in''),
    (''header'', Group [(''ID'', Text ''ID''),
      (''IP'', Text ''IP''),
      (''STATE'', Text ''State''),
      (''BOUND'', Text ''Direction''),
      (''PING'', Text ''Ping'')])]"

definition en_config :: messages where
  "en_config = [
    (''Register_ID_Txn_Fee'', Text ''Generate ID txn fee''),
    (''Low_Fee_Txn_Size_Per_Block'', Text ''Low fee txn size per block''),
    (''Num_Low_Fee_Txn_Per_Block'', Text ''Num low fee txn per block''),
    (''Low_Txn_Fee'', Text ''Low txn fee''),
    (''Low_Txn_Fee_Per_Size'', Text ''Low txn fee per byte'')]"

definition en_tooltip :: messages where
  "en_tooltip = [
    (''BENEFICIARY_TOOLTIP'', Text ''Mining rewards will be deposited to this address.''),
    (''Register_ID_Txn_Fee_TOOLTIP'', Text ''Generate ID transaction fee.''),
    (''Low_Fee_Txn_Size_Per_Block_TOOLTIP'', Text ''Total transaction size per block of low fee transactions.''),
    (''Num_Low_Fee_Txn_Per_Block_TOOLTIP'', Text ''The number of low fee transactions per block.''),
    (''Low_Txn_Fee_TOOLTIP'', Text ''Transaction fee threshold of low fee transactions.''),
    (''Low_Txn_Fee_Per_Size_TOOLTIP'', Text ''Transaction fee per byte threshold of low fee transactions.'')]"

definition en_messages :: messages where
  "en_messages = [
    (''language'', Text ''English''),
    (''menu'', Group en_menu),
    (''node'', Group en_node),
    (''settings'', Group en_settings),
    (''neighbor'', Group en_neighbor),
    (''config'', Group en_config),
    (''tooltip'', Group en_tooltip),
    (''LOADING'', Text ''loading''),
    (''SEARCH'', Text ''Search''),
    (''NEXT'', Text ''Next''),
    (''CLOSE'', Text ''Close''),
    (''CANCEL'', Text ''Cancel''),
    (''RESTART'', Text ''Restart''),
    (''START'', Text ''Start''),
    (''STOP'', Text ''Stop''),
    (''SUBMIT'', Text ''Submit''),
    (''RESET'', Text ''Reset''),
    (''BENEFICIARY'', Text ''Beneficiary''),
    (''BALANCE'', Text ''Balance''),
    (''WALLET_ADDRESS'', Text ''Wallet address''),
    (''PUBLIC_KEY'', Text ''Public key''),
    (''SECRET_SEED'', Text ''Secret seed''),
    (''PASSWORD'', Text ''Password''),
    (''PASSWORD_ERROR'', Text ''Invalid password.''),
    (''PASSWORD_REQUIRED'', Text ''Password is required.''),
    (''PASSWORD_HINT'', Text ''Please enter wallet password.''),
    (''FIELD_REQUIRED'', Text ''This field is required.''),
    (''NUMBER_FIELD_ERROR'', Text ''This field must be a number.''),
    (''POSITIVE_NUMBER_FIELD_ERROR'', Text ''This field cannot be negative.''),
    (''NUMBER_MIN_ERROR'', Text ''This field must be greater than {min}''),
    (''NUMBER_MAX_ERROR'', Text ''This field must be less than {max}''),
    (''NUMBER_DP_ERROR'', Text ''The number of decimal places cannot exceed {dp} digits''),
    (''PASSWORD_CONFIRM'', Text ''Please enter password again''),
    (''PASSWORD_CONFIRM_ERROR'', Text ''Password does not match.''),
    (''PASSWORD_CONFIRM_REQUIRED'', Text ''Please enter password again.''),
    (''PASSWORD_CONFIRM_HINT'', Text ''Please enter password confirm.''),
    (''WALLET_CREATE'', Text ''Create wallet''),
    (''WALLET_OPEN'', Text ''Open wallet''),
    (''CREATE'', Text ''Create''),
    (''OPEN'', Text ''Open''),
    (''WALLET_DOWNLOAD'', Text ''Download wallet''),
    (''WALLET_UPLOAD'', Text ''Upload wallet''),
    (''NO_DATA'', Text ''No data available''),
    (''PER_PAGE_TEXT'', Text ''Rows per pages''),
    (''footer'', Group [(''TITLE'', Text ''NKN: Network Infra for Decentralized Internet''),
      (''TEXT'', Text ''NKN is the new kind of P2P network connectivity protocol & ecosystem powered by a novel public blockchain. We use economic incentives to motivate Internet users to share network connection and utilize unused bandwidth. NKN's open, efficient, and robust networking infrastructure enables application developers to build the decentralized Internet so everyone can enjoy secure, low cost, and universally accessible connectivity.'')]),
    (''node_status'', Group [(''TITLE'', Text ''Node status''),
      (''NODE_STATUS'', Text ''Node status''),
      (''NODE_VERSION'', Text ''Node version''),
      (''ID'', Text ''ID''),
      (''RELAY_MESSAGE_COUNT'', Text ''Message relayed by node''),
      (''HEIGHT'', Text ''NKN node block height''),
      (''BENEFICIARY_ADDR'', Text ''Beneficiary address'')]),
    (''current_wallet_status'', Group [(''TITLE'', Text ''Current wallet status'')])]"

section \<open>The files of zh\<close>

definition zh_menu :: messages where
  "zh_menu = [
    (''NODE_STATUS'', Text (u8 [33410, 28857, 29366, 24577])),
    (''OVERVIEW'', Text (u8 [37051, 23621])),
    (''SETTINGS'', Text (u8 [35774, 32622]))]"

definition zh_node :: messages where
  "zh_node = [
    (''state'', Group [(''DEFAULT'', Text (u8 [31561, 24453, 36816, 34892])),
      (''WAIT_FOR_SYNCING'', Text (u8 [31561, 24453, 36134, 26412, 21516, 27493])),
      (''SYNC_STARTED'', Text (u8 [36134, 26412, 24320, 22987, 21516, 27493])),
      (''SYNC_FINISHED'', Text (u8 [36134, 26412, 21516, 27493, 23436, 25104])),
      (''PERSIST_FINISHED'', Text (u8 [36816, 34892, 20013]))]),
    (''serviceStatus'', Group [(''SERVICE_STATUS_CREATE_ID'', Text (u8 [27491, 22312, 21019, 24314] @ ''ID''))])]"

definition zh_settings :: messages where
  "zh_settings = [
    (''TITLE'', Text (u8 [35774, 32622])),
    (''RESTART_NKN'', Text (u8 [37325, 21551] @ ''NKN.'')),
    (''BENEFICIARY_TITLE'', Text (u8 [36755, 20837, 21463, 30410, 20154, 22320, 22336, 24320, 21551, 33258, 21160, 36716, 36134] @ ''.'')),
    (''BENEFICIARY_HINT'', Text (u8 [26032, 30340, 25910, 30410, 20250, 33258, 21160, 36716, 21040, 36825, 20010, 22320, 22336] @ ''.'')),
    (''BENEFICIARY_REQUIRED'', Text (u8 [21463, 30410, 20154, 22320, 22336, 19981, 33021, 20026, 31354] @ ''.'')),
    (''BENEFICIARY_ERROR'', Text (u8 [26080, 25928, 30340, 25910, 30410, 20154, 22320, 22336] @ ''.'')),
    (''BENEFICIARY_WARING'', Text (u8 [38656, 35201, 37325, 21551] @ ''NKN'' @ u8 [26469, 21551, 29992, 21463, 30410, 20154, 22320, 22336] @ ''. ('' @ u8 [26032, 30340, 21463, 30410, 20154, 22320, 22336] @ '': {beneficiaryAddr})'')),
    (''CONFIG_TITLE'', Text (u8 [33410, 28857, 37197, 32622])),
    (''UPDATE_CONFIG_SUCCESS'', Text (u8 [20462, 25913, 33410, 28857, 37197, 32622, 25104, 21151] @ ''.'')),
    (''UPDATE_CONFIG_ERROR'', Text (u8 [20462, 25913, 33410, 28857, 37197, 32622, 22833, 36133] @ ''.''))]"

definition zh_neighbor :: messages where
  "zh_neighbor = [
    (''TITLE'', Text (u8 [37051, 23621])),
    (''WARNING'', Text (u8 [
      35686, 21578, 65306, 33410, 28857, 27809, 26377, 20837, 21521, 37051, 23621, 65292, 22806, 37096, 33410, 28857, 21487, 33021,
      26080, 27861, 35775, 38382, 12290, 35831, 26816, 26597, 36335, 30001, 22120, 25110, 32773, 35774, 22791, 30340, 38450, 28779,
      22681, 35774, 32622, 12290])),
    (''OUT_BOUND'', Text (u8 [20986, 21521])),
    (''IN_BOUND'', Text (u8 [20837, 21521])),
    (''header'', Group [(''ID'', Text ''ID''),
      (''IP'', Text ''IP''),
      (''STATE'', Text (u8 [29366, 24577])),
      (''BOUND'', Text (u8 [36830, 25509, 26041, 21521])),
      (''PING'', Text ''Ping'')])]"

definition zh_config :: messages where
  "zh_config = [
    (''Register_ID_Txn_Fee'', Text (u8 [27880, 20876] @ ''ID'' @ u8 [20132, 26131, 36153])),
    (''Low_Fee_Txn_Size_Per_Block'', Text (u8 [20302, 36153, 20132, 26131, 22823, 23567])),
    (''Num_Low_Fee_Txn_Per_Block'', Text (u8 [20302, 36153, 20132, 26131, 25968, 37327])),
    (''Low_Txn_Fee'', Text (u8 [20302, 36153, 20132, 26131, 36153])),
    (''Low_Txn_Fee_Per_Size'', Text (u8 [20302, 36153, 20132, 26131, 27599] @ '' byte '' @ u8 [20132, 26131, 36153]))]"

definition zh_tooltip :: messages where
  "zh_tooltip = [
    (''BENEFICIARY_TOOLTIP'', Text (u8 [25366, 30719, 25910, 30410, 20250, 21457, 25918, 21040, 36825, 20010, 22320, 22336] @ ''.'')),
    (''Register_ID_Txn_Fee_TOOLTIP'', Text (u8 [27880, 20876] @ ''ID'' @ u8 [20132, 26131, 36153] @ ''.'')),
    (''Low_Fee_Txn_Size_Per_Block_TOOLTIP'', Text (u8 [27599, 20010, 21306, 22359, 25171, 21253, 30340, 20302, 36153, 20132, 26131, 24635, 22823, 23567] @ ''.'')),
    (''Num_Low_Fee_Txn_Per_Block_TOOLTIP'', Text (u8 [27599, 20010, 21306, 22359, 25171, 21253, 30340, 20302, 36153, 20132, 26131, 25968, 37327] @ ''.'')),
    (''Low_Txn_Fee_TOOLTIP'', Text (u8 [20302, 36153, 20132, 26131, 30340, 20132, 26131, 36153, 38408, 20540] @ ''.'')),
    (''Low_Txn_Fee_Per_Size_TOOLTIP'', Text (u8 [20302, 36153, 20132, 26131, 30340, 27599] @ '' byte '' @ u8 [20132, 26131, 36153, 38408, 20540] @ ''.''))]"

definition zh_messages :: messages where
  "zh_messages = [
    (''language'', Text (u8 [31616, 20307, 20013, 25991])),
    (''menu'', Group zh_menu),
    (''node'', Group zh_node),
    (''settings'', Group zh_settings),
    (''neighbor'', Group zh_neighbor),
    (''config'', Group zh_config),
    (''tooltip'', Group zh_tooltip),
    (''LOADING'', Text (u8 [21152, 36733, 20013])),
    (''SEARCH'', Text (u8 [25628, 32034])),
    (''NEXT'', Text (u8 [19979, 19968, 27493])),
    (''CLOSE'', Text (u8 [20851, 38381])),
    (''CANCEL'', Text (u8 [21462, 28040])),
    (''RESTART'', Text (u8 [37325, 21551])),
    (''START'', Text (u8 [24320, 22987])),
    (''STOP'', Text (u8 [20572, 27490])),
    (''SUBMIT'', Text (u8 [25552, 20132])),
    (''RESET'', Text (u8 [37325, 32622])),
    (''BENEFICIARY'', Text (u8 [21463, 30410, 20154])),
    (''BALANCE'', Text (u8 [20313, 39069])),
    (''WALLET_ADDRESS'', Text (u8 [38065, 21253, 22320, 22336])),
    (''PUBLIC_KEY'', Text (u8 [20844, 38053])),
    (''SECRET_SEED'', Text (u8 [31169, 38053, 31181, 23376])),
    (''PASSWORD'', Text (u8 [23494, 30721])),
    (''PASSWORD_ERROR'', Text (u8 [26080, 25928, 30340, 23494, 30721] @ ''.'')),
    (''PASSWORD_REQUIRED'', Text (u8 [23494, 30721, 19981, 33021, 20026, 31354] @ ''.'')),
    (''PASSWORD_HINT'', Text (u8 [35831, 36755, 20837, 38065, 21253, 23494, 30721] @ ''.'')),
    (''FIELD_REQUIRED'', Text (u8 [35813, 23383, 27573, 19981, 33021, 20026, 31354] @ ''.'')),
    (''NUMBER_FIELD_ERROR'', Text (u8 [35813, 23383, 27573, 24517, 39035, 26159, 25968, 23383])),
    (''POSITIVE_NUMBER_FIELD_ERROR'', Text (u8 [35813, 23383, 27573, 19981, 33021, 20026, 36127, 25968])),
    (''NUMBER_MIN_ERROR'', Text (u8 [35813, 23383, 27573, 24517, 39035, 22823, 20110] @ '' {min}'')),
    (''NUMBER_MAX_ERROR'', Text (u8 [35813, 23383, 27573, 24517, 39035, 23567, 20110] @ '' {max}'')),
    (''NUMBER_DP_ERROR'', Text (u8 [23567, 25968, 20301, 25968, 19981, 33021, 36229, 36807] @ '' {dp} '' @ u8 [20301])),
    (''PASSWORD_CONFIRM'', Text (u8 [30830, 35748, 23494, 30721])),
    (''PASSWORD_CONFIRM_ERROR'', Text (u8 [20004, 27425, 23494, 30721, 19981, 19968, 33268] @ ''.'')),
    (''PASSWORD_CONFIRM_REQUIRED'', Text (u8 [30830, 35748, 23494, 30721, 19981, 33021, 20026, 31354] @ ''.'')),
    (''PASSWORD_CONFIRM_HINT'', Text (u8 [35831, 20877, 27425, 36755, 20837, 23494, 30721] @ ''.'')),
    (''WALLET_CREATE'', Text (u8 [21019, 24314, 38065, 21253])),
    (''WALLET_OPEN'', Text (u8 [25171, 24320, 38065, 21253])),
    (''CREATE'', Text (u8 [21019, 24314])),
    (''OPEN'', Text (u8 [25171, 24320])),
    (''WALLET_DOWNLOAD'', Text (u8 [19979, 36733, 38065, 21253])),
    (''WALLET_UPLOAD'', Text (u8 [19978, 20256, 38065, 21253])),
    (''NO_DATA'', Text (u8 [27809, 26377, 25968, 25454])),
    (''PER_PAGE_TEXT'', Text (u8 [27599, 39029, 25968, 37327])),
    (''footer'', Group [(''TITLE'', Text (''NKN'' @ u8 [65306, 26032, 19968, 20195, 20114, 32852, 32593, 30340, 32593, 32476, 22522, 30784, 35774, 26045])),
      (''TEXT'', Text (''NKN'' @ u8 [26159, 21306, 22359, 38142, 25216, 26415, 39537, 21160, 30340, 19968, 31181, 24320, 25918, 12289, 21435, 20013, 24515, 21270, 30340, 26032, 22411, 32593, 32476, 12290] @ ''NKN'' @ u8 [
      20513, 23548, 29992, 25143, 20849, 20139, 32593, 32476, 36164, 28304, 65292, 40723, 21169, 22823, 23478, 26500, 24314, 20154,
      20154, 20026, 25105, 65292, 25105, 20026, 20154, 20154, 30340, 20849, 24314, 20849, 20139, 23545, 31561, 32593, 32476, 65292,
      22312, 35753, 20849, 24314, 32773, 22240, 21327, 21161, 25968, 25454, 20256, 36755, 32780, 33719, 24471, 32463, 27982, 22238,
      25253, 30340, 21516, 26102, 20026, 24320, 21457, 32773, 25552, 20379, 19968, 20010, 24320, 25918, 65292, 20415, 25463, 65292,
      39640, 25928, 21644, 23433, 20840, 30340, 32593, 32476, 24179, 21488, 65292, 35753, 25152, 26377, 20154, 37117, 33021, 20307,
      39564, 26356, 22909, 30340, 32593, 32476, 24212, 29992, 21644, 26381, 21153, 12290]))]),
    (''node_status'', Group [(''TITLE'', Text (u8 [33410, 28857, 29366, 24577])),
      (''NODE_STATUS'', Text (u8 [33410, 28857, 29366, 24577])),
      (''NODE_VERSION'', Text (u8 [33410, 28857, 29256, 26412])),
      (''ID'', Text ''ID''),
      (''RELAY_MESSAGE_COUNT'', Text (u8 [33410, 28857, 36716, 21457, 28040, 24687, 25968, 37327])),
      (''HEIGHT'', Text (''NKN'' @ u8 [33410, 28857, 21306, 22359, 39640, 24230])),
      (''BENEFICIARY_ADDR'', Text (u8 [21463, 30410, 20154, 22320, 22336]))]),
    (''current_wallet_status'', Group [(''TITLE'', Text (u8 [36816, 34892, 20013, 30340, 38065, 21253, 29366, 24577]))])]"

section \<open>Paths, placeholders and keys\<close>

fun paths :: "message \<Rightarrow> (string \<times> string) list" where
  "paths (Text s) = [([], s)]"
| "paths (Group ps) =
     concat (map (\<lambda>p. map (\<lambda>q. (if fst q = [] then fst p else fst p @ ''.'' @ fst q, snd q)) (paths (snd p))) ps)"

definition message_text :: "messages \<Rightarrow> string \<Rightarrow> string option" where
  "message_text ms key = map_of (paths (Group ms)) key"

text \<open>The names between braces in a text.\<close>

fun placeholders :: "string \<Rightarrow> string list" where
  "placeholders [] = []"
| "placeholders (c # s) =
     (if c = CHR ''{'' then takeWhile (\<lambda>d. d \<noteq> CHR ''}'') s # placeholders s else placeholders s)"

text \<open>The keys that the pages, dialogs, layouts and widgets hand to \<open>$t\<close>.\<close>

definition used_keys :: "string list" where
  "used_keys = [
    ''BALANCE'', ''BENEFICIARY'', ''CANCEL'', ''CLOSE'', ''CREATE'', ''NEXT'', ''NO_DATA'',
    ''NUMBER_DP_ERROR'', ''NUMBER_FIELD_ERROR'', ''NUMBER_MAX_ERROR'', ''NUMBER_MIN_ERROR'',
    ''OPEN'', ''PASSWORD'', ''PASSWORD_CONFIRM'', ''PASSWORD_CONFIRM_ERROR'',
    ''PASSWORD_CONFIRM_REQUIRED'', ''PASSWORD_ERROR'', ''PASSWORD_HINT'', ''PASSWORD_REQUIRED'',
    ''PER_PAGE_TEXT'', ''POSITIVE_NUMBER_FIELD_ERROR'', ''PUBLIC_KEY'', ''RESET'', ''SEARCH'',
    ''SECRET_SEED'', ''SUBMIT'', ''WALLET_ADDRESS'', ''WALLET_CREATE'', ''WALLET_DOWNLOAD'',
    ''WALLET_OPEN'', ''config.Low_Fee_Txn_Size_Per_Block'', ''config.Low_Txn_Fee'',
    ''config.Low_Txn_Fee_Per_Size'', ''config.Num_Low_Fee_Txn_Per_Block'',
    ''config.Register_ID_Txn_Fee'', ''current_wallet_status.TITLE'', ''footer.TEXT'',
    ''footer.TITLE'', ''menu.NODE_STATUS'', ''menu.OVERVIEW'', ''menu.SETTINGS'',
    ''neighbor.IN_BOUND'', ''neighbor.OUT_BOUND'', ''neighbor.TITLE'', ''neighbor.WARNING'',
    ''neighbor.header.BOUND'', ''neighbor.header.ID'', ''neighbor.header.IP'',
    ''neighbor.header.PING'', ''neighbor.header.STATE'',
    ''node.serviceStatus.SERVICE_STATUS_CREATE_ID'', ''node.state.DEFAULT'',
    ''node.state.PERSIST_FINISHED'', ''node.state.SYNC_FINISHED'', ''node.state.SYNC_STARTED'',
    ''node.state.WAIT_FOR_SYNCING'', ''node_status.BENEFICIARY_ADDR'', ''node_status.HEIGHT'',
    ''node_status.ID'', ''node_status.NODE_STATUS'', ''node_status.NODE_VERSION'',
    ''node_status.RELAY_MESSAGE_COUNT'', ''node_status.TITLE'', ''settings.BENEFICIARY_ERROR'',
    ''settings.BENEFICIARY_HINT'', ''settings.BENEFICIARY_REQUIRED'',
    ''settings.BENEFICIARY_TITLE'', ''settings.CONFIG_TITLE'', ''settings.TITLE'',
    ''settings.UPDATE_CONFIG_ERROR'', ''settings.UPDATE_CONFIG_SUCCESS'',
    ''tooltip.BENEFICIARY_TOOLTIP'', ''tooltip.Low_Fee_Txn_Size_Per_Block_TOOLTIP'',
    ''tooltip.Low_Txn_Fee_Per_Size_TOOLTIP'', ''tooltip.Low_Txn_Fee_TOOLTIP'',
    ''tooltip.Num_Low_Fee_Txn_Per_Block_TOOLTIP'', ''tooltip.Register_ID_Txn_Fee_TOOLTIP'']"

lemmas en_defs = en_messages_def en_menu_def en_node_def en_settings_def en_neighbor_def en_config_def
  en_tooltip_def

lemmas zh_defs = zh_messages_def zh_menu_def zh_node_def zh_settings_def zh_neighbor_def zh_config_def
  zh_tooltip_def

text \<open>No byte of a character outside ASCII is a brace.\<close>

lemma utf8_char_high:
  assumes "128 \<le> n" and "n < 0x110000" and "c \<in> set (utf8_char n)"
  shows "c \<noteq> CHR ''{''"
proof -
  have "128 \<le> (of_char c :: nat)"
    using assms by (auto simp: utf8_char_def split: if_splits)
  then show ?thesis by auto
qed

lemma placeholders_skip: "(\<And>c. c \<in> set s \<Longrightarrow> c \<noteq> CHR ''{'') \<Longrightarrow> placeholders (s @ r) = placeholders r"
  by (induction s) auto

lemma placeholders_u8 [simp]:
  assumes "list_all (\<lambda>n. 128 \<le> n \<and> n < 0x110000) cs"
  shows "placeholders (u8 cs @ r) = placeholders r"
proof (rule placeholders_skip)
  show "c \<noteq> CHR ''{''" if "c \<in> set (u8 cs)" for c
    using assms that utf8_char_high by (fastforce simp: u8_def list_all_iff)
qed

lemma placeholders_u8_end [simp]:
  "list_all (\<lambda>n. 128 \<le> n \<and> n < 0x110000) cs \<Longrightarrow> placeholders (u8 cs) = []"
  using placeholders_u8 [of cs "[]"] by simp

lemma message_text_iff: "message_text ms k \<noteq> None \<longleftrightarrow> k \<in> set (map fst (paths (Group ms)))"
  by (simp add: message_text_def map_of_eq_None_iff del: paths.simps)

lemma same_keys: "map fst (paths (Group en_messages)) = map fst (paths (Group zh_messages))"
  by (simp add: en_defs zh_defs)

lemma nth_all_mem: "list_all (\<lambda>i. i < length xs) is \<Longrightarrow> list_all (\<lambda>k. k \<in> set xs) (map ((!) xs) is)"
  by (auto simp: list_all_iff)

lemma en_count: "length (map fst (paths (Group en_messages))) = 87"
  by (simp add: en_defs)

text \<open>Where each used key stands in the English table.\<close>

lemma used_keys_at:
  "used_keys = map ((!) (map fst (paths (Group en_messages))))
     [51, 50, 44, 43, 71, 42, 75, 64, 60, 63, 62, 72, 55, 65, 66, 67, 56, 58, 57, 76, 61,
      53, 49, 41, 54, 48, 52, 69, 73, 70, 30, 32, 33, 31, 29, 86, 78, 77, 1, 2, 3, 23, 22,
      20, 21, 27, 24, 25, 28, 26, 9, 4, 8, 7, 6, 5, 85, 84, 82, 80, 81, 83, 79, 15, 13, 14,
      12, 17, 10, 19, 18, 34, 36, 39, 38, 37, 35]"
  by (simp add: used_keys_def en_defs)

lemma used_keys_known:
  "list_all (\<lambda>k. message_text en_messages k \<noteq> None \<and> message_text zh_messages k \<noteq> None) used_keys"
proof -
  have "list_all (\<lambda>k. k \<in> set (map fst (paths (Group en_messages)))) used_keys"
    by (subst used_keys_at, rule nth_all_mem) (simp only: en_count, simp)
  then show ?thesis by (simp only: message_text_iff same_keys simp_thms)
qed

section \<open>Properties\<close>

text \<open>
  The two languages have the same messages, in the same order: there is no page that is only
  partly translated.
\<close>

theorem locales_same_keys: "map fst (paths (Group en_messages)) = map fst (paths (Group zh_messages))"
  by (rule same_keys)

text \<open>
  Every key that the pages, dialogs, layouts and widgets use has a text in both languages.
\<close>

theorem used_keys_translated:
  "list_all (\<lambda>k. message_text en_messages k \<noteq> None \<and> message_text zh_messages k \<noteq> None) used_keys"
  by (rule used_keys_known)

text \<open>
  A message has the same placeholders in both languages, so that what a page passes for them
  is shown in both.
\<close>

theorem locales_same_placeholders:
  "map (\<lambda>p. placeholders (snd p)) (paths (Group en_messages)) =
     map (\<lambda>p. placeholders (snd p)) (paths (Group zh_messages))"
  by (simp add: en_defs zh_defs)

end
