(* ===== verification/Web_Shell.thy ===== *)
theory Web_Shell
  imports Web_Views Web_Locales
begin

text \<open>
  What surrounds the pages: the settings of \<open>nuxt.config.js\<close> that the application's behaviour rests
  on, the layouts \<open>layouts/default.vue\<close>, \<open>sign.vue\<close> and \<open>error.vue\<close>, and the shared cards of
  \<open>components/material\<close>, \<open>components/Footer.vue\<close> and \<open>components/widget/LastMiningRewards.vue\<close>. The path
  functions of the localisation package are parameters. A layout's \<open>reload\<close> works through a timer and
  the view layer's queue of jobs; both are modelled, with the clock as a count of milliseconds.
\<close>

section \<open>nuxt.config.js\<close>

record locale_entry =
  loc_code :: string
  loc_name :: string
  loc_iso :: string
  loc_file :: string

definition nuxt_locales :: "locale_entry list" where
  "nuxt_locales = [
     \<lparr>loc_code = ''en'', loc_name = ''English'', loc_iso = ''en-US'', loc_file = ''en/index.js''\<rparr>,
     \<lparr>loc_code = ''zh'', loc_name = u8 [31616, 20307, 20013, 25991], loc_iso = ''zh-CN'', loc_file = ''zh/index.js''\<rparr>]"

definition nuxt_defaultLocale :: string where
  "nuxt_defaultLocale = ''en''"

definition nuxt_langDir :: string where
  "nuxt_langDir = ''locales/''"

record language_detection =
  ld_useCookie :: bool
  ld_cookieKey :: string
  ld_alwaysRedirect :: bool
  ld_fallbackLocale :: string

definition nuxt_detectBrowserLanguage :: language_detection where
  "nuxt_detectBrowserLanguage = \<lparr>ld_useCookie = True, ld_cookieKey = ''i18n_redirected'',
     ld_alwaysRedirect = False, ld_fallbackLocale = ''en''\<rparr>"

definition nuxt_router_base :: string where
  "nuxt_router_base = ''/web/''"

definition nuxt_plugins :: "string list" where
  "nuxt_plugins = [''~/plugins/vuetify'', ''~/plugins/axios'', ''~/plugins/i18n'', ''~/plugins/task'', ''~/plugins/router'']"

text \<open>The options of the axios module: credentials are sent, and addresses are relative to the root.\<close>

definition nuxt_axios :: "bool \<times> string" where
  "nuxt_axios = (True, ''/'')"

text \<open>\<open>head\<close>, from the variables of the build's environment; a missing variable is \<open>undefined\<close>.\<close>

definition nuxt_head :: "(string \<Rightarrow> jsval) \<Rightarrow> jsval" where
  "nuxt_head env = JObj [
     (''titleTemplate'', JStr (''%s - '' @ js_text (env ''npm_package_name''))),
     (''title'', js_or (env ''npm_package_name'') (JStr [])),
     (''meta'', JArr [
        JObj [(''name'', JStr ''theme-color''), (''content'', JStr ''#3f51b5'')],
        JObj [(''charset'', JStr ''utf-8'')],
        JObj [(''name'', JStr ''viewport''), (''content'', JStr ''width=device-width, initial-scale=1'')],
        JObj [(''hid'', JStr ''description''), (''name'', JStr ''description''),
              (''content'', js_or (env ''npm_package_description'') (JStr []))]]),
     (''link'', JArr [JObj [(''rel'', JStr ''icon''), (''type'', JStr ''image/x-icon''), (''href'', JStr ''/web/favicon.ico'')]])]"

definition build_extend :: "jsval \<Rightarrow> jsval \<Rightarrow> jsval option" where
  "build_extend config ctx =
     Option.bind (js_get ctx ''isClient'') (\<lambda>c.
       if truthy c then js_set config ''devtool'' (JStr ''eval-source-map'') else Some config)"

text \<open>The table a configured file holds.\<close>

definition locale_messages :: "string \<Rightarrow> messages option" where
  "locale_messages path =
     (if path = nuxt_langDir @ ''en/index.js'' then Some en_messages
      else if path = nuxt_langDir @ ''zh/index.js'' then Some zh_messages
      else None)"

section \<open>default.vue, sign.vue: the state and the view layer's jobs\<close>

text \<open>
  \<open>lay_tabs\<close> is the instance of the tabs on the screen, if there is one; \<open>lay_mounts\<close> counts the instances
  made. A change of \<open>update\<close> queues one rendering; \<open>$nextTick\<close> queues its callback behind it.
\<close>

datatype job = Render | SetUpdate

record layout =
  lay_clipped :: bool
  lay_update :: bool
  lay_has_tabs :: bool
  lay_tabs :: "nat option"
  lay_mounts :: nat
  lay_jobs :: "job list"
  lay_timers :: "nat list"
  lay_now :: nat

definition default_layout :: layout where
  "default_layout = \<lparr>lay_clipped = False, lay_update = True, lay_has_tabs = True, lay_tabs = Some 0,
     lay_mounts = 1, lay_jobs = [], lay_timers = [], lay_now = 0\<rparr>"

text \<open>The layout of the wallet pages has the same script, and no tabs in its template.\<close>

definition sign_layout :: layout where
  "sign_layout = \<lparr>lay_clipped = False, lay_update = True, lay_has_tabs = False, lay_tabs = None,
     lay_mounts = 0, lay_jobs = [], lay_timers = [], lay_now = 0\<rparr>"

definition set_update :: "bool \<Rightarrow> layout \<Rightarrow> layout" where
  "set_update b l =
     (if lay_update l = b then l
      else l\<lparr>lay_update := b, lay_jobs := (if Render \<in> set (lay_jobs l) then lay_jobs l else lay_jobs l @ [Render])\<rparr>)"

text \<open>The part of the template under \<open>v-if="update"\<close>.\<close>

definition render_tabs :: "layout \<Rightarrow> layout" where
  "render_tabs l =
     (if \<not> lay_has_tabs l then l
      else if \<not> lay_update l then l\<lparr>lay_tabs := None\<rparr>
      else case lay_tabs l of
        Some n \<Rightarrow> l
      | None \<Rightarrow> l\<lparr>lay_tabs := Some (lay_mounts l), lay_mounts := Suc (lay_mounts l)\<rparr>)"

fun run_job :: "job \<Rightarrow> layout \<Rightarrow> layout" where
  "run_job Render l = render_tabs l"
| "run_job SetUpdate l = set_update True l"

definition job_cost :: "job \<Rightarrow> nat" where
  "job_cost j = (case j of Render \<Rightarrow> 1 | SetUpdate \<Rightarrow> 2)"

lemma render_tabs_same [simp]:
  "lay_jobs (render_tabs l) = lay_jobs l" "lay_update (render_tabs l) = lay_update l"
  "lay_timers (render_tabs l) = lay_timers l" "lay_now (render_tabs l) = lay_now l"
  "lay_has_tabs (render_tabs l) = lay_has_tabs l"
  by (simp_all add: render_tabs_def split: option.split)

lemma set_update_same [simp]:
  "lay_update (set_update b l) = b" "lay_timers (set_update b l) = lay_timers l" "lay_now (set_update b l) = lay_now l"
  "lay_has_tabs (set_update b l) = lay_has_tabs l" "lay_tabs (set_update b l) = lay_tabs l"
  "lay_mounts (set_update b l) = lay_mounts l"
  by (simp_all add: set_update_def)

text \<open>The queue is run until it is empty.\<close>

function run_jobs :: "layout \<Rightarrow> layout" where
  "run_jobs l =
     (case lay_jobs l of
        [] \<Rightarrow> l
      | j # js \<Rightarrow> run_jobs (run_job j (l\<lparr>lay_jobs := js\<rparr>)))"
  by pat_completeness auto
termination
proof (relation "measure (\<lambda>l. sum_list (map job_cost (lay_jobs l)))")
  show "wf (measure (\<lambda>l. sum_list (map job_cost (lay_jobs l))))" by simp
  show "(run_job j (l\<lparr>lay_jobs := js\<rparr>), l) \<in> measure (\<lambda>l. sum_list (map job_cost (lay_jobs l)))"
    if "lay_jobs l = j # js" for l j js
    using that by (cases j) (simp_all add: job_cost_def set_update_def)
qed

declare run_jobs.simps [simp del]

text \<open>\<open>reload\<close>, and its callback when the ten milliseconds are over.\<close>

definition reload :: "layout \<Rightarrow> layout" where
  "reload l = l\<lparr>lay_timers := lay_timers l @ [lay_now l + 10]\<rparr>"

definition reload_timer :: "layout \<Rightarrow> layout" where
  "reload_timer l =
     (let l = set_update False l in run_jobs (l\<lparr>lay_jobs := lay_jobs l @ [SetUpdate]\<rparr>))"

text \<open>Timers are due in the order they were set.\<close>

fun due_timers :: "nat list \<Rightarrow> layout \<Rightarrow> layout" where
  "due_timers [] l = l"
| "due_timers (d # ds) l = (if d \<le> lay_now l then due_timers ds (reload_timer (l\<lparr>lay_timers := ds\<rparr>)) else l)"

datatype layout_event = PickLanguage | Elapse nat

fun layout_step :: "layout_event \<Rightarrow> layout \<Rightarrow> layout" where
  "layout_step PickLanguage l = reload l"
| "layout_step (Elapse ms) l = (let l = l\<lparr>lay_now := lay_now l + ms\<rparr> in due_timers (lay_timers l) l)"

definition layout_run :: "layout_event list \<Rightarrow> layout \<Rightarrow> layout" where
  "layout_run evs l = fold layout_step evs l"

section \<open>default.vue, sign.vue: the templates\<close>

definition availableLocales :: "locale_entry list" where
  "availableLocales = nuxt_locales"

text \<open>An item of the language menu: its name and where it leads. Both layouts have the menu.\<close>

definition language_menu :: "(string \<Rightarrow> string) \<Rightarrow> (string \<times> string) list" where
  "language_menu switchLocalePath = map (\<lambda>l. (loc_name l, switchLocalePath (loc_code l))) availableLocales"

definition sign_language_menu :: "(string \<Rightarrow> string) \<Rightarrow> (string \<times> string) list" where
  "sign_language_menu switchLocalePath = map (\<lambda>l. (loc_name l, switchLocalePath (loc_code l))) availableLocales"

definition nav_tabs :: "(string \<Rightarrow> string) \<Rightarrow> layout \<Rightarrow> (string \<times> string) list" where
  "nav_tabs localePath l =
     (if lay_tabs l = None then []
      else [(''menu.NODE_STATUS'', localePath ''nodeStatus''),
            (''menu.OVERVIEW'', localePath ''overview''),
            (''menu.SETTINGS'', localePath ''settings'')])"

text \<open>The bar at the top: the state of the node and its version.\<close>

definition app_bar :: "(jsval \<Rightarrow> string) \<Rightarrow> client \<Rightarrow> ((string option \<times> string) \<times> string) option" where
  "app_bar pretty st =
     (let ns = nodeStatus (node st) in
      case (nrs_view (serviceStatus (common st)) ns, js_get ns ''version'') of
        (Some v, Some x) \<Rightarrow> Some (v, vue_text pretty x)
      | _ \<Rightarrow> None)"

section \<open>error.vue\<close>

definition pageNotFound :: string where
  "pageNotFound = ''404 Not Found''"

definition otherError :: string where
  "otherError = ''An error occurred''"

text \<open>The heading of the page, and the title in its head; \<open>error\<close> is \<open>null\<close> by default.\<close>

definition error_heading :: "jsval \<Rightarrow> string option" where
  "error_heading err =
     map_option (\<lambda>c. if js_seq c (JInt 404) then pageNotFound else otherError) (js_get err ''statusCode'')"

definition error_head :: "jsval \<Rightarrow> jsval option" where
  "error_head err =
     map_option (\<lambda>c. JObj [(''title'', JStr (if js_seq c (JInt 404) then pageNotFound else otherError))])
       (js_get err ''statusCode'')"

definition error_home :: string where
  "error_home = ''/web''"

section \<open>components/material\<close>

text \<open>
  A component's declared properties with their defaults. What a caller gives under a declared name
  is the property, what it gives under another name is passed on as an attribute.
\<close>

type_synonym props = "(string \<times> jsval) list"

definition Card_props :: props where
  "Card_props = [
     (''color'', JStr ''secondary''),
     (''elevation'', JInt 10),
     (''inline'', JBool False),
     (''fullWidth'', JBool False),
     (''offset'', JInt 24),
     (''title'', JUndef),
     (''text'', JUndef)]"

definition StatsCard_props :: props where
  "StatsCard_props = foldl (\<lambda>ps (k, v). obj_set k v ps) Card_props [
     (''icon'', JUndef),
     (''subIcon'', JUndef),
     (''subIconColor'', JUndef),
     (''subTextColor'', JUndef),
     (''subText'', JUndef),
     (''title'', JUndef),
     (''value'', JUndef),
     (''smallValue'', JUndef)]"

definition ChartCard_props :: props where
  "ChartCard_props = [
     (''data'', JObj []),
     (''eventHandlers'', JArr []),
     (''options'', JObj []),
     (''ratio'', JUndef),
     (''responsiveOptions'', JArr []),
     (''type'', JUndef)]"

definition ChartCard_validator :: "string \<Rightarrow> bool" where
  "ChartCard_validator v \<longleftrightarrow> v \<in> set [''Bar'', ''Line'', ''Pie'']"

definition Notification_props :: props where
  "Notification_props = [(''elevation'', JInt 6), (''value'', JBool True)]"

definition prop_value :: "props \<Rightarrow> props \<Rightarrow> string \<Rightarrow> jsval" where
  "prop_value declared given k =
     (case map_of given k of
        Some v \<Rightarrow> if v = JUndef then (case map_of declared k of None \<Rightarrow> JUndef | Some d \<Rightarrow> d) else v
      | None \<Rightarrow> (case map_of declared k of None \<Rightarrow> JUndef | Some d \<Rightarrow> d))"

definition attrs :: "props \<Rightarrow> props \<Rightarrow> props" where
  "attrs declared given = filter (\<lambda>(k, v). map_of declared k = None) given"

text \<open>\<open>x * 2\<close>.\<close>

fun num_twice :: "jsnum \<Rightarrow> jsnum" where
  "num_twice (Fin q) = dbl (q * 2)"
| "num_twice x = x"

text \<open>\<open>slots\<close> are the names of the slots the caller fills.\<close>

definition Card_hasOffset :: "string list \<Rightarrow> props \<Rightarrow> bool" where
  "Card_hasOffset slots given \<longleftrightarrow>
     ''header'' \<in> set slots \<or> ''offset'' \<in> set slots \<or>
     truthy (prop_value Card_props given ''title'') \<or> truthy (prop_value Card_props given ''text'')"

text \<open>The bottom and the top margin.\<close>

definition Card_styles :: "string list \<Rightarrow> props \<Rightarrow> (string \<times> string) option" where
  "Card_styles slots given =
     (if \<not> Card_hasOffset slots given then None
      else let off = prop_value Card_props given ''offset'' in
        Some (js_text off @ ''px'', num_text (num_twice (to_number off)) @ ''px''))"

text \<open>What is in the header of a card, if it has one.\<close>

datatype card_header = OffsetSlot | HeaderSlot | TitleText jsval jsval

definition Card_header :: "string list \<Rightarrow> props \<Rightarrow> card_header option" where
  "Card_header slots given =
     (let t = prop_value Card_props given ''title''; x = prop_value Card_props given ''text'' in
      if \<not> Card_hasOffset slots given then None
      else if ''offset'' \<in> set slots then Some OffsetSlot
      else if \<not> truthy t \<and> \<not> truthy x then Some HeaderSlot
      else Some (TitleText t x))"

definition Card_has_actions :: "string list \<Rightarrow> bool" where
  "Card_has_actions slots \<longleftrightarrow> ''actions'' \<in> set slots"

text \<open>\<open>elevation-${elevation}\<close>, the class of the card in the header and of a notification.\<close>

definition elevation_class :: "props \<Rightarrow> props \<Rightarrow> string" where
  "elevation_class declared given = ''elevation-'' @ js_text (prop_value declared given ''elevation'')"

text \<open>The card inside a statistics card: its slots, and the attributes that reach it.\<close>

definition StatsCard_slots :: "string list" where
  "StatsCard_slots = [''offset'', ''default'', ''actions'']"

definition StatsCard_card :: "props \<Rightarrow> props" where
  "StatsCard_card given = attrs StatsCard_props given"

definition ChartCard_card :: "props \<Rightarrow> props" where
  "ChartCard_card given = attrs ChartCard_props given"

definition ChartCard_slots :: "string list \<Rightarrow> string list" where
  "ChartCard_slots slots = ''header'' # filter (\<lambda>s. s \<in> set [''default'', ''actions'']) slots"

section \<open>Footer.vue, LastMiningRewards.vue\<close>

text \<open>An icon: its class, its tooltip, its address.\<close>

definition footer_icons :: "(string \<times> string \<times> string) list" where
  "footer_icons = [
     (''fab fa-github'', ''GitHub'', ''https://github.com/nknorg''),
     (''fab fa-discord'', ''Discord'', ''https://discord.gg/hrZvrVa''),
     (''fab fa-twitter'', ''Twitter'', ''https://twitter.com/NKN_ORG''),
     (''fas fa-comments'', ''Forum'', ''https://forum.nkn.org/''),
     (''fab fa-youtube'', ''Youtube'', ''http://www.youtube.com/c/NKNORG''),
     (''fab fa-telegram'', ''Telegram'', ''https://t.me/nknorg''),
     (''fab fa-medium'', ''Medium'', ''https://medium.com/nknetwork'')]"

text \<open>A header of the table of rewards: its text and the property of an item it stands for.\<close>

definition lmr_headers :: "(string \<times> string) list" where
  "lmr_headers = [
     (''Transaction'', ''name''),
     (''Value'', ''value''),
     (''Height'', ''height''),
     (''Time'', ''time'')]"

definition lmr_item :: "string \<Rightarrow> rat \<Rightarrow> rat \<Rightarrow> rat \<Rightarrow> jsval" where
  "lmr_item t v h m = JObj [(''transaction'', JStr t), (''value'', JNum (dbl v)), (''height'', JNum (dbl h)), (''time'', JNum (dbl m))]"

definition lmr_desserts :: "jsval list" where
  "lmr_desserts = [
     lmr_item ''Frozen Yogurt'' 159 6 24,
     lmr_item ''Ice cream sandwich'' 237 9 37,
     lmr_item ''Eclair'' 262 16 23,
     lmr_item ''Cupcake'' 305 (37 / 10) 67,
     lmr_item ''Gingerbread'' 356 16 49,
     lmr_item ''Jelly bean'' 375 0 94,
     lmr_item ''Lollipop'' 392 (2 / 10) 98,
     lmr_item ''Honeycomb'' 408 (32 / 10) 87,
     lmr_item ''Donut'' 452 25 51,
     lmr_item ''KitKat'' 518 26 65]"

definition lmr_row :: "(jsval \<Rightarrow> string) \<Rightarrow> jsval \<Rightarrow> string list option" where
  "lmr_row pretty item =
     those (map (\<lambda>k. map_option (vue_text pretty) (js_get item k)) [''transaction'', ''value'', ''height'', ''time''])"

section \<open>The layout between events\<close>

text \<open>Nothing is queued, and the newest instance of the tabs is on the screen.\<close>

definition steady :: "layout \<Rightarrow> bool" where
  "steady l \<longleftrightarrow> lay_jobs l = [] \<and> lay_update l \<and> lay_has_tabs l \<and> 0 < lay_mounts l \<and> lay_tabs l = Some (lay_mounts l - 1)"

lemma run_jobs_Nil [simp]: "lay_jobs l = [] \<Longrightarrow> run_jobs l = l"
  by (simp add: run_jobs.simps)

lemma run_jobs_Cons [simp]: "lay_jobs l = j # js \<Longrightarrow> run_jobs l = run_jobs (run_job j (l\<lparr>lay_jobs := js\<rparr>))"
  by (subst run_jobs.simps) simp

lemma reload_timer_steady:
  assumes "steady l"
  shows "reload_timer l = l\<lparr>lay_tabs := Some (lay_mounts l), lay_mounts := Suc (lay_mounts l)\<rparr>"
  using assms by (simp add: steady_def reload_timer_def set_update_def render_tabs_def)

lemma due_timers_steady:
  assumes "steady l" and "lay_timers l = ds"
  shows "steady (due_timers ds l) \<and> lay_now (due_timers ds l) = lay_now l \<and>
    lay_timers (due_timers ds l) = dropWhile (\<lambda>d. d \<le> lay_now l) ds \<and>
    lay_mounts (due_timers ds l) + length (lay_timers (due_timers ds l)) = lay_mounts l + length ds"
  using assms
proof (induction ds l rule: due_timers.induct)
  case (2 d ds l)
  have "steady (reload_timer (l\<lparr>lay_timers := ds\<rparr>)) \<and> lay_timers (reload_timer (l\<lparr>lay_timers := ds\<rparr>)) = ds \<and>
      lay_now (reload_timer (l\<lparr>lay_timers := ds\<rparr>)) = lay_now l \<and>
      lay_mounts (reload_timer (l\<lparr>lay_timers := ds\<rparr>)) = Suc (lay_mounts l)"
    using "2.prems" by (simp add: reload_timer_steady steady_def)
  with 2 show ?case by (cases "d \<le> lay_now l") auto
qed simp

text \<open>Every timer is due within ten milliseconds, and in the order in which they were set.\<close>

definition layout_inv :: "nat \<Rightarrow> layout \<Rightarrow> bool" where
  "layout_inv picks l \<longleftrightarrow> steady l \<and> sorted (lay_timers l) \<and> (\<forall>d \<in> set (lay_timers l). d \<le> lay_now l + 10) \<and>
     lay_mounts l + length (lay_timers l) = Suc picks"

lemma layout_inv_start: "layout_inv 0 default_layout"
  by (simp add: layout_inv_def steady_def default_layout_def)

lemma layout_inv_step:
  assumes "layout_inv picks l"
  shows "layout_inv (picks + (if e = PickLanguage then 1 else 0)) (layout_step e l)"
proof (cases e)
  case PickLanguage
  with assms show ?thesis
    by (auto simp: layout_inv_def steady_def reload_def sorted_append)
next
  case (Elapse ms)
  let ?l = "l\<lparr>lay_now := lay_now l + ms\<rparr>"
  have "steady ?l" using assms by (simp add: layout_inv_def steady_def)
  from due_timers_steady [OF this, of "lay_timers l"] assms Elapse show ?thesis
    by (auto simp: layout_inv_def Let_def sorted_dropWhile dest!: set_dropWhileD)
qed

lemma layout_inv_run:
  "layout_inv picks l \<Longrightarrow> layout_inv (picks + length (filter ((=) PickLanguage) evs)) (layout_run evs l)"
proof (induction evs arbitrary: picks l)
  case (Cons e evs)
  from Cons.IH [OF layout_inv_step [OF Cons.prems, of e]] show ?case
    by (auto simp: layout_run_def)
qed (simp add: layout_run_def)

lemma dropWhile_all_Nil: "\<forall>x \<in> set xs. P x \<Longrightarrow> dropWhile P xs = []"
  by simp

text \<open>A session with a seed at a node that is running.\<close>

definition open_client :: "string \<Rightarrow> client" where
  "open_client sd = (client_init 0)\<lparr>common := (common_init 0)\<lparr>serviceStatus := JInt 16\<rparr>, seed := Some sd\<rparr>"

lemma show_offsets: "show_uint 24 = ''24''" "show_uint 48 = ''48''"
  by code_simp+

lemma stats_card_attrs:
  assumes "map_of StatsCard_props k \<noteq> None"
  shows "map_of (StatsCard_card given) k = None"
  using assms by (auto simp: StatsCard_card_def attrs_def map_of_eq_None_iff split_beta) (metis fst_conv image_eqI)

lemma reward_name: "js_get item ''name'' = Some JUndef" if "item \<in> set lmr_desserts"
  using that by (auto simp: lmr_desserts_def lmr_item_def)

section \<open>Properties\<close>



text \<open>
  When the node's wallet is open and the session has a seed, every tab of the bar leads to its
  page: its label has a text in both languages, and the router leaves its path alone.
\<close>

theorem tabs_lead_to_pages:
  assumes "serviceStatus (common st) = JNum (Fin q)" and "q \<noteq> 0"
    and "\<not> has_flag (JNum (Fin q)) SERVICE_STATUS_NO_WALLET_FILE" and "\<not> has_flag (JNum (Fin q)) SERVICE_STATUS_NO_PASSWORD"
    and "seed st = Some sd" and "sd \<noteq> []"
  shows "map fst (nav_tabs localePath (layout_run evs default_layout)) = [''menu.NODE_STATUS'', ''menu.OVERVIEW'', ''menu.SETTINGS''] \<and>
    list_all (\<lambda>(label, path). navigate localePath st path = path \<and>
      message_text en_messages label \<noteq> None \<and> message_text zh_messages label \<noteq> None)
      (nav_tabs localePath (layout_run evs default_layout))"
proof -
  have tabs: "nav_tabs localePath (layout_run evs default_layout) =
      [(''menu.NODE_STATUS'', localePath ''nodeStatus''), (''menu.OVERVIEW'', localePath ''overview''),
       (''menu.SETTINGS'', localePath ''settings'')]"
    using layout_inv_run [OF layout_inv_start, of evs] by (simp add: nav_tabs_def layout_inv_def steady_def)
  have "navigate localePath st p = p" for p
    using assms by (auto simp: navigate_def afterEach_def SERVICE_STATUS_DEFAULT_def neq_Nil_conv)
  moreover have "list_all (\<lambda>k. message_text en_messages k \<noteq> None \<and> message_text zh_messages k \<noteq> None)
      [''menu.NODE_STATUS'', ''menu.OVERVIEW'', ''menu.SETTINGS'']"
    using used_keys_known by (simp add: used_keys_def)
  ultimately show ?thesis by (simp add: tabs)
qed

theorem tabs_lead_to_pages_witness:
  "list_all (\<lambda>(label, path). navigate default_path (open_client ''s'') path = path \<and>
      message_text en_messages label \<noteq> None \<and> message_text zh_messages label \<noteq> None)
     (nav_tabs default_path (layout_run [PickLanguage, Elapse 20] default_layout))"
  by (rule tabs_lead_to_pages [where q = 16 and sd = "''s''", THEN conjunct2])
     (simp_all add: open_client_def has_flag_Fin service_status_defs)

text \<open>
  A statistics card always has the margins of the default offset. It declares the card's
  properties as its own and hands on only what it does not declare, so an offset given to it
  does not reach the card inside.
\<close>

theorem stats_card_ignores_offset:
  "Card_styles StatsCard_slots (StatsCard_card given) = Some (''24px'', ''48px'') \<and>
   Card_header StatsCard_slots (StatsCard_card given) = Some OffsetSlot"
proof -
  have "map_of (StatsCard_card given) ''offset'' = None"
    by (rule stats_card_attrs) (simp add: StatsCard_props_def Card_props_def)
  then have "prop_value Card_props (StatsCard_card given) ''offset'' = JInt 24"
    by (simp add: prop_value_def Card_props_def)
  moreover have "dbl 48 = Fin 48" using dbl_int [of 48] by simp
  ultimately show ?thesis
    using num_text_int [of 24] num_text_int [of 48]
    by (simp add: Card_styles_def Card_header_def Card_hasOffset_def StatsCard_slots_def show_offsets)
qed

text \<open>
  The configured languages are the ones there are tables for. Each entry of the list names a
  file of the message directory, and the table in that file calls its language by the name the
  menu shows; the default language and the fallback are among them.
\<close>

theorem locales_have_tables:
  "list_all (\<lambda>l. case locale_messages (nuxt_langDir @ loc_file l) of
       None \<Rightarrow> False
     | Some ms \<Rightarrow> message_text ms ''language'' = Some (loc_name l)) availableLocales \<and>
   nuxt_defaultLocale \<in> set (map loc_code availableLocales) \<and>
   ld_fallbackLocale nuxt_detectBrowserLanguage \<in> set (map loc_code availableLocales) \<and>
   map fst (language_menu p) = map loc_name nuxt_locales"
  by (simp add: availableLocales_def nuxt_locales_def locale_messages_def nuxt_langDir_def nuxt_defaultLocale_def
      nuxt_detectBrowserLanguage_def language_menu_def message_text_def en_defs zh_defs)

end
