(* ===== verification/Web_Screens.thy ===== *)
theory Web_Screens
  imports Web_Shell
begin

text \<open>
  The templates of the dialogs (\<open>components/dialog/*.vue\<close>), of the pages \<open>wallet/open.vue\<close>, \<open>wallet/create.vue\<close>,
  \<open>settings.vue\<close>, \<open>nodeStatus.vue\<close>, \<open>loading.vue\<close> and \<open>index.vue\<close>, and of the widgets \<open>NumberInput.vue\<close>,
  \<open>ClipboardText.vue\<close>, \<open>Neighbors.vue\<close>, \<open>WatchOutBoundCount.vue\<close> and \<open>Footer.vue\<close>: functions from the state to
  what is on the screen, with \<open>t\<close> for the translation \<open>$t\<close> and the handlers by name. Over them, the
  runs of a dialog: the user presses and types what the screen offers at that moment, and the
  answers to earlier presses arrive at any time, also after the dialog was closed.
\<close>

section \<open>Fields and buttons\<close>

record text_field =
  tf_label :: string
  tf_hint :: string
  tf_value :: jsval
  tf_type :: string
  tf_icon :: string
  tf_error :: bool
  tf_messages :: string

text \<open>A message is kept by its key; the empty text is shown as it is.\<close>

definition message_shown :: "(string \<Rightarrow> string) \<Rightarrow> string \<Rightarrow> string" where
  "message_shown t m = (if m = [] then [] else t m)"

definition password_field :: "(string \<Rightarrow> string) \<Rightarrow> string \<Rightarrow> string \<Rightarrow> bool \<Rightarrow> bool \<Rightarrow> string \<Rightarrow> text_field" where
  "password_field t label v showPassword err msg = \<lparr>
     tf_label = t label @ ''*'',
     tf_hint = t ''PASSWORD_HINT'',
     tf_value = JStr v,
     tf_type = (if showPassword then ''text'' else ''password''),
     tf_icon = (if showPassword then ''visibility'' else ''visibility_off''),
     tf_error = err,
     tf_messages = message_shown t msg\<rparr>"

definition beneficiary_field :: "(string \<Rightarrow> string) \<Rightarrow> string \<Rightarrow> jsval \<Rightarrow> bool \<Rightarrow> string \<Rightarrow> text_field" where
  "beneficiary_field t label v err msg = \<lparr>
     tf_label = label,
     tf_hint = t ''settings.BENEFICIARY_HINT'',
     tf_value = v,
     tf_type = ''text'',
     tf_icon = [],
     tf_error = err,
     tf_messages = message_shown t msg\<rparr>"

text \<open>\<open>ClipboardText.vue\<close>: a field that cannot be edited, with a button that copies its value.\<close>

record clipboard_text =
  ct_label :: string
  ct_value :: jsval
  ct_hideDetails :: bool
  ct_copied :: jsval

definition ClipboardText :: "string \<Rightarrow> jsval \<Rightarrow> bool \<Rightarrow> clipboard_text" where
  "ClipboardText label value hideDetails =
     \<lparr>ct_label = label, ct_value = value, ct_hideDetails = hideDetails, ct_copied = value\<rparr>"

section \<open>The dialogs\<close>

datatype handler = Cancel | Next | Toggle

datatype page_part = Field text_field | Copyable clipboard_text

text \<open>\<open>dg_page\<close> is the item of the window for the current step, if there is one.\<close>

record dialog_screen =
  dg_title :: string
  dg_page :: "page_part option"
  dg_submit :: "handler option"
  dg_toggle :: "handler option"
  dg_buttons :: "(string \<times> handler) list"

definition dg_offers :: "dialog_screen \<Rightarrow> handler \<Rightarrow> bool" where
  "dg_offers sc h \<longleftrightarrow> h \<in> set (map snd (dg_buttons sc)) \<or> dg_submit sc = Some h \<or> dg_toggle sc = Some h"

definition vp_screen :: "(string \<Rightarrow> string) \<Rightarrow> string \<Rightarrow> verification_dialog \<Rightarrow> dialog_screen option" where
  "vp_screen t title d =
     (if \<not> vp_visible d then None
      else Some \<lparr>dg_title = title,
        dg_page = (if vp_step d = 1
          then Some (Field (password_field t ''PASSWORD'' (vp_password d) (vp_showPassword d)
                 (vp_passwordError d) (vp_passwordErrorMessage d)))
          else None),
        dg_submit = (if vp_step d = 1 then Some Next else None),
        dg_toggle = (if vp_step d = 1 then Some Toggle else None),
        dg_buttons = [(''fas fa-times'', Cancel), (t ''CANCEL'', Cancel),
          if vp_step d = 3 then (t ''CLOSE'', Cancel) else (t ''NEXT'', Next)]\<rparr>)"

definition sd_screen :: "(string \<Rightarrow> string) \<Rightarrow> seed_dialog \<Rightarrow> dialog_screen option" where
  "sd_screen t d =
     (if \<not> sd_visible d then None
      else Some \<lparr>dg_title = t ''SECRET_SEED'',
        dg_page = (if sd_step d = 1
          then Some (Field (password_field t ''PASSWORD'' (sd_password d) (sd_showPassword d)
                 (sd_passwordError d) (sd_passwordErrorMessage d)))
          else if sd_step d = 2 then Some (Copyable (ClipboardText (t ''SECRET_SEED'') (sd_secretSeed d) False))
          else None),
        dg_submit = (if sd_step d = 1 then Some Next else None),
        dg_toggle = (if sd_step d = 1 then Some Toggle else None),
        dg_buttons = [(''fas fa-times'', Cancel), (t ''CANCEL'', Cancel)] @
          (if sd_step d = 1 then [(t ''NEXT'', Next)] else []) @
          (if sd_step d = 2 then [(t ''CLOSE'', Cancel)] else [])\<rparr>)"

definition ba_screen :: "(string \<Rightarrow> string) \<Rightarrow> beneficiary_dialog \<Rightarrow> dialog_screen option" where
  "ba_screen t d =
     (if \<not> ba_visible d then None
      else Some \<lparr>dg_title = t ''BENEFICIARY'',
        dg_page = (if ba_step d = 1
          then Some (Field (password_field t ''PASSWORD'' (ba_password d) (ba_showPassword d)
                 (ba_passwordError d) (ba_passwordErrorMessage d)))
          else if ba_step d = 2
          then Some (Field (beneficiary_field t (t ''BENEFICIARY'') (JStr (ba_beneficiaryAddr d))
                 (ba_beneficiaryAddrError d) (ba_beneficiaryAddrErrorMessage d)))
          else None),
        dg_submit = (if ba_step d = 1 \<or> ba_step d = 2 then Some Next else None),
        dg_toggle = (if ba_step d = 1 then Some Toggle else None),
        dg_buttons = [(''fas fa-times'', Cancel), (t ''CANCEL'', Cancel),
          if ba_step d = 3 then (t ''CLOSE'', Cancel) else (t ''NEXT'', Next)]\<rparr>)"

text \<open>The snackbar of \<open>Result.vue\<close>: its colour, its text, how long it stays, and the button that closes it.\<close>

definition rb_screen :: "(string \<Rightarrow> string) \<Rightarrow> result_bar \<Rightarrow> (string \<times> string \<times> int \<times> string) option" where
  "rb_screen t b =
     (if \<not> rb_visible b then None
      else Some (rb_type b, (case rb_message (rb_type b) of None \<Rightarrow> [] | Some k \<Rightarrow> t k), rb_timeout b, ''Close''))"

section \<open>Runs of a dialog\<close>

text \<open>
  \<open>Press\<close> and the two ways of typing count only when the screen offers them. Closing tells the parent, whose
  flag then changes the property \<open>value\<close> and runs its watcher; a close of a closed dialog changes
  nothing there. \<open>Open\<close> is the parent setting the flag. The number with a dialog is that of
  the answers it still waits for.
\<close>

datatype dialog_event = Press handler | TypePassword string | TypeAddr string | Answer result | Open

definition offers :: "dialog_screen option \<Rightarrow> handler \<Rightarrow> bool" where
  "offers sc h \<longleftrightarrow> (case sc of None \<Rightarrow> False | Some s \<Rightarrow> dg_offers s h)"

definition vp_close :: "verification_dialog \<Rightarrow> verification_dialog \<Rightarrow> verification_dialog" where
  "vp_close old d = (if vp_visible old \<and> \<not> vp_visible d then vp_watch_value False d else d)"

fun vp_ui :: "cryptojs \<Rightarrow> form_validate \<Rightarrow> dialog_event \<Rightarrow> verification_dialog \<times> nat \<Rightarrow> verification_dialog \<times> nat" where
  "vp_ui cj validate (Press h) (d, n) =
     (if \<not> offers (vp_screen id [] d) h then (d, n)
      else case h of
        Cancel \<Rightarrow> (vp_close d (vp_cancel d), n)
      | Next \<Rightarrow> (d, if vp_next cj validate d = None then n else Suc n)
      | Toggle \<Rightarrow> (vp_toggle d, n))"
| "vp_ui cj validate (TypePassword v) (d, n) =
     (if offers (vp_screen id [] d) Toggle then (vp_watch_password v d, n) else (d, n))"
| "vp_ui cj validate (TypeAddr v) (d, n) = (d, n)"
| "vp_ui cj validate (Answer r) (d, n) =
     (case n of 0 \<Rightarrow> (d, 0) | Suc m \<Rightarrow> (vp_close d (vp_next_done r d), m))"
| "vp_ui cj validate Open (d, n) = (vp_watch_value True d, n)"

definition sd_close :: "seed_dialog \<Rightarrow> seed_dialog \<Rightarrow> seed_dialog" where
  "sd_close old d = (if sd_visible old \<and> \<not> sd_visible d then sd_watch_value False d else d)"

fun sd_ui :: "cryptojs \<Rightarrow> form_validate \<Rightarrow> dialog_event \<Rightarrow> seed_dialog \<times> nat \<Rightarrow> seed_dialog \<times> nat" where
  "sd_ui cj validate (Press h) (d, n) =
     (if \<not> offers (sd_screen id d) h then (d, n)
      else case h of
        Cancel \<Rightarrow> (sd_close d (sd_cancel d), n)
      | Next \<Rightarrow> (d, if sd_next cj validate d = None then n else Suc n)
      | Toggle \<Rightarrow> (sd_toggle d, n))"
| "sd_ui cj validate (TypePassword v) (d, n) =
     (if offers (sd_screen id d) Toggle then (sd_watch_password v d, n) else (d, n))"
| "sd_ui cj validate (TypeAddr v) (d, n) = (d, n)"
| "sd_ui cj validate (Answer r) (d, n) =
     (case n of 0 \<Rightarrow> (d, 0) | Suc m \<Rightarrow> (sd_close d (sd_next_done r d), m))"
| "sd_ui cj validate Open (d, n) = (sd_watch_value True d, n)"

definition ba_close :: "beneficiary_dialog \<Rightarrow> beneficiary_dialog \<Rightarrow> beneficiary_dialog" where
  "ba_close old d = (if ba_visible old \<and> \<not> ba_visible d then ba_watch_value False d else d)"

text \<open>The answers of this dialog go to the branch its step was in at the press.\<close>

fun ba_ui :: "cryptojs \<Rightarrow> form_validate \<Rightarrow> (jsval \<Rightarrow> bool) \<Rightarrow> dialog_event \<Rightarrow>
    beneficiary_dialog \<times> waiting \<Rightarrow> beneficiary_dialog \<times> waiting" where
  "ba_ui cj validate ok (Press h) (d, ws) =
     (if \<not> offers (ba_screen id d) h then (d, ws)
      else case h of
        Cancel \<Rightarrow> (ba_close d (ba_cancel d), ws)
      | Next \<Rightarrow> ba_press cj validate (d, ws)
      | Toggle \<Rightarrow> (ba_toggle d, ws))"
| "ba_ui cj validate ok (TypePassword v) (d, ws) =
     (if offers (ba_screen id d) Toggle then (ba_watch_password v d, ws) else (d, ws))"
| "ba_ui cj validate ok (TypeAddr v) (d, ws) =
     (if ba_visible d \<and> ba_step d = 2 then (ba_input_addr v d, ws) else (d, ws))"
| "ba_ui cj validate ok (Answer r) (d, ws) =
     (let (d', ws') = ba_answer ok r (d, ws) in (ba_close d d', ws'))"
| "ba_ui cj validate ok Open (d, ws) = (ba_watch_value True d, ws)"

section \<open>The wallet pages\<close>

record page_screen =
  pg_title :: string
  pg_fields :: "text_field list"
  pg_button :: string
  pg_on_enter :: bool

definition op_screen :: "(string \<Rightarrow> string) \<Rightarrow> open_page \<Rightarrow> page_screen" where
  "op_screen t pg = \<lparr>pg_title = t ''WALLET_OPEN'',
     pg_fields = [password_field t ''PASSWORD'' (op_password pg) (op_showPassword pg)
       (op_passwordError pg) (op_passwordErrorMessage pg)],
     pg_button = t ''OPEN'', pg_on_enter = True\<rparr>"

definition cr_screen :: "(string \<Rightarrow> string) \<Rightarrow> client \<Rightarrow> create_page \<Rightarrow> page_screen" where
  "cr_screen t st pg = \<lparr>pg_title = t ''WALLET_CREATE'',
     pg_fields = [
       password_field t ''PASSWORD'' (cr_password pg) (cr_showPassword pg)
         (cr_passwordError pg) (cr_passwordErrorMessage pg),
       password_field t ''PASSWORD_CONFIRM'' (cr_passwordConfirm pg) (cr_showPasswordConfirm pg)
         (cr_passwordConfirmError pg) (cr_passwordConfirmErrorMessage pg),
       beneficiary_field t (js_text (cr_label (t ''BENEFICIARY'') st)) (cr_beneficiaryAddr pg)
         (cr_beneficiaryAddrError pg) (cr_beneficiaryAddrErrorMessage pg)],
     pg_button = t ''CREATE'', pg_on_enter = False\<rparr>"

section \<open>NumberInput.vue, settings.vue\<close>

text \<open>
  The text field, and the slider beside it with the icons that step down and up. \<open>nv_icon\<close> says whether the
  token's picture is in the field, \<open>nv_tip\<close> is the text of the tooltip: the two slots.
\<close>

record number_view =
  nv_label :: string
  nv_value :: jsval
  nv_suffix :: string
  nv_icon :: bool
  nv_tip :: string
  nv_slider :: jsval
  nv_color :: string
  nv_min :: jsnum
  nv_max :: jsnum
  nv_step :: jsnum

definition number_screen :: "string \<Rightarrow> string \<Rightarrow> bool \<Rightarrow> string \<Rightarrow> jsval \<Rightarrow> number_input \<Rightarrow> number_view" where
  "number_screen label suffix icon tip value ni = \<lparr>nv_label = label, nv_value = value, nv_suffix = suffix,
     nv_icon = icon, nv_tip = tip, nv_slider = ni_val ni, nv_color = color ni,
     nv_min = ni_min ni, nv_max = ni_max ni, nv_step = ni_step ni\<rparr>"

text \<open>The five number fields, in the order of the page.\<close>

definition se_fields :: "(string \<Rightarrow> string) \<Rightarrow> settings_page \<Rightarrow> number_view list" where
  "se_fields t pg = [
     number_screen (t ''config.Register_ID_Txn_Fee'') [] True (t ''tooltip.Register_ID_Txn_Fee_TOOLTIP'')
       (se_registerIDTxnFee pg) (field_registerIDTxnFee pg),
     number_screen (t ''config.Low_Fee_Txn_Size_Per_Block'') ''kb'' False (t ''tooltip.Low_Fee_Txn_Size_Per_Block_TOOLTIP'')
       (se_lowFeeTxnSizePerBlock pg) (field_lowFeeTxnSizePerBlock pg),
     number_screen (t ''config.Num_Low_Fee_Txn_Per_Block'') [] False (t ''tooltip.Num_Low_Fee_Txn_Per_Block_TOOLTIP'')
       (se_numLowFeeTxnPerBlock pg) (field_numLowFeeTxnPerBlock pg),
     number_screen (t ''config.Low_Txn_Fee'') [] True (t ''tooltip.Low_Txn_Fee_TOOLTIP'')
       (se_lowTxnFee pg) (field_lowTxnFee pg),
     number_screen (t ''config.Low_Txn_Fee_Per_Size'') [] True (t ''tooltip.Low_Txn_Fee_Per_Size_TOOLTIP'')
       (se_lowTxnFeePerSize pg) (field_lowTxnFeePerSize pg)]"

datatype se_handler = EditBeneficiary | Submit | Reset

record settings_screen =
  sv_title :: string
  sv_beneficiary_title :: string
  sv_beneficiary :: clipboard_text
  sv_beneficiary_hint :: string
  sv_config_title :: string
  sv_fields :: "number_view list"
  sv_buttons :: "(string \<times> se_handler) list"

text \<open>\<open>None\<close>: the status has no properties to read.\<close>

definition se_screen :: "(string \<Rightarrow> string) \<Rightarrow> jsval \<Rightarrow> settings_page \<Rightarrow> settings_screen option" where
  "se_screen t ns pg = map_option (\<lambda>addr.
     \<lparr>sv_title = t ''settings.TITLE'',
      sv_beneficiary_title = t ''settings.BENEFICIARY_TITLE'',
      sv_beneficiary = ClipboardText (t ''BENEFICIARY'') addr False,
      sv_beneficiary_hint = t ''settings.BENEFICIARY_HINT'',
      sv_config_title = t ''settings.CONFIG_TITLE'',
      sv_fields = se_fields t pg,
      sv_buttons = [(''far fa-edit'', EditBeneficiary), (t ''SUBMIT'', Submit), (t ''RESET'', Reset)]\<rparr>)
     (js_get ns ''beneficiaryAddr'')"

text \<open>The dialogs of the page, created closed; the password dialog has the title of the button.\<close>

definition se_dialogs :: "settings_page \<Rightarrow> beneficiary_dialog \<times> verification_dialog \<times> result_bar" where
  "se_dialogs pg = (ba_init (se_beneficiaryAddrDialog pg), vp_init (se_submitDialog pg),
     rb_init (se_submitResultDialog pg) (Some (se_submitResult pg)) (Some 3000))"

section \<open>nodeStatus.vue, loading.vue, Neighbors.vue, WatchOutBoundCount.vue, Footer.vue\<close>

text \<open>The wallet card's fields that can be copied, and the dialogs of the page.\<close>

definition np_copies :: "(string \<Rightarrow> string) \<Rightarrow> jsval \<Rightarrow> clipboard_text list option" where
  "np_copies t ws =
     (case (js_get ws ''address'', js_get ws ''publicKey'') of
        (Some a, Some k) \<Rightarrow> Some [ClipboardText (t ''WALLET_ADDRESS'') a True, ClipboardText (t ''PUBLIC_KEY'') k True]
      | _ \<Rightarrow> None)"

definition np_dialogs :: "node_page \<Rightarrow> seed_dialog \<times> verification_dialog" where
  "np_dialogs pg = (sd_init (np_secretSeedDialog pg), vp_init (np_verificationPasswordDialog pg))"

text \<open>The circle of the waiting pages: its size, its width, its colour.\<close>

definition loading_screen :: "int \<times> int \<times> string" where
  "loading_screen = (70, 7, ''grey'')"

definition index_screen :: "int \<times> int \<times> string" where
  "index_screen = (70, 7, ''grey'')"

text \<open>What the page hands to the table component besides its headers and rows.\<close>

record neighbors_screen =
  ns_title :: string
  ns_search_label :: string
  ns_headers :: "string list"
  ns_rows :: "(string \<times> string \<times> string \<times> string \<times> string) list"
  ns_sort_by :: "string list"
  ns_sort_desc :: "bool list"
  ns_no_data :: string
  ns_per_page :: string

definition nb_screen :: "(string \<Rightarrow> string) \<Rightarrow> (jsval \<Rightarrow> string) \<Rightarrow> neighbors_view \<Rightarrow> jsval list \<Rightarrow> neighbors_screen option" where
  "nb_screen t pretty nb items = map_option (\<lambda>rows.
     \<lparr>ns_title = t ''neighbor.TITLE'', ns_search_label = t ''SEARCH'',
      ns_headers = map (\<lambda>(k, _). t k) (nb_headers nb),
      ns_rows = map (\<lambda>(i, a, s, b, p). (i, a, t s, (case b of None \<Rightarrow> [] | Some k \<Rightarrow> t k), p)) rows,
      ns_sort_by = [''addr''], ns_sort_desc = [False],
      ns_no_data = t ''NO_DATA'', ns_per_page = t ''PER_PAGE_TEXT''\<rparr>)
     (those (map (nb_row pretty) items))"

text \<open>The bar's colour and text, and its button.\<close>

definition wb_screen :: "(string \<Rightarrow> string) \<Rightarrow> count_by \<Rightarrow> client \<Rightarrow> warning_bar \<Rightarrow> (string \<times> string \<times> string) option option" where
  "wb_screen t countBy st w =
     map_option (\<lambda>b. if b then Some (''warning'', t ''neighbor.WARNING'', ''Close'') else None) (wb_shown countBy st w)"

definition footer_screen :: "(string \<Rightarrow> string) \<Rightarrow> (string \<times> string \<times> string) list \<times> string \<times> string \<times> string" where
  "footer_screen t = (map (\<lambda>(icon, tip, url). (url, icon, tip)) footer_icons, t ''footer.TITLE'', t ''footer.TEXT'',
     ''Copyright '' @ u8 [169] @ '' 2019 '' @ u8 [8212] @ '' nkn-web'')"

text \<open>The line under a table: the first and the last row on the page, and the number of rows.\<close>

definition page_text :: "(jsval \<Rightarrow> string) \<Rightarrow> jsval \<Rightarrow> jsval \<Rightarrow> jsval \<Rightarrow> string" where
  "page_text pretty pageStart pageStop itemsLength =
     vue_text pretty pageStart @ '' - '' @ vue_text pretty pageStop @ '' of '' @ vue_text pretty itemsLength"

text \<open>The table of rewards: its title, the label of its search field, its headers and its rows.\<close>

definition lmr_screen :: "(jsval \<Rightarrow> string) \<Rightarrow> (string \<times> string \<times> string list \<times> string list list) option" where
  "lmr_screen pretty =
     map_option (\<lambda>rows. (''Latest mining rewards'', ''Search'', map fst lmr_headers, rows))
       (those (map (lmr_row pretty) lmr_desserts))"

text \<open>\<open>Drawer.vue\<close>, which no layout uses: its flags, and the components it names.\<close>

record drawer =
  dr_clipped :: bool
  dr_drawer :: bool
  dr_miniVariant :: bool

definition drawer_data :: drawer where
  "drawer_data = \<lparr>dr_clipped = False, dr_drawer = True, dr_miniVariant = False\<rparr>"

definition drawer_screen :: "drawer \<Rightarrow> (string \<times> string list) option" where
  "drawer_screen d = (if dr_drawer d then Some (''My wallet'', [''Wallet'', ''Wallet2'', ''AddWallet'']) else None)"

section \<open>What every run of a dialog keeps\<close>

lemmas vp_defs = vp_close_def vp_cancel_def vp_watch_value_def vp_watch_password_def vp_toggle_def vp_next_done_def vp_init_def
lemmas sd_defs = sd_close_def sd_cancel_def sd_watch_value_def sd_watch_password_def sd_toggle_def sd_next_done_def sd_init_def
lemmas ba_defs = ba_close_def ba_cancel_def ba_watch_value_def ba_watch_password_def ba_toggle_def ba_next_done_def ba_init_def
  ba_input_addr_def ba_press_def ba_answer_def

lemma offers_simps [simp]:
  "offers (vp_screen t title d) Toggle \<longleftrightarrow> vp_visible d \<and> vp_step d = 1"
  "offers (vp_screen t title d) Cancel \<longleftrightarrow> vp_visible d"
  "offers (vp_screen t title d) Next \<longleftrightarrow> vp_visible d \<and> vp_step d \<noteq> 3"
  "offers (sd_screen t e) Toggle \<longleftrightarrow> sd_visible e \<and> sd_step e = 1"
  "offers (sd_screen t e) Cancel \<longleftrightarrow> sd_visible e"
  "offers (sd_screen t e) Next \<longleftrightarrow> sd_visible e \<and> sd_step e = 1"
  "offers (ba_screen t b) Toggle \<longleftrightarrow> ba_visible b \<and> ba_step b = 1"
  "offers (ba_screen t b) Cancel \<longleftrightarrow> ba_visible b"
  "offers (ba_screen t b) Next \<longleftrightarrow> ba_visible b \<and> ba_step b \<noteq> 3"
  by (auto simp: offers_def dg_offers_def vp_screen_def sd_screen_def ba_screen_def)

text \<open>The password dialog stays at its only page, and a closed one holds no password.\<close>

definition vp_inv :: "verification_dialog \<times> nat \<Rightarrow> bool" where
  "vp_inv = (\<lambda>(d, n). vp_step d = 1 \<and> (vp_visible d \<or> vp_password d = []) \<and>
     vp_passwordErrorMessage d \<in> {[], ''PASSWORD_ERROR''})"

interpretation vp_kept: kept_by_steps "vp_ui cj validate" "\<lambda>_. True" vp_inv for cj validate
proof
  show "vp_inv (vp_ui cj validate e s)" if "vp_inv s" for e s
    using that by (cases s; cases e)
      (auto simp: vp_inv_def vp_defs split: handler.split nat.split result.split js_error.split)
qed

text \<open>The seed dialog is past its first page only with a seed that is in \<open>S\<close>, if the answers bring only such.\<close>

definition seeds_in :: "jsval set \<Rightarrow> dialog_event \<Rightarrow> bool" where
  "seeds_in S e \<longleftrightarrow> (\<forall>res s. e = Answer (Resolved res) \<longrightarrow> js_get res ''secretSeed'' = Some s \<longrightarrow> s \<in> S)"

definition sd_inv :: "jsval set \<Rightarrow> seed_dialog \<times> nat \<Rightarrow> bool" where
  "sd_inv S = (\<lambda>(d, n). 1 \<le> sd_step d \<and> (sd_step d = 1 \<or> sd_secretSeed d \<in> S) \<and>
     sd_passwordErrorMessage d \<in> {[], ''PASSWORD_ERROR''})"

interpretation sd_kept: kept_by_steps "sd_ui cj validate" "seeds_in S" "sd_inv S" for cj validate S
proof
  show "sd_inv S (sd_ui cj validate e s)" if "seeds_in S e" "sd_inv S s" for e s
    using that by (cases s; cases e)
      (auto simp: sd_inv_def seeds_in_def sd_defs split: handler.split nat.split result.split js_error.split option.split)
qed

definition ba_inv :: "beneficiary_dialog \<times> waiting \<Rightarrow> bool" where
  "ba_inv = (\<lambda>(d, ws). 1 \<le> ba_step d \<and> ba_passwordErrorMessage d \<in> {[], ''PASSWORD_ERROR''} \<and>
     ba_beneficiaryAddrErrorMessage d \<in> {[], ''settings.BENEFICIARY_ERROR''})"

interpretation ba_kept: kept_by_steps "ba_ui cj validate ok" "\<lambda>_. True" ba_inv for cj validate ok
proof
  show "ba_inv (ba_ui cj validate ok e s)" if "ba_inv s" for e s
    using that by (cases s; cases e)
      (auto simp: ba_inv_def ba_defs Let_def split: handler.split list.split result.split js_error.split)
qed

lemma inits_ok: "vp_inv (vp_init b, n)" "sd_inv S (sd_init b, n)" "ba_inv (ba_init b, ws)"
  by (simp_all add: vp_inv_def sd_inv_def ba_inv_def vp_init_def sd_init_def ba_init_def)

text \<open>An answer in time: the seed is on the screen.\<close>

lemma sd_shows:
  assumes "form_std validate" and "js_get res ''secretSeed'' = Some s" and "pw \<noteq> []"
  shows "\<exists>sc. sd_screen t (fst (fold (sd_ui cj validate) [Open, TypePassword pw, Press Next, Answer (Resolved res)] (sd_init False, 0))) = Some sc \<and>
    dg_page sc = Some (Copyable (ClipboardText (t ''SECRET_SEED'') s False))"
proof -
  have "fold (sd_ui cj validate) [Open, TypePassword pw, Press Next, Answer (Resolved res)] (sd_init False, 0) =
      ((sd_init True)\<lparr>sd_password := pw, sd_step := 2, sd_secretSeed := s\<rparr>, 0)"
    using assms form_std.validate_iff [OF assms(1)] by (simp add: sd_defs sd_next_def password_rule_def)
  then show ?thesis by (simp add: sd_screen_def sd_init_def)
qed

text \<open>Two translations that agree on the used keys give the same screens.\<close>

lemma keys_agree:
  assumes "list_all (\<lambda>k. t k = t' k) used_keys"
  shows "t ''PASSWORD'' = t' ''PASSWORD''"
    "t ''PASSWORD_CONFIRM'' = t' ''PASSWORD_CONFIRM''"
    "t ''PASSWORD_HINT'' = t' ''PASSWORD_HINT''"
    "t ''PASSWORD_ERROR'' = t' ''PASSWORD_ERROR''"
    "t ''CANCEL'' = t' ''CANCEL''"
    "t ''CLOSE'' = t' ''CLOSE''"
    "t ''NEXT'' = t' ''NEXT''"
    "t ''SECRET_SEED'' = t' ''SECRET_SEED''"
    "t ''BENEFICIARY'' = t' ''BENEFICIARY''"
    "t ''SUBMIT'' = t' ''SUBMIT''"
    "t ''RESET'' = t' ''RESET''"
    "t ''CREATE'' = t' ''CREATE''"
    "t ''OPEN'' = t' ''OPEN''"
    "t ''WALLET_CREATE'' = t' ''WALLET_CREATE''"
    "t ''WALLET_OPEN'' = t' ''WALLET_OPEN''"
    "t ''settings.BENEFICIARY_HINT'' = t' ''settings.BENEFICIARY_HINT''"
    "t ''settings.BENEFICIARY_ERROR'' = t' ''settings.BENEFICIARY_ERROR''"
    "t ''settings.TITLE'' = t' ''settings.TITLE''"
    "t ''settings.BENEFICIARY_TITLE'' = t' ''settings.BENEFICIARY_TITLE''"
    "t ''settings.CONFIG_TITLE'' = t' ''settings.CONFIG_TITLE''"
    "t ''neighbor.WARNING'' = t' ''neighbor.WARNING''"
    "t ''footer.TITLE'' = t' ''footer.TITLE''"
    "t ''footer.TEXT'' = t' ''footer.TEXT''"
    "t ''config.Register_ID_Txn_Fee'' = t' ''config.Register_ID_Txn_Fee''"
    "t ''config.Low_Fee_Txn_Size_Per_Block'' = t' ''config.Low_Fee_Txn_Size_Per_Block''"
    "t ''config.Num_Low_Fee_Txn_Per_Block'' = t' ''config.Num_Low_Fee_Txn_Per_Block''"
    "t ''config.Low_Txn_Fee'' = t' ''config.Low_Txn_Fee''"
    "t ''config.Low_Txn_Fee_Per_Size'' = t' ''config.Low_Txn_Fee_Per_Size''"
    "t ''tooltip.Register_ID_Txn_Fee_TOOLTIP'' = t' ''tooltip.Register_ID_Txn_Fee_TOOLTIP''"
    "t ''tooltip.Low_Fee_Txn_Size_Per_Block_TOOLTIP'' = t' ''tooltip.Low_Fee_Txn_Size_Per_Block_TOOLTIP''"
    "t ''tooltip.Num_Low_Fee_Txn_Per_Block_TOOLTIP'' = t' ''tooltip.Num_Low_Fee_Txn_Per_Block_TOOLTIP''"
    "t ''tooltip.Low_Txn_Fee_TOOLTIP'' = t' ''tooltip.Low_Txn_Fee_TOOLTIP''"
    "t ''tooltip.Low_Txn_Fee_Per_Size_TOOLTIP'' = t' ''tooltip.Low_Txn_Fee_Per_Size_TOOLTIP''"
  by (insert assms, unfold used_keys_def list.pred_inject, (elim conjE, assumption)+)

lemma field_agree:
  assumes "list_all (\<lambda>k. t k = t' k) used_keys"
  shows "password_field t ''PASSWORD'' v sh err [] = password_field t' ''PASSWORD'' v sh err []"
    and "password_field t ''PASSWORD'' v sh err ''PASSWORD_ERROR'' = password_field t' ''PASSWORD'' v sh err ''PASSWORD_ERROR''"
    and "password_field t ''PASSWORD_CONFIRM'' v sh err [] = password_field t' ''PASSWORD_CONFIRM'' v sh err []"
    and "beneficiary_field t l a err [] = beneficiary_field t' l a err []"
    and "beneficiary_field t l a err ''settings.BENEFICIARY_ERROR'' = beneficiary_field t' l a err ''settings.BENEFICIARY_ERROR''"
  by (simp_all add: password_field_def beneficiary_field_def message_shown_def keys_agree [OF assms])

lemma vp_screen_agree:
  assumes "list_all (\<lambda>k. t k = t' k) used_keys" and "vp_inv s"
  shows "vp_screen t title (fst s) = vp_screen t' title (fst s)"
proof -
  have "vp_passwordErrorMessage (fst s) = [] \<or> vp_passwordErrorMessage (fst s) = ''PASSWORD_ERROR''"
    using assms(2) by (auto simp: vp_inv_def)
  then show ?thesis
    by (elim disjE) (simp_all add: vp_screen_def field_agree [OF assms(1)] keys_agree [OF assms(1)])
qed

lemma sd_screen_agree:
  assumes "list_all (\<lambda>k. t k = t' k) used_keys" and "sd_inv S s"
  shows "sd_screen t (fst s) = sd_screen t' (fst s)"
proof -
  have "sd_passwordErrorMessage (fst s) = [] \<or> sd_passwordErrorMessage (fst s) = ''PASSWORD_ERROR''"
    using assms(2) by (auto simp: sd_inv_def)
  then show ?thesis
    by (elim disjE) (simp_all add: sd_screen_def field_agree [OF assms(1)] keys_agree [OF assms(1)])
qed

lemma ba_screen_agree:
  assumes "list_all (\<lambda>k. t k = t' k) used_keys" and "ba_inv s"
  shows "ba_screen t (fst s) = ba_screen t' (fst s)"
proof -
  have "ba_passwordErrorMessage (fst s) = [] \<or> ba_passwordErrorMessage (fst s) = ''PASSWORD_ERROR''"
    and "ba_beneficiaryAddrErrorMessage (fst s) = [] \<or> ba_beneficiaryAddrErrorMessage (fst s) = ''settings.BENEFICIARY_ERROR''"
    using assms(2) by (auto simp: ba_inv_def)
  then show ?thesis
    by (elim disjE) (simp_all add: ba_screen_def field_agree [OF assms(1)] keys_agree [OF assms(1)])
qed

lemma page_screens_agree:
  assumes "list_all (\<lambda>k. t k = t' k) used_keys"
  shows "op_screen t op_init = op_screen t' op_init" "cr_screen t st cr_init = cr_screen t' st cr_init"
    "se_screen t ns pg = se_screen t' ns pg" "footer_screen t = footer_screen t'"
  by (simp_all add: op_screen_def op_init_def cr_screen_def cr_init_def se_screen_def se_fields_def
      footer_screen_def field_agree [OF assms] keys_agree [OF assms])

lemma wb_screen_agree:
  assumes "list_all (\<lambda>k. t k = t' k) used_keys"
  shows "wb_screen t countBy st w = wb_screen t' countBy st w"
  by (cases "wb_shown countBy st w") (simp_all add: wb_screen_def keys_agree [OF assms])

section \<open>Properties\<close>

text \<open>
  Whatever is pressed, typed and answered, and in whatever order, the password dialog shows the
  password field with CANCEL and NEXT whenever it is open (its CLOSE button never appears), and
  holds no password when it is closed.
\<close>

theorem password_dialog_screens:
  "let d = fst (fold (vp_ui cj validate) evs (vp_init b, 0)) in
   case vp_screen t title d of
     None \<Rightarrow> vp_password d = []
   | Some sc \<Rightarrow>
       dg_page sc = Some (Field (password_field t ''PASSWORD'' (vp_password d) (vp_showPassword d)
         (vp_passwordError d) (vp_passwordErrorMessage d))) \<and>
       dg_submit sc = Some Next \<and>
       dg_buttons sc = [(''fas fa-times'', Cancel), (t ''CANCEL'', Cancel), (t ''NEXT'', Next)]"
proof -
  obtain d n where d: "fold (vp_ui cj validate) evs (vp_init b, 0) = (d, n)" by fastforce
  have "vp_inv (d, n)"
    using vp_kept.kept_by_run [OF any_event inits_ok(1)] d by metis
  then show ?thesis by (auto simp: d vp_inv_def vp_screen_def)
qed

text \<open>
  C16: the seed dialog shows a seed only if the server sent it: whatever is pressed, typed and answered, the
  text that can be copied is the \<open>secretSeed\<close> of one of the answers, and what is copied is what is
  shown.
\<close>

theorem seed_shown_was_sent:
  assumes "sd_screen t (fst (fold (sd_ui cj validate) evs (sd_init b, 0))) = Some sc"
    and "dg_page sc = Some (Copyable ct)"
  shows "ct_copied ct = ct_value ct \<and>
    (\<exists>res. Answer (Resolved res) \<in> set evs \<and> js_get res ''secretSeed'' = Some (ct_value ct))"
proof -
  obtain d n where d: "fold (sd_ui cj validate) evs (sd_init b, 0) = (d, n)" by fastforce
  define S where "S = {s. \<exists>res. Answer (Resolved res) \<in> set evs \<and> js_get res ''secretSeed'' = Some s}"
  have "list_all (seeds_in S) evs" by (auto simp: list_all_iff seeds_in_def S_def)
  from sd_kept.kept_by_run [OF this inits_ok(2), of cj validate b 0] have "sd_inv S (d, n)" by (simp add: d)
  with assms have "ct_copied ct = ct_value ct \<and> ct_value ct \<in> S"
    by (auto simp: d sd_screen_def sd_inv_def ClipboardText_def split: if_splits)
  then show ?thesis unfolding S_def by simp
qed

theorem seed_shown_was_sent_witness:
  "\<exists>res. Answer (Resolved res) \<in> set [Open, TypePassword ''pw'', Press Next, Answer (Resolved (JObj [(''secretSeed'', JStr ''ab'')]))] \<and>
     js_get res ''secretSeed'' = Some (JStr ''ab'')"
proof -
  let ?evs = "[Open, TypePassword ''pw'', Press Next, Answer (Resolved (JObj [(''secretSeed'', JStr ''ab'')]))]"
  obtain sc where sc: "sd_screen id (fst (fold (sd_ui std_cryptojs all_rules) ?evs (sd_init False, 0))) = Some sc"
    and page: "dg_page sc = Some (Copyable (ClipboardText ''SECRET_SEED'' (JStr ''ab'') False))"
    using sd_shows [of all_rules "JObj [(''secretSeed'', JStr ''ab'')]" "JStr ''ab''" "''pw''" id std_cryptojs] all_rules_ok by auto
  show ?thesis using seed_shown_was_sent [OF sc page] by (simp add: ClipboardText_def)
qed

text \<open>
  C28: an answer that arrives after the seed dialog was closed is not dropped. The dialog then stands at its
  second page, and the next time it is opened it shows the seed at once, without a password.
\<close>

theorem late_answer_shows_seed:
  assumes "form_std validate" and "pw \<noteq> []" and "js_get res ''secretSeed'' = Some s"
  shows "\<exists>d sc. fold (sd_ui cj validate)
      [Open, TypePassword pw, Press Next, Press Cancel, Answer (Resolved res), Open] (sd_init False, 0) = (d, 0) \<and>
    sd_password d = [] \<and> sd_screen t d = Some sc \<and>
    dg_page sc = Some (Copyable (ClipboardText (t ''SECRET_SEED'') s False))"
proof -
  have "fold (sd_ui cj validate) [Open, TypePassword pw, Press Next, Press Cancel, Answer (Resolved res), Open] (sd_init False, 0) =
      ((sd_init True)\<lparr>sd_step := 2, sd_secretSeed := s, sd_events := [EmitInput False]\<rparr>, 0)"
    using assms form_std.validate_iff [OF assms(1)] by (simp add: sd_defs sd_next_def password_rule_def)
  then show ?thesis by (simp add: sd_screen_def sd_init_def)
qed

theorem late_answer_shows_seed_witness:
  "\<exists>d sc. fold (sd_ui std_cryptojs all_rules)
      [Open, TypePassword ''pw'', Press Next, Press Cancel, Answer (Resolved (JObj [(''secretSeed'', JStr ''ab'')])), Open]
      (sd_init False, 0) = (d, 0) \<and> sd_password d = [] \<and> sd_screen id d = Some sc \<and>
    dg_page sc = Some (Copyable (ClipboardText ''SECRET_SEED'' (JStr ''ab'') False))"
  using late_answer_shows_seed [OF all_rules_ok, where pw = "''pw''" and t = id and cj = std_cryptojs
      and res = "JObj [(''secretSeed'', JStr ''ab'')]" and s = "JStr ''ab''"] by simp

text \<open>
  C27: cancelling the password dialog of the settings page does not stop a submission whose password is still
  being checked. When the answer arrives the page is called with the empty password; a server that refuses
  its request with 403 leaves the configuration as it is, and the page reports success.
\<close>

theorem cancelled_submit_reports_success:
  assumes "form_std validate" and "pw \<noteq> []" and "se_config D pg = Some cfg"
    and "auth_value cj (common st) [] = Some hdr"
    and "net \<lparr>req_method = PUT, req_url = ''/api/node/config'', req_body = cfg\<rparr> = http_outcome 403 x"
  shows "\<exists>d. fold (vp_ui cj validate) [Open, TypePassword pw, Press Next, Press Cancel, Answer (Resolved v)]
      (vp_init False, 0) = (d, 0) \<and> \<not> vp_visible d \<and>
    vp_events d = [EmitInput False, OnSuccess (JStr []), EmitInput False] \<and>
    rb_message (se_submitResult (fst (se_confirm cj D net [] pg st))) = Some ''settings.UPDATE_CONFIG_SUCCESS'' \<and>
    se_submitResultDialog (fst (se_confirm cj D net [] pg st))"
  using assms form_std.validate_iff [OF assms(1)]
  by (simp add: vp_defs vp_next_def password_rule_def se_confirm_def onSubmitSuccess_def setNodeConfig_def run_with_auth
      onSubmitSuccess_done_def rb_message_def http_outcome_def)

theorem cancelled_submit_reports_success_witness:
  "\<exists>d cfg. se_config std_decimaljs (se_reset se_data) = Some cfg \<and>
    fold (vp_ui std_cryptojs all_rules) [Open, TypePassword ''pw'', Press Next, Press Cancel, Answer (Resolved JUndef)]
      (vp_init False, 0) = (d, 0) \<and> \<not> vp_visible d \<and>
    se_submitResultDialog (fst (se_confirm std_cryptojs std_decimaljs (\<lambda>_. http_outcome 403 JUndef) [] (se_reset se_data)
      (sample_client None 1000)))"
proof -
  obtain hdr where hdr: "auth_value std_cryptojs (common (sample_client None 1000)) [] = Some hdr"
    using auth_value_shape [OF std_cryptojs_ok sample_synced [of None 1000]] by auto
  have cfg: "se_config std_decimaljs (se_reset se_data) = Some (config_data 0 0 4096 10000000 50000)"
    by (rule shows_config_sends [OF reset_shows_config [OF std_decimaljs_ok]])
  have refused: "(\<lambda>_. http_outcome 403 JUndef) rq = http_outcome 403 JUndef" for rq :: request by (rule refl)
  have "''pw'' \<noteq> []" by simp
  note run = cancelled_submit_reports_success [OF all_rules_ok this cfg hdr refused, where v = JUndef]
  from run cfg show ?thesis by blast
qed

text \<open>
  The beneficiary dialog, too, takes an answer that arrives after it was closed: opened again, it is at the
  page of the address, and asks the server with the empty password.
\<close>

theorem late_answer_skips_password:
  assumes "form_std validate" and "pw \<noteq> []"
  shows "\<exists>d. fold (ba_ui cj validate ok)
      [Open, TypePassword pw, Press Next, Press Cancel, Answer (Resolved v), Open] (ba_init False, []) = (d, []) \<and>
    ba_visible d \<and> ba_step d = 2 \<and> ba_next cj validate d = Some (setBeneficiaryAddr cj [] (JStr []))"
  using assms form_std.validate_iff [OF assms(1)] by (simp add: ba_defs ba_next_def password_rule_def)

text \<open>
  The settings page and the status page name the five settings alike and explain them with the
  same tooltips, in the same order.
\<close>

theorem config_rows_agree:
  assumes "np_rows D pretty svc ns = Some rows"
  shows "map (\<lambda>v. (nv_label v, nv_tip v)) (se_fields t pg) =
    map (\<lambda>(label, tip, _). (t label, case tip of None \<Rightarrow> [] | Some k \<Rightarrow> t k)) (drop 6 rows)"
  using assms by (auto simp: np_rows_def se_fields_def number_screen_def Let_def split: option.splits)



end
