(* ===== verification/Web_Worker.thy ===== *)
theory Web_Worker
  imports Web_Router "HOL-Library.Sublist"
begin

text \<open>
  The service worker \<open>src/web/sw.js\<close>: which calls of the caching library (workbox) its script makes, in
  order, for given options, and the options it ships with. The library itself is a parameter: its
  namespace object, which of its members can be constructed, and how it picks the handler of a
  request; the locale \<open>workbox_router\<close> states what its documentation says of the last. A script's
  effect is the list of its calls; \<open>None\<close>, or \<open>False\<close> beside the calls made so far, is a thrown
  exception. \<open>new RegExp\<close> is modelled for patterns of literal characters, the kind the options hold.
\<close>

section \<open>Values\<close>

text \<open>\<open>options.k\<close> of the options object.\<close>

definition option_of :: "(string \<times> jsval) list \<Rightarrow> string \<Rightarrow> jsval" where
  "option_of obj k = (case map_of obj k of None \<Rightarrow> JUndef | Some v \<Rightarrow> v)"

text \<open>\<open>v.length\<close>.\<close>

definition js_length :: "jsval \<Rightarrow> jsval option" where
  "js_length v =
     (case v of
        JArr vs \<Rightarrow> Some (JInt (int (length vs)))
      | JStr s \<Rightarrow> Some (JInt (int (length s)))
      | _ \<Rightarrow> js_get v ''length'')"

text \<open>\<open>...v\<close> among arguments and the iteration of a list; other values throw.\<close>

definition js_elems :: "jsval \<Rightarrow> jsval list option" where
  "js_elems v = (case v of JArr vs \<Rightarrow> Some vs | _ \<Rightarrow> None)"

text \<open>\<open>...v\<close> in an object literal.\<close>

definition js_props :: "jsval \<Rightarrow> (string \<times> jsval) list" where
  "js_props v = (case v of JObj ps \<Rightarrow> ps | _ \<Rightarrow> [])"

fun split_on :: "char \<Rightarrow> string \<Rightarrow> string list" where
  "split_on d [] = [[]]"
| "split_on d (c # s) =
     (if c = d then [] # split_on d s
      else case split_on d s of [] \<Rightarrow> [[c]] | w # ws \<Rightarrow> (c # w) # ws)"

definition literal_char :: "char \<Rightarrow> bool" where
  "literal_char c \<longleftrightarrow>
     (let n = (of_char c :: nat) in
      48 \<le> n \<and> n \<le> 57 \<or> 65 \<le> n \<and> n \<le> 90 \<or> 97 \<le> n \<and> n \<le> 122 \<or> c = CHR ''/'' \<or> c = CHR ''_'')"

definition RegExp :: "jsval \<Rightarrow> string option" where
  "RegExp v = (case v of JStr p \<Rightarrow> if list_all literal_char p then Some p else None | _ \<Rightarrow> None)"

definition regexp_test :: "string \<Rightarrow> string \<Rightarrow> bool" where
  "regexp_test p url \<longleftrightarrow> sublist p url"

section \<open>The library's calls\<close>

record workbox =
  wb_namespace :: jsval
  wb_newable :: "jsval \<Rightarrow> bool"

text \<open>\<open>Constructed c args\<close> is \<open>new c(...args)\<close>; a strategy is built from its options and its plugins.\<close>

datatype plugin = RequestInterceptor | Constructed jsval "jsval list"

datatype strategy = Strategy jsval "(string \<times> jsval) list" "plugin list"

datatype wb_call =
    ImportScripts "jsval list"
  | SetConfig jsval
  | SetCacheNameDetails jsval
  | ClientsClaim
  | SkipWaiting
  | CleanupOutdatedCaches
  | InitializeAnalytics
  | PrecacheAndRoute jsval jsval
  | RegisterRoute string strategy jsval
  | RegisterOffline string

section \<open>getProp, initWorkbox, precacheAssets\<close>

definition getProp :: "jsval \<Rightarrow> jsval \<Rightarrow> jsval option" where
  "getProp obj p =
     (case p of
        JStr s \<Rightarrow> foldl (\<lambda>q c. Option.bind q (\<lambda>v. js_get v c)) (Some obj) (split_on CHR ''.'' s)
      | _ \<Rightarrow> None)"

definition initWorkbox :: "(string \<times> jsval) list \<Rightarrow> wb_call list" where
  "initWorkbox options =
     (if truthy (option_of options ''config'') then [SetConfig (option_of options ''config'')] else []) @
     (if truthy (option_of options ''cacheNames'') then [SetCacheNameDetails (option_of options ''cacheNames'')] else []) @
     (if truthy (option_of options ''clientsClaim'') then [ClientsClaim] else []) @
     (if truthy (option_of options ''skipWaiting'') then [SkipWaiting] else []) @
     (if truthy (option_of options ''cleanupOutdatedCaches'') then [CleanupOutdatedCaches] else []) @
     (if truthy (option_of options ''offlineAnalytics'') then [InitializeAnalytics] else [])"

definition precacheAssets :: "(string \<times> jsval) list \<Rightarrow> wb_call list option" where
  "precacheAssets options =
     (case js_length (option_of options ''preCaching'') of
        None \<Rightarrow> None
      | Some n \<Rightarrow>
          Some (if truthy n then [PrecacheAndRoute (option_of options ''preCaching'') (option_of options ''cacheOptions'')] else []))"

section \<open>runtimeCaching\<close>

text \<open>What the interceptor reads of a request, and what a new one has beside its address.\<close>

record fetch_request =
  rq_url :: string
  rq_method :: string
  rq_headers :: "(string \<times> string) list"
  rq_cache :: string
  rq_mode :: string

text \<open>
  The attributes of a \<open>Request\<close> are accessors of its prototype, so the spread \<open>...request\<close> copies none
  of them: the new request has the address, the two members given, and the defaults.
\<close>

definition new_Request :: "string \<Rightarrow> string \<Rightarrow> string \<Rightarrow> fetch_request" where
  "new_Request url cache mode =
     \<lparr>rq_url = url, rq_method = ''GET'', rq_headers = [], rq_cache = cache, rq_mode = mode\<rparr>"

definition requestWillFetch :: "fetch_request \<Rightarrow> fetch_request" where
  "requestWillFetch request =
     (if rq_cache request = ''only-if-cached'' \<and> rq_mode request = ''no-cors''
      then new_Request (rq_url request) ''default'' ''no-cors''
      else request)"

text \<open>The new message of the error; both also write it to the console.\<close>

definition fetchDidFail :: "fetch_request \<Rightarrow> string \<Rightarrow> string" where
  "fetchDidFail request message =
     ''[workbox] Network request for '' @ rq_url request @ '' threw an error: '' @ message"

definition handlerDidError :: "string \<Rightarrow> string \<times> jsval" where
  "handlerDidError message = (''[workbox] Network handler threw an error: '' @ message, JNull)"

definition new_plugin :: "workbox \<Rightarrow> jsval \<Rightarrow> plugin option" where
  "new_plugin wb p =
     Option.bind (js_get p ''use'') (\<lambda>u.
     Option.bind (getProp (wb_namespace wb) u) (\<lambda>c.
     Option.bind (js_get p ''config'') (\<lambda>cfg.
     Option.bind (js_elems cfg) (\<lambda>args.
       if wb_newable wb c then Some (Constructed c args) else None))))"

fun all_some :: "('a \<Rightarrow> 'b option) \<Rightarrow> 'a list \<Rightarrow> 'b list option" where
  "all_some f [] = Some []"
| "all_some f (x # xs) = Option.bind (f x) (\<lambda>y. map_option ((#) y) (all_some f xs))"

text \<open>\<open>new workbox.strategies[name]\<close>.\<close>

definition strategy_class :: "workbox \<Rightarrow> jsval \<Rightarrow> jsval option" where
  "strategy_class wb name =
     Option.bind (js_get (wb_namespace wb) ''strategies'') (\<lambda>ss.
     Option.bind (js_get ss (js_text name)) (\<lambda>c. if wb_newable wb c then Some c else None))"

text \<open>One turn of the loop.\<close>

definition cache_entry :: "workbox \<Rightarrow> jsval \<Rightarrow> wb_call option" where
  "cache_entry wb entry =
     Option.bind (js_get entry ''urlPattern'') (\<lambda>pat.
     Option.bind (RegExp pat) (\<lambda>urlPattern.
     Option.bind (js_get entry ''method'') (\<lambda>m.
     Option.bind (js_get entry ''strategyPlugins'') (\<lambda>sp.
     Option.bind (js_elems (js_or sp (JArr []))) (\<lambda>ps.
     Option.bind (all_some (new_plugin wb) ps) (\<lambda>plugins.
     Option.bind (js_get entry ''strategyOptions'') (\<lambda>so.
     Option.bind (js_get entry ''handler'') (\<lambda>h.
     map_option (\<lambda>c. RegisterRoute urlPattern (Strategy c (js_props so) (RequestInterceptor # plugins))
         (js_or m (JStr ''GET'')))
       (strategy_class wb h)))))))))"

text \<open>The routes registered, and whether the loop ends without a throw.\<close>

fun cache_entries :: "workbox \<Rightarrow> jsval list \<Rightarrow> wb_call list \<times> bool" where
  "cache_entries wb [] = ([], True)"
| "cache_entries wb (e # es) =
     (case cache_entry wb e of
        None \<Rightarrow> ([], False)
      | Some c \<Rightarrow> (let (cs, ok) = cache_entries wb es in (c # cs, ok)))"

definition runtimeCaching :: "workbox \<Rightarrow> (string \<times> jsval) list \<Rightarrow> wb_call list \<times> bool" where
  "runtimeCaching wb options =
     (case js_elems (option_of options ''runtimeCaching'') of
        None \<Rightarrow> ([], False)
      | Some es \<Rightarrow> cache_entries wb es)"

section \<open>offlinePage\<close>

definition offlinePage :: "(string \<times> jsval) list \<Rightarrow> wb_call list option" where
  "offlinePage options =
     (if truthy (option_of options ''offlinePage'')
      then map_option (\<lambda>re. [RegisterOffline re]) (RegExp (option_of options ''pagesURLPattern''))
      else Some [])"

text \<open>
  The handler it registers: the response of the strategy, or what the cache holds for the page;
  \<open>fetched\<close> is what the strategy's \<open>handle\<close> resolves to, \<open>None\<close> when it rejects.
\<close>

definition offline_handler ::
    "workbox \<Rightarrow> (string \<times> jsval) list \<Rightarrow> (jsval \<Rightarrow> 'r option) \<Rightarrow> (jsval \<Rightarrow> 'r option) \<Rightarrow> 'r option option" where
  "offline_handler wb options fetched matching =
     map_option (\<lambda>c. case fetched c of
         Some r \<Rightarrow> Some r
       | None \<Rightarrow> matching (option_of options ''offlinePage''))
       (strategy_class wb (option_of options ''offlineStrategy''))"

section \<open>The script\<close>

definition workboxExtensions :: "wb_call list" where
  "workboxExtensions = []"

definition cachingExtensions :: "wb_call list" where
  "cachingExtensions = []"

definition routingExtensions :: "wb_call list" where
  "routingExtensions = []"

definition importScripts_call :: "(string \<times> jsval) list \<Rightarrow> wb_call list option" where
  "importScripts_call options =
     map_option (\<lambda>us. [ImportScripts (option_of options ''workboxURL'' # us)])
       (js_elems (option_of options ''importScripts''))"

definition run_worker :: "workbox \<Rightarrow> (string \<times> jsval) list \<Rightarrow> wb_call list \<times> bool" where
  "run_worker wb options =
     (case importScripts_call options of
        None \<Rightarrow> ([], False)
      | Some a \<Rightarrow>
          (let b = a @ initWorkbox options @ workboxExtensions in
           case precacheAssets options of
             None \<Rightarrow> (b, False)
           | Some c \<Rightarrow>
               (let (rs, ok) = runtimeCaching wb options; d = b @ c @ cachingExtensions @ rs in
                if \<not> ok then (d, False)
                else case offlinePage options of
                  None \<Rightarrow> (d, False)
                | Some e \<Rightarrow> (d @ e @ routingExtensions, True))))"

definition worker_options :: "(string \<times> jsval) list" where
  "worker_options = [
     (''workboxURL'', JStr ''https://cdn.jsdelivr.net/npm/workbox-cdn@5.1.4/workbox/workbox-sw.js''),
     (''importScripts'', JArr []),
     (''config'', JObj [(''debug'', JBool False)]),
     (''cacheOptions'', JObj [(''cacheId'', JStr ''nkn-web-prod''), (''directoryIndex'', JStr ''/''),
        (''revision'', JStr ''jCFmMrKmtsAI'')]),
     (''clientsClaim'', JBool True),
     (''skipWaiting'', JBool True),
     (''cleanupOutdatedCaches'', JBool True),
     (''offlineAnalytics'', JBool False),
     (''preCaching'', JArr [JObj [(''revision'', JStr ''jCFmMrKmtsAI''), (''url'', JStr ''/web/?standalone=true'')]]),
     (''runtimeCaching'', JArr [
        JObj [(''urlPattern'', JStr ''/web/_nuxt/''), (''handler'', JStr ''CacheFirst''), (''method'', JStr ''GET''),
          (''strategyPlugins'', JArr [])],
        JObj [(''urlPattern'', JStr ''/web/''), (''handler'', JStr ''NetworkFirst''), (''method'', JStr ''GET''),
          (''strategyPlugins'', JArr [])]]),
     (''offlinePage'', JNull),
     (''pagesURLPattern'', JStr ''/web/''),
     (''offlineStrategy'', JStr ''NetworkFirst'')]"

section \<open>How the library picks a handler\<close>

fun route_matches :: "string \<Rightarrow> string \<Rightarrow> wb_call \<Rightarrow> bool" where
  "route_matches m url (RegisterRoute re s m') \<longleftrightarrow> m' = JStr m \<and> regexp_test re url"
| "route_matches m url (RegisterOffline re) \<longleftrightarrow> m = ''GET'' \<and> regexp_test re url"
| "route_matches m url _ \<longleftrightarrow> False"

lemma find_skip: "\<forall>x \<in> set as. \<not> P x \<Longrightarrow> find P (as @ bs) = find P bs"
  by (induction as) auto

text \<open>
  \<open>precached\<close>: the request is answered from the precache. Otherwise the first registered route that
  matches answers it, if there is one; this is for requests to the page's own origin.
\<close>

locale workbox_router =
  fixes precached :: "wb_call list \<Rightarrow> string \<Rightarrow> string \<Rightarrow> bool"
    and respond :: "wb_call list \<Rightarrow> string \<Rightarrow> string \<Rightarrow> wb_call option"
  assumes first_route: "\<not> precached calls m url \<Longrightarrow> respond calls m url = find (route_matches m url) calls"
begin

lemma respond_append:
  assumes "\<not> precached (as @ bs) m url" and "\<forall>c \<in> set as. \<not> route_matches m url c"
  shows "respond (as @ bs) m url = find (route_matches m url) bs"
  by (simp add: first_route [OF assms(1)] find_skip [OF assms(2)])

end

definition std_precached :: "wb_call list \<Rightarrow> string \<Rightarrow> string \<Rightarrow> bool" where
  "std_precached calls m url \<longleftrightarrow> False"

definition std_respond :: "wb_call list \<Rightarrow> string \<Rightarrow> string \<Rightarrow> wb_call option" where
  "std_respond calls m url = find (route_matches m url) calls"

interpretation std_workbox: workbox_router std_precached std_respond
  by unfold_locales (simp add: std_respond_def)

lemmas std_workbox_ok = std_workbox.workbox_router_axioms

text \<open>A namespace with the two strategies the options name.\<close>

definition sample_workbox :: workbox where
  "sample_workbox = \<lparr>wb_namespace = JObj [(''strategies'', JObj [(''CacheFirst'', JInt 1), (''NetworkFirst'', JInt 2)])],
     wb_newable = (\<lambda>v. v \<noteq> JUndef)\<rparr>"

section \<open>Lemmas\<close>

lemma option_of_simps [simp]:
  "option_of [] k = JUndef"
  "option_of ((k', v) # ps) k = (if k = k' then v else option_of ps k)"
  by (simp_all add: option_of_def)

lemma RegExp_shipped:
  "RegExp (JStr ''/web/_nuxt/'') = Some ''/web/_nuxt/''" "RegExp (JStr ''/web/'') = Some ''/web/''"
  by (simp_all add: RegExp_def literal_char_def)

lemma cache_entry_shipped:
  assumes "strategy_class wb (JStr h) = Some c" and "RegExp (JStr p) = Some p"
  shows "cache_entry wb (JObj [(''urlPattern'', JStr p), (''handler'', JStr h), (''method'', JStr ''GET''),
      (''strategyPlugins'', JArr [])]) =
    Some (RegisterRoute p (Strategy c [] [RequestInterceptor]) (JStr ''GET''))"
  using assms by (simp add: cache_entry_def js_or_def js_elems_def js_props_def)

lemma runtimeCaching_shipped:
  assumes "strategy_class wb (JStr ''CacheFirst'') = Some cf" and "strategy_class wb (JStr ''NetworkFirst'') = Some nf"
  shows "runtimeCaching wb worker_options = ([
       RegisterRoute ''/web/_nuxt/'' (Strategy cf [] [RequestInterceptor]) (JStr ''GET''),
       RegisterRoute ''/web/'' (Strategy nf [] [RequestInterceptor]) (JStr ''GET'')], True)"
  using cache_entry_shipped [OF assms(1) RegExp_shipped(1)] cache_entry_shipped [OF assms(2) RegExp_shipped(2)]
  by (simp add: runtimeCaching_def worker_options_def js_elems_def)

lemma run_worker_shipped:
  assumes "strategy_class wb (JStr ''CacheFirst'') = Some cf" and "strategy_class wb (JStr ''NetworkFirst'') = Some nf"
  obtains pre where "\<forall>m url. \<forall>c \<in> set pre. \<not> route_matches m url c"
    and "run_worker wb worker_options = (pre @ [
       RegisterRoute ''/web/_nuxt/'' (Strategy cf [] [RequestInterceptor]) (JStr ''GET''),
       RegisterRoute ''/web/'' (Strategy nf [] [RequestInterceptor]) (JStr ''GET'')], True)"
proof -
  define pre where "pre = the (importScripts_call worker_options) @ initWorkbox worker_options @ the (precacheAssets worker_options)"
  have "\<forall>m url. \<forall>c \<in> set pre. \<not> route_matches m url c"
    by (simp add: pre_def importScripts_call_def worker_options_def js_elems_def initWorkbox_def
        precacheAssets_def js_length_def)
  moreover note runtimeCaching_shipped [OF assms]
  then have "run_worker wb worker_options = (pre @ [
       RegisterRoute ''/web/_nuxt/'' (Strategy cf [] [RequestInterceptor]) (JStr ''GET''),
       RegisterRoute ''/web/'' (Strategy nf [] [RequestInterceptor]) (JStr ''GET'')], True)"
    by (simp add: run_worker_def pre_def)
      (simp add: importScripts_call_def worker_options_def js_elems_def
        precacheAssets_def js_length_def offlinePage_def workboxExtensions_def cachingExtensions_def routingExtensions_def)
  ultimately show thesis by (rule that)
qed

lemma cache_entries_done:
  "cache_entries wb es = (cs, True) \<Longrightarrow> map (cache_entry wb) es = map Some cs"
  by (induction es arbitrary: cs) (auto split: option.splits prod.splits)

lemma cache_entry_plugins:
  assumes "cache_entry wb e = Some c"
  shows "\<exists>re cl ps plugins m. c = RegisterRoute re (Strategy cl ps (RequestInterceptor # plugins)) m"
  using assms by (auto simp: cache_entry_def bind_eq_Some_conv)

section \<open>Properties\<close>



text \<open>
  Whatever the options, when the script runs to its end it has registered one route for each
  entry of \<open>runtimeCaching\<close>, in their order, and every one of their strategies runs the request
  interceptor before any plugin of its own.
\<close>

theorem interceptor_runs_first:
  assumes "runtimeCaching wb options = (calls, True)"
  shows "\<exists>entries. option_of options ''runtimeCaching'' = JArr entries \<and>
    list_all2 (\<lambda>e c. cache_entry wb e = Some c \<and>
      (\<exists>re cl ps plugins m. c = RegisterRoute re (Strategy cl ps (RequestInterceptor # plugins)) m)) entries calls"
proof -
  obtain es where es: "option_of options ''runtimeCaching'' = JArr es" and "cache_entries wb es = (calls, True)"
    using assms by (auto simp: runtimeCaching_def js_elems_def split: option.splits jsval.splits)
  then have "map (cache_entry wb) es = map Some calls" by (intro cache_entries_done)
  then have "list_all2 (\<lambda>e c. cache_entry wb e = Some c) es calls"
    by (simp add: list_all2_conv_all_nth map_equality_iff)
  then have "list_all2 (\<lambda>e c. cache_entry wb e = Some c \<and>
      (\<exists>re cl ps plugins m. c = RegisterRoute re (Strategy cl ps (RequestInterceptor # plugins)) m)) es calls"
    by (rule list_all2_mono) (use cache_entry_plugins in blast)
  with es show ?thesis by blast
qed

theorem interceptor_runs_first_witness:
  "\<exists>e e'. option_of worker_options ''runtimeCaching'' = JArr [e, e'] \<and>
    list_all2 (\<lambda>e c. cache_entry sample_workbox e = Some c \<and>
      (\<exists>re cl ps plugins m. c = RegisterRoute re (Strategy cl ps (RequestInterceptor # plugins)) m)) [e, e']
      (fst (runtimeCaching sample_workbox worker_options))"
proof -
  have "strategy_class sample_workbox (JStr ''CacheFirst'') = Some (JInt 1)"
    and "strategy_class sample_workbox (JStr ''NetworkFirst'') = Some (JInt 2)"
    by (simp_all add: strategy_class_def sample_workbox_def)
  note runtimeCaching_shipped [OF this]
  with interceptor_runs_first [OF this] show ?thesis by (auto simp: worker_options_def)
qed

text \<open>
  After the interceptor no request asks for cached answers only without being same-origin,
  which \<open>fetch\<close> refuses; running it twice is running it once, and the address is kept. A request
  it changes, though, loses its method and its headers: nothing of \<open>request\<close> is copied.
\<close>

theorem interceptor_makes_fetchable:
  "\<not> (rq_cache (requestWillFetch r) = ''only-if-cached'' \<and> rq_mode (requestWillFetch r) = ''no-cors'') \<and>
   requestWillFetch (requestWillFetch r) = requestWillFetch r \<and>
   rq_url (requestWillFetch r) = rq_url r \<and>
   (rq_cache r = ''only-if-cached'' \<and> rq_mode r = ''no-cors'' \<longleftrightarrow> requestWillFetch r \<noteq> r) \<and>
   (requestWillFetch r = r \<or> rq_method (requestWillFetch r) = ''GET'' \<and> rq_headers (requestWillFetch r) = [])"
  by (cases r) (simp add: requestWillFetch_def new_Request_def)

end
