(* ===== verification/Web_Task.thy ===== *)
theory Web_Task
  imports Protocol
begin

text \<open>
  \<open>dashboard/web/plugins/task.js\<close> and \<open>helpers/task.js\<close>: the four background tasks. The browser's
  event loop is a step relation: at any moment a timer fires, or one of the requests on the way
  is answered (in any order, with any outcome) and the rest of its action runs. The theorems
  hold for every such interleaving.
\<close>

section \<open>Timers and pending requests\<close>

record world =
  w_client :: client
  w_pending :: "(request \<times> rest) list"

type_synonym task = "world \<Rightarrow> world"

text \<open>\<open>store.dispatch\<close>: the action runs to its \<open>await\<close>.\<close>

definition dispatch :: "action \<Rightarrow> task" where
  "dispatch a w =
     (case a (w_client w) of
        (st, Await rq k) \<Rightarrow> w\<lparr>w_client := st, w_pending := w_pending w @ [(rq, k)]\<rparr>
      | (st, Settled r) \<Rightarrow> w\<lparr>w_client := st\<rparr>)"

text \<open>\<open>startLoopTask\<close> registers the function with its interval and calls it once.\<close>

definition startLoopTask :: "task \<Rightarrow> nat \<Rightarrow> world \<times> (nat \<times> task) list \<Rightarrow> world \<times> (nat \<times> task) list" where
  "startLoopTask func timeout = (\<lambda>(w, timers). (func w, timers @ [(timeout, func)]))"

section \<open>The four tasks\<close>

definition loopInterval :: nat where "loopInterval = 2000"
definition syncUnixInterval :: nat where "syncUnixInterval = 5000"
definition tickInterval :: nat where "tickInterval = 1000"

definition statusTask :: task where
  "statusTask = dispatch getServiceStatus"

definition tokenTask :: task where
  "tokenTask = dispatch getToken"

definition tickTask :: task where
  "tickTask w = w\<lparr>w_client := (w_client w)\<lparr>common := tick (common (w_client w))\<rparr>\<rparr>"

definition dataTask :: task where
  "dataTask w =
     (let status = serviceStatus (common (w_client w)) in
      if has_flag status SERVICE_STATUS_CREATE_ID \<or> has_flag status SERVICE_STATUS_RUNNING
      then dispatch getNeighbors (dispatch getNodeStatus (dispatch getCurrentWalletStatus w))
      else w)"

definition task_plugin :: "world \<Rightarrow> world \<times> (nat \<times> task) list" where
  "task_plugin w =
     startLoopTask dataTask loopInterval
       (startLoopTask tickTask tickInterval
         (startLoopTask tokenTask syncUnixInterval
           (startLoopTask statusTask loopInterval (w, []))))"

definition timers :: "(nat \<times> task) list" where
  "timers = [(loopInterval, statusTask), (syncUnixInterval, tokenTask),
             (tickInterval, tickTask), (loopInterval, dataTask)]"

lemma task_plugin_timers: "snd (task_plugin w) = timers"
  by (simp add: task_plugin_def startLoopTask_def timers_def split: prod.splits)

section \<open>The event loop\<close>

datatype label = Fired nat | Answered request outcome

inductive bg_step :: "world \<Rightarrow> label \<Rightarrow> world \<Rightarrow> bool" where
  fire: "i < length timers \<Longrightarrow> bg_step w (Fired i) (snd (timers ! i) w)"
| answer: "j < length (w_pending w) \<Longrightarrow> w_pending w ! j = (rq, k) \<Longrightarrow>
    bg_step w (Answered rq out)
      (w\<lparr>w_client := fst (k out (w_client w)),
         w_pending := take j (w_pending w) @ drop (Suc j) (w_pending w)\<rparr>)"

inductive bg_run :: "world \<Rightarrow> label list \<Rightarrow> world \<Rightarrow> bool" where
  idle: "bg_run w [] w"
| more: "bg_run w ls w' \<Longrightarrow> bg_step w' l w'' \<Longrightarrow> bg_run w (ls @ [l]) w''"

inductive_cases bg_stepE: "bg_step w l w'"

section \<open>What the rest of a background action may change\<close>

definition store_ok :: "client \<Rightarrow> bool" where
  "store_ok st \<longleftrightarrow> truthy (nodeStatus (node st)) \<and> truthy (currentWalletStatus (wallet st))"

definition same_session :: "client \<Rightarrow> client \<Rightarrow> bool" where
  "same_session a b \<longleftrightarrow>
     seed b = seed a \<and> authorization b = authorization a \<and> downloads b = downloads a"

definition same_clock :: "client \<Rightarrow> client \<Rightarrow> bool" where
  "same_clock a b \<longleftrightarrow> token (common b) = token (common a) \<and> unix (common b) = unix (common a)"

definition quiet :: "rest \<Rightarrow> bool" where
  "quiet k \<longleftrightarrow> (\<forall>out st. same_session st (fst (k out st)) \<and> (store_ok st \<longrightarrow> store_ok (fst (k out st))))"

definition clockless :: "rest \<Rightarrow> bool" where
  "clockless k \<longleftrightarrow> (\<forall>out st. same_clock st (fst (k out st)))"

abbreviation token_req :: request where
  "token_req \<equiv> get_req ''/api/sync/token''"

definition pending_ok :: "world \<Rightarrow> bool" where
  "pending_ok w \<longleftrightarrow>
     list_all (\<lambda>(rq, k). quiet k \<and> (rq \<noteq> token_req \<longrightarrow> clockless k)) (w_pending w)"

lemmas bg_action_defs =
  getServiceStatus_def getToken_def getNodeStatus_def getNeighbors_def getCurrentWalletStatus_def

lemmas bg_keep_defs =
  same_session_def same_clock_def store_ok_def setNodeStatus_def setNeighbors_def
  setCurrentWalletStatus_def syncServiceStatus_def syncToken_def

text \<open>Every background action only waits, for a request of its own and with a quiet rest.\<close>

definition bg_action :: "action \<Rightarrow> bool" where
  "bg_action a \<longleftrightarrow> (\<exists>rq k. quiet k \<and> (rq \<noteq> token_req \<longrightarrow> clockless k) \<and> (\<forall>st. a st = (st, Await rq k)))"

lemma bg_actionI:
  assumes "\<And>st. a st = (st, Await rq k)" and "quiet k" and "rq \<noteq> token_req \<Longrightarrow> clockless k"
  shows "bg_action a"
  using assms unfolding bg_action_def by blast

lemma quietI:
  assumes "\<And>out st. same_session st (fst (k out st))"
    and "\<And>out st. store_ok st \<Longrightarrow> store_ok (fst (k out st))"
  shows "quiet k"
  using assms by (simp add: quiet_def)

lemma clocklessI: "(\<And>out st. same_clock st (fst (k out st))) \<Longrightarrow> clockless k"
  by (simp add: clockless_def)

lemmas bg_splits = outcome.split option.split jsval.split

lemma bg_actions:
  shows "bg_action getServiceStatus" and "bg_action getToken" and "bg_action getNodeStatus"
    and "bg_action getNeighbors" and "bg_action getCurrentWalletStatus"
proof -
  show "bg_action getServiceStatus"
    by (rule bg_actionI, rule getServiceStatus_def)
       (intro quietI clocklessI; simp add: bg_keep_defs split: bg_splits)+
  show "bg_action getToken"
    by (rule bg_actionI, rule getToken_def, rule quietI)
       (simp_all add: bg_keep_defs split: bg_splits)
  show "bg_action getNodeStatus"
    by (rule bg_actionI, rule getNodeStatus_def)
       (intro quietI clocklessI; simp add: bg_keep_defs split: bg_splits)+
  show "bg_action getNeighbors"
    by (rule bg_actionI, rule getNeighbors_def)
       (intro quietI clocklessI; simp add: bg_keep_defs split: bg_splits)+
  show "bg_action getCurrentWalletStatus"
    by (rule bg_actionI, rule getCurrentWalletStatus_def)
       (intro quietI clocklessI; simp add: bg_keep_defs split: bg_splits)+
qed

lemma dispatch_keeps:
  assumes "bg_action a" and "pending_ok w"
  shows "pending_ok (dispatch a w)" and "w_client (dispatch a w) = w_client w"
  using assms by (auto simp: bg_action_def dispatch_def pending_ok_def)

lemma tick_keeps:
  "same_session st (st\<lparr>common := tick (common st)\<rparr>)"
  "store_ok st \<Longrightarrow> store_ok (st\<lparr>common := tick (common st)\<rparr>)"
  by (simp_all add: same_session_def store_ok_def)

section \<open>Steps and runs\<close>

lemma timer_cases:
  assumes "i < length timers"
  obtains "i = 0" "snd (timers ! i) = statusTask" | "i = 1" "snd (timers ! i) = tokenTask"
    | "i = 2" "snd (timers ! i) = tickTask" | "i = 3" "snd (timers ! i) = dataTask"
  using assms by (auto simp: timers_def less_Suc_eq numeral_2_eq_2 numeral_3_eq_3)

lemma polls_keep:
  assumes "pending_ok w"
  shows "pending_ok (statusTask w) \<and> w_client (statusTask w) = w_client w"
    and "pending_ok (tokenTask w) \<and> w_client (tokenTask w) = w_client w"
    and "pending_ok (dataTask w) \<and> w_client (dataTask w) = w_client w"
  using assms by (simp_all add: statusTask_def tokenTask_def dataTask_def Let_def dispatch_keeps bg_actions)

lemma pending_take_drop:
  "pending_ok w \<Longrightarrow> pending_ok (w\<lparr>w_client := st, w_pending := take j (w_pending w) @ drop (Suc j) (w_pending w)\<rparr>)"
  by (auto simp: pending_ok_def list_all_iff dest: in_set_takeD in_set_dropD)

lemma pending_nth:
  assumes "pending_ok w" and "j < length (w_pending w)" and "w_pending w ! j = (rq, k)"
  shows "quiet k" and "rq \<noteq> token_req \<Longrightarrow> clockless k"
  using assms nth_mem [OF assms(2)] by (auto simp: pending_ok_def list_all_iff)

lemma same_session_refl [simp]: "same_session a a"
  by (simp add: same_session_def)

lemma same_session_trans: "same_session a b \<Longrightarrow> same_session b c \<Longrightarrow> same_session a c"
  by (simp add: same_session_def)

lemma bg_step_keeps:
  assumes "bg_step w l w'" and "pending_ok w"
  shows "pending_ok w'" and "same_session (w_client w) (w_client w')"
    and "store_ok (w_client w) \<Longrightarrow> store_ok (w_client w')"
proof -
  have "pending_ok w' \<and> same_session (w_client w) (w_client w') \<and>
      (store_ok (w_client w) \<longrightarrow> store_ok (w_client w'))"
    using assms
  proof cases
    case (fire i)
    from fire(3) show ?thesis
    proof (cases rule: timer_cases)
      case 3
      then show ?thesis using fire assms(2) tick_keeps by (simp add: tickTask_def pending_ok_def)
    qed (use fire assms(2) polls_keep in simp_all)
  next
    case (answer j rq k out)
    then show ?thesis
      using pending_nth(1) [OF assms(2)] pending_take_drop [OF assms(2)] by (simp add: quiet_def)
  qed
  then show "pending_ok w'" and "same_session (w_client w) (w_client w')"
    and "store_ok (w_client w) \<Longrightarrow> store_ok (w_client w')" by simp_all
qed

text \<open>What every step keeps, every run keeps.\<close>

lemma bg_run_invariant:
  assumes "bg_run w ls w'" and "Q w"
    and "\<And>w l w'. bg_step w l w' \<Longrightarrow> Q w \<Longrightarrow> Q w'"
  shows "Q w'"
  using assms by (induction) auto

lemma bg_run_keeps:
  assumes "bg_run w ls w'" and "pending_ok w" and "store_ok (w_client w)"
  shows "pending_ok w' \<and> store_ok (w_client w') \<and> same_session (w_client w) (w_client w')"
proof (rule bg_run_invariant [OF assms(1)])
  show "pending_ok w \<and> store_ok (w_client w) \<and> same_session (w_client w) (w_client w)"
    using assms(2,3) by simp
next
  fix v l v' assume s: "bg_step v l v'" and "pending_ok v \<and> store_ok (w_client v) \<and> same_session (w_client w) (w_client v)"
  then show "pending_ok v' \<and> store_ok (w_client v') \<and> same_session (w_client w) (w_client v')"
    using bg_step_keeps [OF s] same_session_trans [of "w_client w" "w_client v" "w_client v'"] by simp
qed

lemma tick_synced:
  assumes "synced st tok n" and "\<bar>n + 1\<bar> < 2 ^ 53"
  shows "synced (st\<lparr>common := tick (common st)\<rparr>) tok (n + 1)"
  using assms num_add_int [of n 1] by (simp add: synced_def tick_def del: synced_simps)

definition ticks :: "label list \<Rightarrow> int" where
  "ticks ls = int (length (filter (\<lambda>l. l = Fired 2) ls))"

definition no_token_answer :: "label \<Rightarrow> bool" where
  "no_token_answer l \<longleftrightarrow> (\<forall>out. l \<noteq> Answered token_req out)"

lemma bg_step_clock:
  assumes "bg_step w l w'" and "pending_ok w" and "no_token_answer l"
    and "synced (w_client w) tok n" and "l = Fired 2 \<Longrightarrow> \<bar>n + 1\<bar> < 2 ^ 53"
  shows "synced (w_client w') tok (n + ticks [l])"
  using assms(1)
proof cases
  case (fire i)
  from fire(3) show ?thesis
  proof (cases rule: timer_cases)
    case 3
    then show ?thesis using fire tick_synced [OF assms(4)] assms(5) by (simp add: tickTask_def ticks_def)
  qed (use fire assms(2,4) polls_keep in \<open>simp_all add: ticks_def\<close>)
next
  case (answer j rq k out)
  then have "rq \<noteq> token_req" using assms(3) by (auto simp: no_token_answer_def)
  then have "same_clock (w_client w) (w_client w')"
    using answer pending_nth(2) [OF assms(2)] by (simp add: clockless_def)
  then show ?thesis using answer assms(4) by (simp add: synced_def same_clock_def ticks_def del: synced_simps)
qed

lemma ticks_append: "ticks (ls @ ls') = ticks ls + ticks ls'"
  by (simp add: ticks_def)

lemma ticks_nonneg: "0 \<le> ticks ls"
  by (simp add: ticks_def)

lemma bg_run_clock:
  assumes "bg_run w ls w'" and "pending_ok w" and "list_all no_token_answer ls"
    and "synced (w_client w) tok n" and "0 \<le> n" and "n + ticks ls < 2 ^ 53"
  shows "synced (w_client w') tok (n + ticks ls) \<and> pending_ok w'"
  using assms
proof (induction rule: bg_run.induct)
  case (idle w)
  then show ?case by (simp add: ticks_def)
next
  case (more w ls w' l w'')
  have "ticks ls \<le> ticks (ls @ [l])" using ticks_nonneg [of "[l]"] by (simp add: ticks_append)
  with more have IH: "synced (w_client w') tok (n + ticks ls)" "pending_ok w'" by auto
  have "synced (w_client w'') tok (n + ticks ls + ticks [l])"
  proof (rule bg_step_clock [OF more.hyps(2) IH(2) _ IH(1)])
    show "no_token_answer l" using more.prems by simp
    show "\<bar>n + ticks ls + 1\<bar> < 2 ^ 53" if "l = Fired 2"
      using more.prems(4,5) ticks_nonneg [of ls] that by (simp add: ticks_append) (simp add: ticks_def)
  qed
  then show ?case using bg_step_keeps(1) [OF more.hyps(2) IH(2)] by (simp add: ticks_append add.assoc)
qed

section \<open>Properties\<close>

definition fresh_world :: "int \<Rightarrow> world" where
  "fresh_world now_ms = \<lparr>w_client = client_init now_ms, w_pending = []\<rparr>"

lemma fresh_world_ok: "pending_ok (fresh_world now_ms)" "store_ok (w_client (fresh_world now_ms))"
  by (simp_all add: fresh_world_def pending_ok_def store_ok_def client_init_def node_init_def wallet_init_def)

lemma plugin_start_keeps:
  assumes "pending_ok w"
  shows "pending_ok (fst (task_plugin w))" and "same_session (w_client w) (w_client (fst (task_plugin w)))"
    and "store_ok (w_client w) \<Longrightarrow> store_ok (w_client (fst (task_plugin w)))"
proof -
  let ?v = "tokenTask (statusTask w)"
  have v: "pending_ok ?v" "w_client ?v = w_client w" using polls_keep assms by simp_all
  have u: "pending_ok (tickTask ?v)" "w_client (tickTask ?v) = (w_client w)\<lparr>common := tick (common (w_client w))\<rparr>"
    using v by (simp_all add: tickTask_def pending_ok_def)
  have e: "fst (task_plugin w) = dataTask (tickTask ?v)"
    by (simp add: task_plugin_def startLoopTask_def)
  show "pending_ok (fst (task_plugin w))" and "same_session (w_client w) (w_client (fst (task_plugin w)))"
    and "store_ok (w_client w) \<Longrightarrow> store_ok (w_client (fst (task_plugin w)))"
    unfolding e using polls_keep(3) [OF u(1)] u(2) tick_keeps by simp_all
qed



text \<open>
  Between two synchronisations the client's clock counts the seconds: if the token and the
  clock were last set to \<open>tok\<close> and \<open>n\<close> and the one-second timer has fired \<open>k\<close> times since, the
  clock shows \<open>n + k\<close> and the token is still \<open>tok\<close>, whatever else the background tasks did.
\<close>

theorem clock_counts_ticks:
  assumes "bg_run w ls w'" and "pending_ok w" and "list_all no_token_answer ls"
    and "synced (w_client w) tok n" and "0 \<le> n" and "n + ticks ls < 2 ^ 53"
  shows "synced (w_client w') tok (n + ticks ls)"
  using bg_run_clock [OF assms] by simp

theorem clock_counts_ticks_witness:
  "synced (w_client (tickTask \<lparr>w_client = (client_init 0)\<lparr>common := (common_init 0)\<lparr>token := JStr ''t'',
       unix := JInt 1000\<rparr>\<rparr>, w_pending = []\<rparr>)) ''t'' (1000 + ticks ([] @ [Fired 2]))"
proof (rule clock_counts_ticks)
  let ?w = "\<lparr>w_client = (client_init 0)\<lparr>common := (common_init 0)\<lparr>token := JStr ''t'', unix := JInt 1000\<rparr>\<rparr>,
     w_pending = []\<rparr> :: world"
  have "bg_step ?w (Fired 2) (snd (timers ! 2) ?w)" by (rule bg_step.fire) (simp add: timers_def)
  then show "bg_run ?w ([] @ [Fired 2]) (tickTask ?w)"
    by (intro bg_run.more [OF bg_run.idle]) (simp add: timers_def)
qed (simp_all add: pending_ok_def no_token_answer_def synced_def ticks_def del: synced_simps)

text \<open>
  C32: the state stays of a form that the pages can read: every action of the store, up to its
  \<open>await\<close> and after it, with any outcome and whatever state it finds when it goes on, keeps the
  node's and the wallet's status values that have properties.
\<close>

theorem actions_keep_store_readable:
  assumes "a \<in> {getServiceStatus, getToken, getUnix, verification cj pw, getNodeStatus, getNeighbors,
      setBeneficiaryAddr cj pw addr, setNodeConfig cj pw cfg, getCurrentWalletStatus,
      getCurrentWalletDetails cj pw, createWallet cj pw addr, openWallet cj pw, downloadWallet cj pw}"
    and "store_ok st"
  shows "store_ok (fst (a st)) \<and>
    (\<forall>rq k out st'. snd (a st) = Await rq k \<and> store_ok st' \<longrightarrow> store_ok (fst (k out st')))"
proof -
  note defs = bg_action_defs getUnix_def verification_def setBeneficiaryAddr_def setNodeConfig_def
    getCurrentWalletDetails_def createWallet_def openWallet_def downloadWallet_def with_auth_def
    wallet_opened_def Let_def
  show ?thesis
    using assms
    by (elim insertE emptyE) (auto simp: defs store_ok_def setNodeStatus_def setNeighbors_def
        setCurrentWalletStatus_def split: outcome.splits option.splits jsval.split)
qed

theorem actions_keep_store_readable_witness: "store_ok (fst (getToken (client_init 0)))"
  using actions_keep_store_readable [of getToken std_cryptojs "[]" JUndef JUndef "client_init 0"]
    fresh_world_ok(2) [of 0] by (simp add: fresh_world_def)

end
