(* ===== verification/Go_Routes.thy ===== *)
theory Go_Routes
  imports Go_Dashboard
begin

text \<open>
  Handlers of the dashboard server, in Go: the three routes of \<open>dashboard/routes/common/sync.go\<close>,
  \<open>PUT /node/config\<close> of \<open>dashboard/routes/node/config.go\<close> and \<open>GET /node/status\<close> of
  \<open>dashboard/routes/node/status.go\<close>, over the parameters of \<open>config/config.go\<close> they read and write
  and the configuration file. A handler gives its status and the new state. The JSON texts
  that arrive are those \<open>JSON.stringify\<close> writes, so a number's literal is \<open>num_json\<close> of its value; field
  names are matched without case, as \<open>encoding/json\<close> does, for ASCII letters. The local node's
  own fields and whether the file can be written are arguments.
\<close>

section \<open>config.Parameters and the configuration file\<close>

record parameters =
  RegisterIDTxnFee :: "64 word"
  NumLowFeeTxnPerBlock :: "32 word"
  LowFeeTxnSizePerBlock :: "32 word"
  LowTxnFee :: "64 word"
  LowTxnFeePerSize :: rat
  BeneficiaryAddr :: string
  WebGuiCreateWallet :: bool
  AllowEmptyBeneficiaryAddress :: bool

text \<open>\<open>cfg_file\<close> is the JSON value in the configuration file, \<open>None\<close> if there is no file or no JSON in it.\<close>

record node_server =
  params :: parameters
  cfg_file :: "jsval option"

section \<open>encoding/json\<close>

definition lower :: "char \<Rightarrow> char" where
  "lower c = (if 65 \<le> (of_char c :: nat) \<and> of_char c \<le> (90 :: nat) then char_of (of_char c + 32 :: nat) else c)"

definition same_field :: "string \<Rightarrow> string \<Rightarrow> bool" where
  "same_field a b \<longleftrightarrow> map lower a = map lower b"

text \<open>A value stored into a field; \<open>null\<close> leaves the field as it is, \<open>None\<close> is an error.\<close>

definition unmarshal_int64 :: "jsval \<Rightarrow> 64 word \<Rightarrow> 64 word option" where
  "unmarshal_int64 v old =
     (case v of
        JNull \<Rightarrow> Some old
      | JNum x \<Rightarrow> (let (n, err) = ParseInt (num_json x) in if err then None else Some (of_int n))
      | _ \<Rightarrow> None)"

definition unmarshal_uint32 :: "jsval \<Rightarrow> 32 word \<Rightarrow> 32 word option" where
  "unmarshal_uint32 v old =
     (case v of
        JNull \<Rightarrow> Some old
      | JNum x \<Rightarrow>
          (let s = num_json x in
           if s \<noteq> [] \<and> list_all is_digit s \<and> digits_val s < 2 ^ 32 then Some (of_int (digits_val s)) else None)
      | _ \<Rightarrow> None)"

definition unmarshal_float64 :: "jsval \<Rightarrow> rat \<Rightarrow> rat option" where
  "unmarshal_float64 v old =
     (case v of JNull \<Rightarrow> Some old | JNum (Fin q) \<Rightarrow> Some q | _ \<Rightarrow> None)"

section \<open>routes/node/config.go\<close>

record SetConfigData =
  scd_RegisterIDTxnFee :: "64 word"
  scd_NumLowFeeTxnPerBlock :: "32 word"
  scd_LowFeeTxnSizePerBlock :: "32 word"
  scd_LowTxnFee :: "64 word"
  scd_LowTxnFeePerSize :: rat

definition zero_config :: SetConfigData where
  "zero_config = \<lparr>scd_RegisterIDTxnFee = 0, scd_NumLowFeeTxnPerBlock = 0, scd_LowFeeTxnSizePerBlock = 0,
     scd_LowTxnFee = 0, scd_LowTxnFeePerSize = 0\<rparr>"

definition set_field :: "string \<Rightarrow> jsval \<Rightarrow> SetConfigData \<Rightarrow> SetConfigData option" where
  "set_field k v d =
     (if same_field k ''RegisterIDTxnFee'' then
        map_option (\<lambda>x. d\<lparr>scd_RegisterIDTxnFee := x\<rparr>) (unmarshal_int64 v (scd_RegisterIDTxnFee d))
      else if same_field k ''NumLowFeeTxnPerBlock'' then
        map_option (\<lambda>x. d\<lparr>scd_NumLowFeeTxnPerBlock := x\<rparr>) (unmarshal_uint32 v (scd_NumLowFeeTxnPerBlock d))
      else if same_field k ''LowFeeTxnSizePerBlock'' then
        map_option (\<lambda>x. d\<lparr>scd_LowFeeTxnSizePerBlock := x\<rparr>) (unmarshal_uint32 v (scd_LowFeeTxnSizePerBlock d))
      else if same_field k ''LowTxnFee'' then
        map_option (\<lambda>x. d\<lparr>scd_LowTxnFee := x\<rparr>) (unmarshal_int64 v (scd_LowTxnFee d))
      else if same_field k ''LowTxnFeePerSize'' then
        map_option (\<lambda>x. d\<lparr>scd_LowTxnFeePerSize := x\<rparr>) (unmarshal_float64 v (scd_LowTxnFeePerSize d))
      else Some d)"

fun set_fields :: "(string \<times> jsval) list \<Rightarrow> SetConfigData \<Rightarrow> SetConfigData option" where
  "set_fields [] d = Some d"
| "set_fields ((k, v) # ps) d = Option.bind (set_field k v d) (set_fields ps)"

text \<open>\<open>json.Unmarshal\<close> of the decrypted body into a fresh \<open>SetConfigData\<close>.\<close>

definition unmarshal_config :: "string \<Rightarrow> SetConfigData option" where
  "unmarshal_config s =
     (case json_parse s of
        Some (JObj ps) \<Rightarrow> set_fields ps zero_config
      | Some JNull \<Rightarrow> Some zero_config
      | _ \<Rightarrow> None)"

definition config_file :: "SetConfigData \<Rightarrow> (string \<times> jsval) list \<Rightarrow> (string \<times> jsval) list" where
  "config_file d ps =
     obj_set ''LowTxnFeePerSize'' (JNum (Fin (scd_LowTxnFeePerSize d)))
     (obj_set ''LowTxnFee'' (JInt (sint (scd_LowTxnFee d)))
     (obj_set ''LowFeeTxnSizePerBlock'' (JInt (uint (scd_LowFeeTxnSizePerBlock d)))
     (obj_set ''NumLowFeeTxnPerBlock'' (JInt (uint (scd_NumLowFeeTxnPerBlock d)))
     (obj_set ''RegisterIDTxnFee'' (JInt (sint (scd_RegisterIDTxnFee d))) ps))))"

text \<open>
  The handler after its filters. A file that holds \<open>null\<close> gives a nil map, whose update panics; the
  recovery middleware answers 500. \<open>writable\<close>: \<open>os.WriteFile\<close> succeeds.
\<close>

definition put_config :: "bool \<Rightarrow> string \<Rightarrow> node_server \<Rightarrow> nat \<times> node_server" where
  "put_config writable bodyData s =
     (case unmarshal_config bodyData of
        None \<Rightarrow> (400, s)
      | Some d \<Rightarrow>
          (case cfg_file s of
             Some (JObj ps) \<Rightarrow>
               (if writable
                then (200, s\<lparr>cfg_file := Some (JObj (config_file d ps)),
                             params := (params s)\<lparr>
                               RegisterIDTxnFee := scd_RegisterIDTxnFee d,
                               NumLowFeeTxnPerBlock := scd_NumLowFeeTxnPerBlock d,
                               LowFeeTxnSizePerBlock := scd_LowFeeTxnSizePerBlock d,
                               LowTxnFee := scd_LowTxnFee d,
                               LowTxnFeePerSize := scd_LowTxnFeePerSize d\<rparr>\<rparr>)
                else (500, s))
           | _ \<Rightarrow> (500, s)))"

text \<open>
  The route: \<open>WalletAuth\<close>, then the handler. \<open>DecryptData\<close> answers a request it refuses; the handler
  goes on with an empty text, which is no JSON, but the first status stands.
\<close>

definition node_config_route ::
    "gin_context \<Rightarrow> string \<Rightarrow> string option \<Rightarrow> bool \<Rightarrow> node_server \<Rightarrow> nat \<times> node_server" where
  "node_config_route ctx auth body writable s =
     (case WalletAuth ctx auth of
        Some st \<Rightarrow> (st, s)
      | None \<Rightarrow>
          (case DecryptData ctx True body of
             Inl st \<Rightarrow> (st, s)
           | Inr bodyData \<Rightarrow> put_config writable bodyData s))"

section \<open>service.go: the password check\<close>

definition verification_route :: "gin_context \<Rightarrow> string \<Rightarrow> nat" where
  "verification_route ctx auth = (case WalletAuth ctx auth of Some st \<Rightarrow> st | None \<Rightarrow> 200)"

section \<open>routes/node/status.go\<close>

text \<open>What the route seals: the local node's fields, its id, and the parameters over them.\<close>

definition node_status_data :: "((string \<times> jsval) list \<times> bytes) option \<Rightarrow> node_server \<Rightarrow> jsval" where
  "node_status_data localNode s =
     (let out = (case localNode of None \<Rightarrow> [] | Some (flds, i) \<Rightarrow> obj_set ''id'' (JStr (hex_encode i)) flds);
          p = params s
      in JObj (obj_set ''lowTxnFeePerSize'' (JNum (Fin (LowTxnFeePerSize p)))
              (obj_set ''lowTxnFee'' (JInt (sint (LowTxnFee p)))
              (obj_set ''lowFeeTxnSizePerBlock'' (JInt (uint (LowFeeTxnSizePerBlock p)))
              (obj_set ''numLowFeeTxnPerBlock'' (JInt (uint (NumLowFeeTxnPerBlock p)))
              (obj_set ''registerIDTxnFee'' (JInt (sint (RegisterIDTxnFee p)))
              (obj_set ''beneficiaryAddr'' (JStr (BeneficiaryAddr p)) out)))))))"

section \<open>routes/common/sync.go\<close>

definition sync_unix :: "int \<Rightarrow> jsval" where
  "sync_unix now = JObj [(''unix'', JInt now)]"

definition sync_token :: "int \<Rightarrow> service \<Rightarrow> jsval" where
  "sync_token now svc = JObj [(''token'', JStr (svc_Token svc)), (''unix'', JInt now)]"

definition sync_status :: "bool \<Rightarrow> bool \<Rightarrow> int \<Rightarrow> parameters \<Rightarrow> jsval" where
  "sync_status isNodeInit isWalletInit status p = JObj [
     (''isNodeInit'', JBool isNodeInit),
     (''isWalletInit'', JBool isWalletInit),
     (''status'', JInt status),
     (''beneficiaryAddr'', JStr (BeneficiaryAddr p)),
     (''webGuiCreateWallet'', JBool (WebGuiCreateWallet p)),
     (''allowEmptyBeneficiaryAddress'', JBool (AllowEmptyBeneficiaryAddress p))]"

section \<open>Reading a configuration\<close>

lemma num_json_int: "0 \<le> n \<Longrightarrow> n < 10 ^ 15 \<Longrightarrow> num_json (Fin (of_int n)) = show_uint n"
  by (simp add: num_json_def)

lemma unmarshal_int64_int: "0 \<le> n \<Longrightarrow> n < 10 ^ 15 \<Longrightarrow> unmarshal_int64 (JInt n) old = Some (of_int n)"
  by (simp add: unmarshal_int64_def num_json_int ParseInt_show)

lemma unmarshal_uint32_int: "0 \<le> n \<Longrightarrow> n < 2 ^ 32 \<Longrightarrow> unmarshal_uint32 (JInt n) old = Some (of_int n)"
  using show_uint_ne [of n] by (simp add: unmarshal_uint32_def num_json_int list_all_digits_show)

lemma unmarshal_float64_int: "unmarshal_float64 (JInt n) old = Some (of_int n)"
  by (simp add: unmarshal_float64_def)

lemma lower_initials:
  "char_of (114 :: nat) = CHR ''r''" "char_of (110 :: nat) = CHR ''n''" "char_of (108 :: nat) = CHR ''l''"
  by code_simp+

lemma set_field_client:
  "set_field ''registerIDTxnFee'' v d =
     map_option (\<lambda>x. d\<lparr>scd_RegisterIDTxnFee := x\<rparr>) (unmarshal_int64 v (scd_RegisterIDTxnFee d))"
  "set_field ''numLowFeeTxnPerBlock'' v d =
     map_option (\<lambda>x. d\<lparr>scd_NumLowFeeTxnPerBlock := x\<rparr>) (unmarshal_uint32 v (scd_NumLowFeeTxnPerBlock d))"
  "set_field ''lowFeeTxnSizePerBlock'' v d =
     map_option (\<lambda>x. d\<lparr>scd_LowFeeTxnSizePerBlock := x\<rparr>) (unmarshal_uint32 v (scd_LowFeeTxnSizePerBlock d))"
  "set_field ''lowTxnFee'' v d =
     map_option (\<lambda>x. d\<lparr>scd_LowTxnFee := x\<rparr>) (unmarshal_int64 v (scd_LowTxnFee d))"
  "set_field ''lowTxnFeePerSize'' v d =
     map_option (\<lambda>x. d\<lparr>scd_LowTxnFeePerSize := x\<rparr>) (unmarshal_float64 v (scd_LowTxnFeePerSize d))"
  by (simp_all add: set_field_def same_field_def lower_def lower_initials)

lemma unmarshal_client_config:
  assumes "0 \<le> a" and "a < 10 ^ 15" and "0 \<le> b" and "b < 2 ^ 32" and "0 \<le> c" and "c < 2 ^ 32"
    and "0 \<le> d" and "d < 10 ^ 15" and "0 \<le> e" and "e < 10 ^ 15"
  shows "unmarshal_config (json_str (JObj [(''registerIDTxnFee'', JInt a), (''numLowFeeTxnPerBlock'', JInt b),
      (''lowFeeTxnSizePerBlock'', JInt c), (''lowTxnFee'', JInt d), (''lowTxnFeePerSize'', JInt e)])) =
    Some \<lparr>scd_RegisterIDTxnFee = of_int a, scd_NumLowFeeTxnPerBlock = of_int b,
      scd_LowFeeTxnSizePerBlock = of_int c, scd_LowTxnFee = of_int d, scd_LowTxnFeePerSize = of_int e\<rparr>"
proof -
  let ?v = "JObj [(''registerIDTxnFee'', JInt a), (''numLowFeeTxnPerBlock'', JInt b),
      (''lowFeeTxnSizePerBlock'', JInt c), (''lowTxnFee'', JInt d), (''lowTxnFeePerSize'', JInt e)]"
  have "json_wf (JInt n)" if "0 \<le> n" "n < 10 ^ 15" for n using that by (intro json_wf_JInt) simp
  then have "json_wf ?v" using assms by simp
  from json_parse_str [OF this] show ?thesis
    using assms unmarshal_int64_int unmarshal_uint32_int unmarshal_float64_int
    by (simp add: unmarshal_config_def set_field_client zero_config_def del: json_str.simps)
qed

section \<open>Properties\<close>

text \<open>A server with an empty configuration file.\<close>

definition sample_server :: node_server where
  "sample_server = \<lparr>params = \<lparr>RegisterIDTxnFee = 0, NumLowFeeTxnPerBlock = 0, LowFeeTxnSizePerBlock = 8192,
     LowTxnFee = 10000000, LowTxnFeePerSize = 50000, BeneficiaryAddr = [], WebGuiCreateWallet = False,
     AllowEmptyBeneficiaryAddress = False\<rparr>, cfg_file = Some (JObj [])\<rparr>"

text \<open>The file holds what the node runs with.\<close>

definition file_agrees :: "node_server \<Rightarrow> bool" where
  "file_agrees s \<longleftrightarrow> (\<exists>ps. cfg_file s = Some (JObj ps) \<and>
     map_of ps ''RegisterIDTxnFee'' = Some (JInt (sint (RegisterIDTxnFee (params s)))) \<and>
     map_of ps ''NumLowFeeTxnPerBlock'' = Some (JInt (uint (NumLowFeeTxnPerBlock (params s)))) \<and>
     map_of ps ''LowFeeTxnSizePerBlock'' = Some (JInt (uint (LowFeeTxnSizePerBlock (params s)))) \<and>
     map_of ps ''LowTxnFee'' = Some (JInt (sint (LowTxnFee (params s)))) \<and>
     map_of ps ''LowTxnFeePerSize'' = Some (JNum (Fin (LowTxnFeePerSize (params s)))))"

lemma put_config_cases:
  assumes "put_config writable body s = (code, s')"
  shows "(code = 200 \<and> file_agrees s') \<or> (code \<in> {400, 500} \<and> s' = s)"
  using assms
  by (auto simp: put_config_def file_agrees_def config_file_def map_of_obj_set split: option.splits jsval.splits if_splits)



end
