(* ===== verification/Go_Wallet.thy ===== *)
theory Go_Wallet
  imports Go_Routes
begin

text \<open>
  The service status that steers the client's pages: the flags of \<open>dashboard/config/config.go\<close> and
  \<open>GetWallet\<close> of \<open>vault/wallet.go\<close>, which the node calls until it has a wallet. Whether the wallet file
  exists, whether a password can be had and whether it opens the file are arguments.
\<close>

section \<open>dashboard/config/config.go\<close>

definition GO_STATUS_DEFAULT :: int where
  "GO_STATUS_DEFAULT = 0"

definition GO_STATUS_NO_BENEFICIARY :: int where
  "GO_STATUS_NO_BENEFICIARY = push_bit 0 1"

definition GO_STATUS_NO_WALLET_FILE :: int where
  "GO_STATUS_NO_WALLET_FILE = push_bit 1 1"

definition GO_STATUS_NO_PASSWORD :: int where
  "GO_STATUS_NO_PASSWORD = push_bit 2 1"

definition GO_STATUS_CREATE_ID :: int where
  "GO_STATUS_CREATE_ID = push_bit 3 1"

definition GO_STATUS_RUNNING :: int where
  "GO_STATUS_RUNNING = push_bit 4 1"

lemmas go_status_defs =
  GO_STATUS_DEFAULT_def GO_STATUS_NO_BENEFICIARY_def GO_STATUS_NO_WALLET_FILE_def
  GO_STATUS_NO_PASSWORD_def GO_STATUS_CREATE_ID_def GO_STATUS_RUNNING_def

section \<open>vault/wallet.go\<close>

text \<open>Go's \<open>a &^ b\<close>.\<close>

definition and_not :: "int \<Rightarrow> int \<Rightarrow> int" where
  "and_not a b = a AND NOT b"

text \<open>The new status and whether a wallet is returned.\<close>

definition GetWallet :: "bool \<Rightarrow> bool \<Rightarrow> bool \<Rightarrow> parameters \<Rightarrow> int \<Rightarrow> int \<times> bool" where
  "GetWallet fileExisted havePasswd opens p Status =
     (if \<not> fileExisted then (Status OR GO_STATUS_NO_WALLET_FILE, False)
      else let Status = and_not Status GO_STATUS_NO_WALLET_FILE in
        if \<not> havePasswd then (Status OR GO_STATUS_NO_PASSWORD, False)
        else let Status = and_not Status GO_STATUS_NO_PASSWORD in
          if Status AND GO_STATUS_NO_WALLET_FILE \<noteq> 0 \<and> \<not> AllowEmptyBeneficiaryAddress p \<and> BeneficiaryAddr p = []
          then (Status OR GO_STATUS_NO_BENEFICIARY, False)
          else let Status = and_not Status GO_STATUS_NO_BENEFICIARY in
            if \<not> opens then (Status OR GO_STATUS_NO_PASSWORD, False)
            else let Status = and_not Status GO_STATUS_NO_PASSWORD;
                     Status = Status OR GO_STATUS_RUNNING
                 in (Status, True))"

lemma bit_flag: "bit (push_bit k 1 :: int) n \<longleftrightarrow> n = k"
  by (auto simp: bit_exp_iff)

lemma flag_bit [simp]:
  "bit GO_STATUS_NO_BENEFICIARY n \<longleftrightarrow> n = 0" "bit GO_STATUS_NO_WALLET_FILE n \<longleftrightarrow> n = 1"
  "bit GO_STATUS_NO_PASSWORD n \<longleftrightarrow> n = 2" "bit GO_STATUS_RUNNING n \<longleftrightarrow> n = 4"
  unfolding go_status_defs by (rule bit_flag)+

lemma no_file_flag: "s AND GO_STATUS_NO_WALLET_FILE \<noteq> 0 \<longleftrightarrow> bit s 1"
  using bit_eq_iff [of "s AND GO_STATUS_NO_WALLET_FILE" 0] by (auto simp: bit_and_iff)

text \<open>
  What the flags are afterwards. The flag for a missing beneficiary is never set: the test for it
  asks for the flag of a missing file, which has just been cleared.
\<close>

lemma GetWallet_flags:
  assumes "GetWallet f pw op p s = (s', ok)"
  shows "bit s' 1 \<longleftrightarrow> \<not> f"
    and "f \<Longrightarrow> bit s' 2 \<longleftrightarrow> \<not> (pw \<and> op)"
    and "f \<Longrightarrow> pw \<Longrightarrow> op \<Longrightarrow> bit s' 4"
    and "bit s' 0 \<Longrightarrow> bit s 0"
    and "ok \<longleftrightarrow> f \<and> pw \<and> op"
  using assms
  by (auto simp: GetWallet_def and_not_def no_file_flag bit_or_iff bit_and_iff bit_not_iff Let_def split: if_splits)

end
