(* ===== verification/Std_Cbc.thy ===== *)
theory Std_Cbc
  imports Std_Crypto
begin

text \<open>
  The other direction of the AES block cipher of \<open>Std_Crypto\<close>, and cipher block chaining, as Go's
  \<open>crypto/aes\<close> and \<open>crypto/cipher\<close> provide them and \<open>crypto/helper.go\<close> uses them. The theorem is that
  decryption undoes encryption, block by block and for whole texts.
\<close>

unbundle bit_operations_syntax

section \<open>The inverse cipher\<close>

definition aes_inv_sbox :: "byte list" where
  "aes_inv_sbox = [
    0x52, 0x09, 0x6a, 0xd5, 0x30, 0x36, 0xa5, 0x38, 0xbf, 0x40, 0xa3, 0x9e, 0x81, 0xf3, 0xd7, 0xfb,
    0x7c, 0xe3, 0x39, 0x82, 0x9b, 0x2f, 0xff, 0x87, 0x34, 0x8e, 0x43, 0x44, 0xc4, 0xde, 0xe9, 0xcb,
    0x54, 0x7b, 0x94, 0x32, 0xa6, 0xc2, 0x23, 0x3d, 0xee, 0x4c, 0x95, 0x0b, 0x42, 0xfa, 0xc3, 0x4e,
    0x08, 0x2e, 0xa1, 0x66, 0x28, 0xd9, 0x24, 0xb2, 0x76, 0x5b, 0xa2, 0x49, 0x6d, 0x8b, 0xd1, 0x25,
    0x72, 0xf8, 0xf6, 0x64, 0x86, 0x68, 0x98, 0x16, 0xd4, 0xa4, 0x5c, 0xcc, 0x5d, 0x65, 0xb6, 0x92,
    0x6c, 0x70, 0x48, 0x50, 0xfd, 0xed, 0xb9, 0xda, 0x5e, 0x15, 0x46, 0x57, 0xa7, 0x8d, 0x9d, 0x84,
    0x90, 0xd8, 0xab, 0x00, 0x8c, 0xbc, 0xd3, 0x0a, 0xf7, 0xe4, 0x58, 0x05, 0xb8, 0xb3, 0x45, 0x06,
    0xd0, 0x2c, 0x1e, 0x8f, 0xca, 0x3f, 0x0f, 0x02, 0xc1, 0xaf, 0xbd, 0x03, 0x01, 0x13, 0x8a, 0x6b,
    0x3a, 0x91, 0x11, 0x41, 0x4f, 0x67, 0xdc, 0xea, 0x97, 0xf2, 0xcf, 0xce, 0xf0, 0xb4, 0xe6, 0x73,
    0x96, 0xac, 0x74, 0x22, 0xe7, 0xad, 0x35, 0x85, 0xe2, 0xf9, 0x37, 0xe8, 0x1c, 0x75, 0xdf, 0x6e,
    0x47, 0xf1, 0x1a, 0x71, 0x1d, 0x29, 0xc5, 0x89, 0x6f, 0xb7, 0x62, 0x0e, 0xaa, 0x18, 0xbe, 0x1b,
    0xfc, 0x56, 0x3e, 0x4b, 0xc6, 0xd2, 0x79, 0x20, 0x9a, 0xdb, 0xc0, 0xfe, 0x78, 0xcd, 0x5a, 0xf4,
    0x1f, 0xdd, 0xa8, 0x33, 0x88, 0x07, 0xc7, 0x31, 0xb1, 0x12, 0x10, 0x59, 0x27, 0x80, 0xec, 0x5f,
    0x60, 0x51, 0x7f, 0xa9, 0x19, 0xb5, 0x4a, 0x0d, 0x2d, 0xe5, 0x7a, 0x9f, 0x93, 0xc9, 0x9c, 0xef,
    0xa0, 0xe0, 0x3b, 0x4d, 0xae, 0x2a, 0xf5, 0xb0, 0xc8, 0xeb, 0xbb, 0x3c, 0x83, 0x53, 0x99, 0x61,
    0x17, 0x2b, 0x04, 0x7e, 0xba, 0x77, 0xd6, 0x26, 0xe1, 0x69, 0x14, 0x63, 0x55, 0x21, 0x0c, 0x7d]"

definition inv_sub_byte :: "byte \<Rightarrow> byte" where
  "inv_sub_byte b = aes_inv_sbox ! unat b"

definition inv_shift_rows :: "bytes \<Rightarrow> bytes" where
  "inv_shift_rows s = map (\<lambda>i. s ! i) [0, 13, 10, 7, 4, 1, 14, 11, 8, 5, 2, 15, 12, 9, 6, 3]"

text \<open>Multiplication by the four coefficients of the inverse matrix.\<close>

definition mul9 :: "byte \<Rightarrow> byte" where
  "mul9 x = xtime (xtime (xtime x)) XOR x"

definition mul11 :: "byte \<Rightarrow> byte" where
  "mul11 x = xtime (xtime (xtime x)) XOR xtime x XOR x"

definition mul13 :: "byte \<Rightarrow> byte" where
  "mul13 x = xtime (xtime (xtime x)) XOR xtime (xtime x) XOR x"

definition mul14 :: "byte \<Rightarrow> byte" where
  "mul14 x = xtime (xtime (xtime x)) XOR xtime (xtime x) XOR xtime x"

fun inv_mix_columns :: "bytes \<Rightarrow> bytes" where
  "inv_mix_columns (a # b # c # d # s) =
     (mul14 a XOR mul11 b XOR mul13 c XOR mul9 d) # (mul9 a XOR mul14 b XOR mul11 c XOR mul13 d) #
     (mul13 a XOR mul9 b XOR mul14 c XOR mul11 d) # (mul11 a XOR mul13 b XOR mul9 c XOR mul14 d) #
     inv_mix_columns s"
| "inv_mix_columns s = []"

definition aes_inv_round :: "bytes \<Rightarrow> bytes \<Rightarrow> bytes" where
  "aes_inv_round s k = map inv_sub_byte (inv_shift_rows (inv_mix_columns (add_round_key k s)))"

definition aes256_inv :: "bytes \<Rightarrow> bytes \<Rightarrow> bytes" where
  "aes256_inv key blk =
     (let ks = aes_round_keys key;
          s = map inv_sub_byte (inv_shift_rows (add_round_key (ks ! 14) blk))
      in add_round_key (ks ! 0) (foldl aes_inv_round s (rev (take 13 (tl ks)))))"

section \<open>It is the inverse\<close>

lemma sbox_table: "map (\<lambda>i. aes_inv_sbox ! unat (aes_sbox ! i)) [0..<256] = map of_nat [0..<256]"
  by code_simp

lemma inv_sub_sub [simp]: "inv_sub_byte (sub_byte b) = b"
proof -
  have "unat b < 256" by (rule unat_byte_less)
  then have "map (\<lambda>i. aes_inv_sbox ! unat (aes_sbox ! i)) [0..<256] ! unat b = map of_nat [0..<256] ! unat b"
    by (simp only: sbox_table)
  with \<open>unat b < 256\<close> show ?thesis by (simp add: inv_sub_byte_def sub_byte_def)
qed

lemma map_inv_sub [simp]: "map (inv_sub_byte \<circ> sub_byte) s = s"
  by (induction s) simp_all

lemma xtime_xor: "xtime (a XOR b) = xtime a XOR xtime b"
  by (simp add: xtime_def push_bit_xor bit_xor_iff ac_simps)

lemma inv_mix_mix: "length s mod 4 = 0 \<Longrightarrow> inv_mix_columns (mix_columns s) = s"
proof (induction s rule: mix_columns.induct)
  case (1 a b c d s)
  then have "inv_mix_columns (mix_columns s) = s" by simp
  then show ?case
    by (simp add: mul9_def mul11_def mul13_def mul14_def xtime_xor ac_simps)
qed simp_all

lemma map_nth_16: "length s = 16 \<Longrightarrow> map (\<lambda>i. s ! i) [0, 1, 2, 3, 4, 5, 6, 7, 8, 9, 10, 11, 12, 13, 14, 15] = s"
  using map_nth [of s] by (simp add: upt_rec numeral_eq_Suc)

lemma inv_shift_shift: "length s = 16 \<Longrightarrow> inv_shift_rows (shift_rows s) = s"
  using map_nth_16 [of s] by (simp add: inv_shift_rows_def shift_rows_def)

lemma length_shift_rows [simp]: "length (shift_rows s) = 16"
  by (simp add: shift_rows_def)

lemma length_mix_columns: "length s mod 4 = 0 \<Longrightarrow> length (mix_columns s) = length s"
  by (induction s rule: mix_columns.induct) simp_all

lemma add_round_key_twice: "length s = 16 \<Longrightarrow> add_round_key k (add_round_key k s) = s"
  by (rule nth_equalityI) (simp_all add: add_round_key_def xor.assoc)

lemma aes_inv_round_round: "length s = 16 \<Longrightarrow> aes_inv_round (aes_round s k) k = s"
  by (simp add: aes_inv_round_def aes_round_def add_round_key_twice length_mix_columns inv_mix_mix inv_shift_shift)

lemma length_aes_rounds: "length s = 16 \<Longrightarrow> length (foldl aes_round s ks) = 16"
  by (induction ks arbitrary: s) (simp_all add: aes_round_def)

lemma aes_rounds_undone: "length s = 16 \<Longrightarrow> foldl aes_inv_round (foldl aes_round s ks) (rev ks) = s"
  by (induction ks arbitrary: s rule: rev_induct) (simp_all add: aes_inv_round_round length_aes_rounds)

lemma aes256_inv_aes256: "length b = 16 \<Longrightarrow> aes256_inv key (aes256 key b) = b"
  by (simp add: aes256_inv_def aes256_def Let_def add_round_key_twice inv_shift_shift length_aes_rounds
      aes_rounds_undone)

section \<open>Cipher block chaining\<close>

text \<open>For a text of whole blocks.\<close>

function cbc_encrypt :: "(bytes \<Rightarrow> bytes) \<Rightarrow> bytes \<Rightarrow> bytes \<Rightarrow> bytes" where
  "cbc_encrypt E iv p =
     (if p = [] then []
      else let c = E (xor_bytes (take 16 p) iv) in c @ cbc_encrypt E c (drop 16 p))"
  by pat_completeness auto
termination
  by (relation "measure (\<lambda>(E, iv, p). length p)") auto

function cbc_decrypt :: "(bytes \<Rightarrow> bytes) \<Rightarrow> bytes \<Rightarrow> bytes \<Rightarrow> bytes" where
  "cbc_decrypt D iv c =
     (if c = [] then []
      else xor_bytes (D (take 16 c)) iv @ cbc_decrypt D (take 16 c) (drop 16 c))"
  by pat_completeness auto
termination
  by (relation "measure (\<lambda>(D, iv, c). length c)") auto

declare cbc_encrypt.simps [simp del] cbc_decrypt.simps [simp del]

locale block_permutation = block_cipher +
  fixes D :: "bytes \<Rightarrow> bytes"
  assumes undo: "length b = 16 \<Longrightarrow> D (E b) = b"
begin

lemma cbc_roundtrip:
  assumes "length p = 16 * n" and "length iv = 16"
  shows "length (cbc_encrypt E iv p) = 16 * n \<and> cbc_decrypt D iv (cbc_encrypt E iv p) = p"
  using assms
proof (induction n arbitrary: iv p)
  case 0
  then show ?case by (simp add: cbc_encrypt.simps cbc_decrypt.simps)
next
  case (Suc n)
  define c where "c = E (xor_bytes (take 16 p) iv)"
  define rest where "rest = cbc_encrypt E c (drop 16 p)"
  have len: "length c = 16" by (simp add: c_def block_len)
  have enc: "cbc_encrypt E iv p = c @ rest"
    using Suc.prems by (subst cbc_encrypt.simps) (auto simp: Let_def c_def rest_def)
  have ih: "length rest = 16 * n" "cbc_decrypt D c rest = drop 16 p"
    using Suc.IH [of "drop 16 p" c] Suc.prems len by (simp_all add: rest_def)
  have "cbc_decrypt D iv (c @ rest) = xor_bytes (D c) iv @ cbc_decrypt D c rest"
    using len by (subst cbc_decrypt.simps) auto
  also have "xor_bytes (D c) iv = take 16 p"
    using Suc.prems unfolding c_def by (subst undo) (simp_all add: xor_bytes_cancel)
  finally show ?case using len ih by (simp add: enc)
qed

end

interpretation aes_perm: block_permutation "aes256 key" "aes256_inv key" for key
  by unfold_locales (rule aes256_inv_aes256)

end
