(* ===== verification/Go_Serialize.thy ===== *)
theory Go_Serialize
  imports Prelude
begin

text \<open>
  The binary format of \<open>common/serialization/serialize.go\<close>: integers of fixed and of variable length, byte
  strings, texts and flags. A writer is a \<open>bytes.Buffer\<close>, which takes everything: what is written is
  a value. A reader is a \<open>bytes.Buffer\<close> too, the bytes that are left. Its \<open>Read\<close> may give fewer bytes than it is
  asked for, and most of the functions here do not look at how many it gave. \<open>None\<close> is an error;
  the memory that \<open>make\<close> needs is there.
\<close>

unbundle bit_operations_syntax

section \<open>Readers\<close>

text \<open>
  \<open>Read\<close> into a new array of \<open>x\<close> bytes: the array afterwards, the number of bytes read, whether there is an
  error, and what is left.
\<close>

definition Read :: "nat \<Rightarrow> bytes \<Rightarrow> (bytes \<times> nat \<times> bool) \<times> bytes" where
  "Read x r =
     (let got = take x r
      in ((got @ replicate (x - length got) 0, length got, r = [] \<and> 0 < x), drop x r))"

text \<open>\<open>io.ReadFull\<close>, which \<open>binary.Read\<close> uses: all bytes or an error.\<close>

definition ReadFull :: "nat \<Rightarrow> bytes \<Rightarrow> bytes option \<times> bytes" where
  "ReadFull x r = (if length r < x then None else Some (take x r), drop x r)"

section \<open>binary.LittleEndian\<close>

fun PutUint :: "nat \<Rightarrow> 64 word \<Rightarrow> bytes" where
  "PutUint 0 v = []"
| "PutUint (Suc k) v = ucast v # PutUint k (drop_bit 8 v)"

fun LittleEndian :: "bytes \<Rightarrow> 64 word" where
  "LittleEndian [] = 0"
| "LittleEndian (b # bs) = ucast b OR push_bit 8 (LittleEndian bs)"

lemma length_PutUint [simp]: "length (PutUint k v) = k"
  by (induction k arbitrary: v) simp_all

lemma LittleEndian_PutUint: "LittleEndian (PutUint k v) = take_bit (8 * k) v"
proof (induction k arbitrary: v)
  case (Suc k)
  show ?case
    by (rule bit_word_eqI)
      (auto simp: Suc bit_simps not_less less_Suc_eq_le dest: bit_imp_le_length)
qed simp

lemma take_bit_word_below: "unat v < 2 ^ k \<Longrightarrow> take_bit k v = v" for v :: "64 word"
  by (simp add: word_unat_eq_iff unsigned_take_bit_eq take_bit_nat_eq_self)

lemma take_bit_word_all: "take_bit 64 v = v" for v :: "64 word"
  by (rule bit_word_eqI) (simp add: bit_simps)

lemma ucast_back8: "ucast (ucast b :: 64 word) = b" for b :: "8 word"
  by (rule bit_word_eqI) (simp add: bit_simps)

lemma ucast_back16: "ucast (take_bit 16 (ucast c :: 64 word)) = c" for c :: "16 word"
  by (rule bit_word_eqI) (simp add: bit_simps)

lemma ucast_back32: "ucast (take_bit 32 (ucast d :: 64 word)) = d" for d :: "32 word"
  by (rule bit_word_eqI) (simp add: bit_simps)

lemma unat_small: "unat v < 253 \<Longrightarrow> unat (ucast v :: byte) = unat v" for v :: "64 word"
  by (simp add: unsigned_ucast_eq take_bit_nat_eq_self)

lemma small_back: "unat v < 253 \<Longrightarrow> ucast (ucast v :: byte) = v" for v :: "64 word"
  by (simp add: word_unat_eq_iff unsigned_ucast_eq unsigned_take_bit_eq take_bit_nat_eq_self)

lemma small_ne: "unat v < 253 \<Longrightarrow> 253 \<le> unat c \<Longrightarrow> (ucast v :: byte) \<noteq> c" for v :: "64 word"
  using unat_small [of v] by auto

section \<open>Integers of variable length\<close>

definition WriteVarUint :: "64 word \<Rightarrow> bytes" where
  "WriteVarUint value =
     (if value < 0xFD then [ucast value]
      else if value \<le> 0xFFFF then 0xFD # PutUint 2 value
      else if value \<le> 0xFFFFFFFF then 0xFE # PutUint 4 value
      else 0xFF # PutUint 8 value)"

definition ReadVarUint :: "64 word \<Rightarrow> bytes \<Rightarrow> 64 word option \<times> bytes" where
  "ReadVarUint maxint r =
     (let maxint = (if maxint = 0 then - 1 else maxint);
          ranged = (\<lambda>(res, r). (if maxint < res then None else Some res, r));
          long = (\<lambda>k r. case Read k r of ((p, n, err), r) \<Rightarrow> if err then (None, r) else ranged (LittleEndian p, r))
      in case Read 1 r of
        ((fb, n, err), r) \<Rightarrow>
          if err then (None, r)
          else if hd fb = 0xFD then long 2 r
          else if hd fb = 0xFE then long 4 r
          else if hd fb = 0xFF then long 8 r
          else ranged (ucast (hd fb), r))"

definition GetVarUintSize :: "64 word \<Rightarrow> nat" where
  "GetVarUintSize value =
     (if value < 0xFD then 1
      else if value \<le> 0xFFFF then 3
      else if value \<le> 0xFFFFFFFF then 5
      else 9)"

section \<open>Byte strings and texts\<close>

definition byteXReader :: "64 word \<Rightarrow> bytes \<Rightarrow> bytes option \<times> bytes" where
  "byteXReader x r =
     (case Read (unat x) r of ((p, n, err), r) \<Rightarrow> (if 0 < n then Some p else if err then None else Some p, r))"

definition WriteVarBytes :: "bytes \<Rightarrow> bytes" where
  "WriteVarBytes value = WriteVarUint (of_nat (length value)) @ value"

definition WriteVarString :: "string \<Rightarrow> bytes" where
  "WriteVarString value = WriteVarUint (of_nat (length value)) @ bytes_of value"

definition ReadVarBytes :: "bytes \<Rightarrow> bytes option \<times> bytes" where
  "ReadVarBytes r =
     (case ReadVarUint 0 r of
        (None, r) \<Rightarrow> (None, r)
      | (Some val, r) \<Rightarrow> byteXReader val r)"

definition ReadVarString :: "bytes \<Rightarrow> string option \<times> bytes" where
  "ReadVarString r = (case ReadVarBytes r of (v, r) \<Rightarrow> (map_option string_of v, r))"

definition ReadBytes :: "64 word \<Rightarrow> bytes \<Rightarrow> bytes option \<times> bytes" where
  "ReadBytes len r = byteXReader len r"

section \<open>Integers of fixed length, flags, bytes\<close>

definition read_fixed :: "nat \<Rightarrow> bytes \<Rightarrow> 64 word option \<times> bytes" where
  "read_fixed k r =
     (case Read k r of ((p, n, err), r) \<Rightarrow> (if n = 0 \<or> err then None else Some (LittleEndian p), r))"

definition ReadUint8 :: "bytes \<Rightarrow> 8 word option \<times> bytes" where
  "ReadUint8 r = (case read_fixed 1 r of (v, r) \<Rightarrow> (map_option ucast v, r))"

definition ReadUint16 :: "bytes \<Rightarrow> 16 word option \<times> bytes" where
  "ReadUint16 r = (case read_fixed 2 r of (v, r) \<Rightarrow> (map_option ucast v, r))"

definition ReadUint32 :: "bytes \<Rightarrow> 32 word option \<times> bytes" where
  "ReadUint32 r = (case read_fixed 4 r of (v, r) \<Rightarrow> (map_option ucast v, r))"

definition ReadUint64 :: "bytes \<Rightarrow> 64 word option \<times> bytes" where
  "ReadUint64 r = read_fixed 8 r"

definition WriteUint8 :: "8 word \<Rightarrow> bytes" where
  "WriteUint8 val = [val]"

definition WriteUint16 :: "16 word \<Rightarrow> bytes" where
  "WriteUint16 val = PutUint 2 (ucast val)"

definition WriteUint32 :: "32 word \<Rightarrow> bytes" where
  "WriteUint32 val = PutUint 4 (ucast val)"

definition WriteUint64 :: "64 word \<Rightarrow> bytes" where
  "WriteUint64 val = PutUint 8 val"

definition WriteBool :: "bool \<Rightarrow> bytes" where
  "WriteBool val = [if val then 1 else 0]"

definition ReadBool :: "bytes \<Rightarrow> bool option \<times> bytes" where
  "ReadBool r = (case ReadFull 1 r of (p, r) \<Rightarrow> (map_option (\<lambda>p. hd p \<noteq> 0) p, r))"

definition WriteByte :: "byte \<Rightarrow> bytes" where
  "WriteByte val = [val]"

definition ReadByte :: "bytes \<Rightarrow> byte option \<times> bytes" where
  "ReadByte r = (case ReadFull 1 r of (p, r) \<Rightarrow> (map_option hd p, r))"

text \<open>\<open>WriteDataList\<close>, of data that are already written; \<open>ReadDataList\<close> reads nothing.\<close>

definition WriteDataList :: "bytes list \<Rightarrow> bytes" where
  "WriteDataList list = WriteVarUint (of_nat (length list)) @ concat list"

definition ReadDataList :: "bytes \<Rightarrow> 'a list option \<times> bytes" where
  "ReadDataList r = (Some [], r)"

section \<open>Codecs\<close>

text \<open>
  A writer and a reader of one format: the reader takes from the front just what the writer
  wrote. Values one after the other, and lists of them, are then read back in order.
\<close>

locale codec =
  fixes enc :: "'a \<Rightarrow> bytes" and dec :: "bytes \<Rightarrow> 'a option \<times> bytes" and fits :: "'a \<Rightarrow> bool"
  assumes read_write: "fits v \<Longrightarrow> dec (enc v @ rest) = (Some v, rest)"
begin

lemma write_inject: "fits v \<Longrightarrow> fits w \<Longrightarrow> enc v @ rest = enc w @ rest' \<longleftrightarrow> v = w \<and> rest = rest'"
  by (metis read_write option.inject prod.inject)

lemma read_alone: "fits v \<Longrightarrow> dec (enc v) = (Some v, [])"
  using read_write [of v "[]"] by simp

lemma prefix_free: "fits v \<Longrightarrow> fits w \<Longrightarrow> enc v = enc w @ rest \<Longrightarrow> v = w \<and> rest = []"
  using write_inject [of v w "[]" rest] by simp

end

section \<open>The formats read back\<close>

lemma Read_all [simp]: "length p = k \<Longrightarrow> Read k (p @ rest) = ((p, k, False), rest)"
  by (auto simp: Read_def)

lemma ReadFull_all [simp]: "length p = k \<Longrightarrow> ReadFull k (p @ rest) = (Some p, rest)"
  by (simp add: ReadFull_def)

lemma Read_head [simp]: "Read (Suc 0) (b # rest) = (([b], 1, False), rest)"
  by (simp add: Read_def)

lemma var_uint_back: "ReadVarUint 0 (WriteVarUint v @ rest) = (Some v, rest)"
proof -
  consider "v < 0xFD" | "\<not> v < 0xFD" "v \<le> 0xFFFF" | "\<not> v < 0xFD" "\<not> v \<le> 0xFFFF" "v \<le> 0xFFFFFFFF"
    | "\<not> v < 0xFD" "\<not> v \<le> 0xFFFF" "\<not> v \<le> 0xFFFFFFFF" by blast
  then show ?thesis
  proof cases
    case 1
    then have v: "unat v < 253" by (simp add: word_less_nat_alt)
    from 1 small_back [OF v] small_ne [OF v, of "0xFD"] small_ne [OF v, of "0xFE"] small_ne [OF v, of "0xFF"]
    show ?thesis by (simp add: WriteVarUint_def ReadVarUint_def)
  next
    case 2
    then have "take_bit 16 v = v" by (intro take_bit_word_below) (simp_all add: word_le_nat_alt word_less_nat_alt)
    with 2 show ?thesis by (simp add: WriteVarUint_def ReadVarUint_def LittleEndian_PutUint)
  next
    case 3
    then have "take_bit 32 v = v" by (intro take_bit_word_below) (simp_all add: word_le_nat_alt word_less_nat_alt)
    with 3 show ?thesis by (simp add: WriteVarUint_def ReadVarUint_def LittleEndian_PutUint)
  next
    case 4
    then show ?thesis by (simp add: WriteVarUint_def ReadVarUint_def LittleEndian_PutUint take_bit_word_all)
  qed
qed

interpretation var_uint: codec WriteVarUint "ReadVarUint 0" "\<lambda>_. True"
  by unfold_locales (rule var_uint_back)

lemma var_bytes_back:
  assumes "length v < 2 ^ 64"
  shows "ReadVarBytes (WriteVarBytes v @ rest) = (Some v, rest)"
proof -
  have "unat (of_nat (length v) :: 64 word) = length v" using assms by (simp add: unat_of_nat)
  then show ?thesis by (simp add: ReadVarBytes_def WriteVarBytes_def var_uint_back byteXReader_def)
qed

interpretation var_bytes: codec WriteVarBytes ReadVarBytes "\<lambda>v. length v < 2 ^ 64"
  by unfold_locales (rule var_bytes_back)

interpretation var_string: codec WriteVarString ReadVarString "\<lambda>v. length v < 2 ^ 64"
proof
  show "ReadVarString (WriteVarString v @ rest) = (Some v, rest)" if "length v < 2 ^ 64" for v rest
    using var_bytes_back [of "bytes_of v" rest] that by (simp add: ReadVarString_def WriteVarString_def WriteVarBytes_def)
qed

lemma read_fixed_all: "0 < k \<Longrightarrow> read_fixed k (PutUint k v @ rest) = (Some (take_bit (8 * k) v), rest)"
  by (simp add: read_fixed_def LittleEndian_PutUint)

interpretation uint8: codec WriteUint8 ReadUint8 "\<lambda>_. True"
  by unfold_locales (simp add: ReadUint8_def WriteUint8_def read_fixed_def ucast_back8)

interpretation uint16: codec WriteUint16 ReadUint16 "\<lambda>_. True"
  by unfold_locales (simp add: ReadUint16_def WriteUint16_def read_fixed_all ucast_back16)

interpretation uint32: codec WriteUint32 ReadUint32 "\<lambda>_. True"
  by unfold_locales (simp add: ReadUint32_def WriteUint32_def read_fixed_all ucast_back32)

interpretation uint64: codec WriteUint64 ReadUint64 "\<lambda>_. True"
  by unfold_locales (simp add: ReadUint64_def WriteUint64_def read_fixed_all take_bit_word_all)

interpretation bool: codec WriteBool ReadBool "\<lambda>_. True"
  by unfold_locales (simp add: ReadBool_def WriteBool_def ReadFull_def)

interpretation byte: codec WriteByte ReadByte "\<lambda>_. True"
  by unfold_locales (simp add: ReadByte_def WriteByte_def ReadFull_def)

section \<open>Sizes, and readers that run short\<close>

lemma length_WriteVarUint: "length (WriteVarUint v) = GetVarUintSize v"
  by (simp add: WriteVarUint_def GetVarUintSize_def)

lemma range_refused:
  assumes "maxint \<noteq> 0" and "maxint < v"
  shows "ReadVarUint maxint (WriteVarUint v @ rest) = (None, rest)"
proof -
  have "ReadVarUint maxint r = (case ReadVarUint 0 r of (None, r) \<Rightarrow> (None, r)
      | (Some v, r) \<Rightarrow> (if maxint < v then None else Some v, r))" for r
    using assms(1) by (simp add: ReadVarUint_def Let_def split: prod.split)
  with assms(2) show ?thesis by (simp add: var_uint_back)
qed

text \<open>
  A byte string that is cut off is not an error, unless nothing is left of it: the reader fills it up with
  zeros.
\<close>

lemma short_read_is_padded:
  assumes "length v < 2 ^ 64" and "0 < k" and "k < length v"
  shows "ReadVarBytes (WriteVarUint (of_nat (length v)) @ take k v) = (Some (take k v @ replicate (length v - k) 0), [])"
proof -
  have "unat (of_nat (length v) :: 64 word) = length v" using assms(1) by (simp add: unat_of_nat)
  with assms(2,3) show ?thesis by (auto simp: ReadVarBytes_def var_uint_back byteXReader_def Read_def Let_def)
qed

end
