(* ===== verification/Go_Address.thy ===== *)
theory Go_Address
  imports Std_Crypto Js_Number
begin

text \<open>
  Addresses of the chain, in Go: \<open>Uint160\<close> with \<open>ToAddress\<close>, \<open>IsValidHexAddr\<close> and \<open>ToScriptHash\<close> of
  \<open>common/uint160.go\<close>. Numbers in a positional system (the bytes of \<open>big.Int\<close>, the digits of base 58)
  are one definition with one locale. The base-58 package is a parameter that maps decimal
  texts to base-58 texts and back; the locale \<open>base58_std\<close> says that it writes a positive number in
  the digits of the Bitcoin alphabet, and reads it back.
\<close>

section \<open>Positional numbers\<close>

function to_base :: "nat \<Rightarrow> nat \<Rightarrow> nat list" where
  "to_base b n = (if n = 0 \<or> b \<le> 1 then [] else to_base b (n div b) @ [n mod b])"
  by pat_completeness auto
termination
  by (relation "measure snd") auto

declare to_base.simps [simp del]

definition from_base :: "nat \<Rightarrow> nat list \<Rightarrow> nat" where
  "from_base b ds = foldl (\<lambda>n d. n * b + d) 0 ds"

lemma from_base_snoc [simp]: "from_base b (ds @ [d]) = from_base b ds * b + d"
  by (simp add: from_base_def)

lemma from_base_Nil [simp]: "from_base b [] = 0"
  by (simp add: from_base_def)

lemma from_base_append: "from_base b (ds @ es) = from_base b ds * b ^ length es + from_base b es"
proof (induction es rule: rev_induct)
  case (snoc e es)
  have "from_base b (ds @ es @ [e]) = from_base b (ds @ es) * b + e"
    using from_base_snoc [of b "ds @ es" e] by simp
  with snoc show ?case by (simp add: algebra_simps)
qed simp

locale positional =
  fixes b :: nat
  assumes base: "1 < b"
begin

lemma to_base_0 [simp]: "to_base b 0 = []"
  by (simp add: to_base.simps)

lemma to_base_pos: "0 < n \<Longrightarrow> to_base b n = to_base b (n div b) @ [n mod b]"
  using base by (subst to_base.simps) simp

lemma from_to: "from_base b (to_base b n) = n"
proof (induction n rule: less_induct)
  case (less n)
  show ?case
  proof (cases "n = 0")
    case False
    with less [of "n div b"] base show ?thesis by (simp add: to_base_pos)
  qed simp
qed

lemma digits_less: "d \<in> set (to_base b n) \<Longrightarrow> d < b"
proof (induction n rule: less_induct)
  case (less n)
  then show ?case
    using base less.IH [of "n div b"] by (cases "n = 0") (auto simp: to_base_pos)
qed

lemma from_base_less: "\<forall>d \<in> set ds. d < b \<Longrightarrow> from_base b ds < b ^ length ds"
proof (induction ds rule: rev_induct)
  case (snoc d ds)
  then have "from_base b ds + 1 \<le> b ^ length ds" and "d < b" by auto
  then have "from_base b ds * b + b \<le> b ^ length ds * b"
    by (metis add_mult_distrib mult_1 mult_le_mono1)
  with \<open>d < b\<close> show ?case by (simp add: mult.commute)
qed simp

lemma to_from:
  assumes "\<forall>d \<in> set ds. d < b" and "ds \<noteq> []" and "hd ds \<noteq> 0"
  shows "to_base b (from_base b ds) = ds"
  using assms
proof (induction ds rule: rev_induct)
  case (snoc d ds)
  show ?case
  proof (cases "ds = []")
    case True
    with snoc.prems base show ?thesis
      using to_base_pos [of d] by (simp add: from_base_def)
  next
    case False
    with snoc have ih: "to_base b (from_base b ds) = ds" by auto
    with False have "0 < from_base b ds" using to_base_0 by (cases "from_base b ds") auto
    with snoc.prems base show ?thesis using to_base_pos [of "from_base b ds * b + d"] ih by simp
  qed
qed simp

text \<open>The leading digits of a number are the digits of its leading part.\<close>

lemma leading:
  assumes "n div b ^ k = m" and "0 < m"
  shows "\<exists>low. to_base b n = to_base b m @ low \<and> length low = k"
  using assms
proof (induction k arbitrary: n)
  case (Suc k)
  have "(n div b) div b ^ k = m" using Suc.prems by (simp add: div_mult2_eq)
  from Suc.IH [OF this \<open>0 < m\<close>] obtain low
    where "to_base b (n div b) = to_base b m @ low" "length low = k" by blast
  moreover have "0 < n" using Suc.prems by (cases n) auto
  ultimately show ?case by (intro exI [of _ "low @ [n mod b]"]) (simp add: to_base_pos)
qed simp

end

interpretation base256: positional 256
  by unfold_locales simp

interpretation base58: positional 58
  by unfold_locales simp

section \<open>big.Int\<close>

definition SetBytes :: "bytes \<Rightarrow> nat" where
  "SetBytes bs = from_base 256 (map unat bs)"

definition Bytes :: "nat \<Rightarrow> bytes" where
  "Bytes n = map of_nat (to_base 256 n)"

text \<open>\<open>SetString(s, 10)\<close>, as the absolute value, which is all that \<open>Bytes\<close> reads.\<close>

definition SetString :: "string \<Rightarrow> nat option" where
  "SetString s =
     (let (neg, ds) = split_sign s in
      if ds = [] \<or> \<not> list_all is_digit ds then None else Some (nat (digits_val ds)))"

section \<open>uint160.go\<close>

definition FOOLPROOFPREFIX :: nat where
  "FOOLPROOFPREFIX = 0x02b824 + 1"

definition PREFIXLEN :: nat where
  "PREFIXLEN = 3"

definition UINT160SIZE :: nat where
  "UINT160SIZE = 20"

definition SHA256CHKSUM :: nat where
  "SHA256CHKSUM = 4"

definition HEXADDRLEN :: nat where
  "HEXADDRLEN = PREFIXLEN + UINT160SIZE + SHA256CHKSUM"

lemmas addr_consts = FOOLPROOFPREFIX_def PREFIXLEN_def UINT160SIZE_def SHA256CHKSUM_def HEXADDRLEN_def

definition IsValidHexAddr :: "bytes \<Rightarrow> bool" where
  "IsValidHexAddr s \<longleftrightarrow>
     (if length s = HEXADDRLEN \<and> SetBytes (take PREFIXLEN s) = FOOLPROOFPREFIX
      then let sha = sha256 (take (PREFIXLEN + UINT160SIZE) s);
               chkSum = sha256 sha
           in drop (PREFIXLEN + UINT160SIZE) s = take SHA256CHKSUM chkSum
      else False)"

text \<open>The bytes that are written in base 58.\<close>

definition address_bytes :: "bytes \<Rightarrow> bytes" where
  "address_bytes f =
     (let data = Bytes FOOLPROOFPREFIX @ f;
          temp = sha256 data;
          temps = sha256 temp
      in data @ take SHA256CHKSUM temps)"

definition ToAddress :: "(string \<Rightarrow> string option) \<Rightarrow> bytes \<Rightarrow> string option" where
  "ToAddress Encode f = Encode (show_uint (int (SetBytes (address_bytes f))))"

definition Uint160ParseFromBytes :: "bytes \<Rightarrow> bytes option" where
  "Uint160ParseFromBytes f = (if length f \<noteq> UINT160SIZE then None else Some f)"

definition ToScriptHash :: "(string \<Rightarrow> string option) \<Rightarrow> string \<Rightarrow> bytes option" where
  "ToScriptHash Decode address =
     (case Decode address of
        None \<Rightarrow> None
      | Some decoded \<Rightarrow>
          (case SetString decoded of
             None \<Rightarrow> None
           | Some bint \<Rightarrow>
               (let hex = Bytes bint in
                if \<not> IsValidHexAddr hex then None
                else Uint160ParseFromBytes (take UINT160SIZE (drop PREFIXLEN hex)))))"

section \<open>Base 58\<close>

definition bitcoin_alphabet :: string where
  "bitcoin_alphabet = ''123456789ABCDEFGHJKLMNPQRSTUVWXYZabcdefghijkmnopqrstuvwxyz''"

definition base58_text :: "nat \<Rightarrow> string" where
  "base58_text n = map ((!) bitcoin_alphabet) (to_base 58 n)"

locale base58_std =
  fixes Encode :: "string \<Rightarrow> string option" and Decode :: "string \<Rightarrow> string option"
  assumes encode: "0 < n \<Longrightarrow> Encode (show_uint (int n)) = Some (base58_text n)"
    and decode: "0 < n \<Longrightarrow> Decode (base58_text n) = Some (show_uint (int n))"

text \<open>The package's documented behaviour as a function.\<close>

fun alphabet_index :: "char \<Rightarrow> string \<Rightarrow> nat option" where
  "alphabet_index c [] = None"
| "alphabet_index c (a # as) = (if c = a then Some 0 else map_option Suc (alphabet_index c as))"

definition std_encode58 :: "string \<Rightarrow> string option" where
  "std_encode58 s = map_option base58_text (SetString s)"

definition std_decode58 :: "string \<Rightarrow> string option" where
  "std_decode58 s =
     map_option (\<lambda>ds. show_uint (int (from_base 58 ds))) (those (map (\<lambda>c. alphabet_index c bitcoin_alphabet) s))"

lemma SetString_show: "SetString (show_uint (int n)) = Some n"
proof -
  have "split_sign (show_uint (int n)) = (False, show_uint (int n))"
    using show_uint_digits [of "int n"]
    by (cases "show_uint (int n)") (auto simp: split_sign_def is_digit_def)
  moreover have "list_all is_digit (show_uint (int n))"
    using show_uint_digits [of "int n"] by (simp add: list_all_iff)
  ultimately show ?thesis by (simp add: SetString_def)
qed

lemma alphabet_index_nth: "distinct as \<Longrightarrow> i < length as \<Longrightarrow> alphabet_index (as ! i) as = Some i"
  by (induction as arbitrary: i) (auto simp: nth_Cons split: nat.splits)

lemma alphabet_facts: "distinct bitcoin_alphabet" "length bitcoin_alphabet = 58"
  by (simp_all add: bitcoin_alphabet_def)

lemma those_map_Some: "(\<And>x. x \<in> set xs \<Longrightarrow> f x = Some (g x)) \<Longrightarrow> those (map f xs) = Some (map g xs)"
  by (induction xs) simp_all

lemma those_digits:
  "\<forall>d \<in> set ds. d < 58 \<Longrightarrow> those (map (\<lambda>c. alphabet_index c bitcoin_alphabet) (map ((!) bitcoin_alphabet) ds)) = Some ds"
  using those_map_Some [of ds "\<lambda>d. alphabet_index (bitcoin_alphabet ! d) bitcoin_alphabet" "\<lambda>d. d"]
  by (simp add: comp_def alphabet_index_nth alphabet_facts)

interpretation std_base58: base58_std std_encode58 std_decode58
proof unfold_locales
  show "std_encode58 (show_uint (int n)) = Some (base58_text n)" for n
    by (simp add: std_encode58_def SetString_show)
  show "std_decode58 (base58_text n) = Some (show_uint (int n))" for n
    using those_digits [of "to_base 58 n"] base58.digits_less [of _ n]
    by (simp add: std_decode58_def base58_text_def base58.from_to)
qed

lemmas std_base58_ok = std_base58.base58_std_axioms

section \<open>Lemmas\<close>

lemma map_of_nat_unat: "map (of_nat :: nat \<Rightarrow> byte) (map unat bs) = bs"
  by (induction bs) simp_all

lemma Bytes_SetBytes: "bs \<noteq> [] \<Longrightarrow> hd bs \<noteq> 0 \<Longrightarrow> Bytes (SetBytes bs) = bs"
proof -
  assume "bs \<noteq> []" "hd bs \<noteq> 0"
  then have "to_base 256 (from_base 256 (map unat bs)) = map unat bs"
    by (intro base256.to_from) (auto simp: unat_byte_less hd_map unat_eq_zero)
  then show ?thesis by (simp add: Bytes_def SetBytes_def map_of_nat_unat del: map_map)
qed

lemma prefix_bytes: "Bytes FOOLPROOFPREFIX = [0x02, 0xb8, 0x25]"
  by (simp add: Bytes_def FOOLPROOFPREFIX_def to_base.simps)

lemma prefix_value: "from_base 256 (map unat [0x02, 0xb8, 0x25 :: byte]) = 0x02b825"
  by (simp add: from_base_def)

lemma address_bytes_eq:
  "address_bytes f = [0x02, 0xb8, 0x25] @ f @ take 4 (sha256 (sha256 ([0x02, 0xb8, 0x25] @ f)))"
  by (simp only: address_bytes_def prefix_bytes SHA256CHKSUM_def Let_def append_assoc)

lemma address_bytes_shape:
  assumes "length f = UINT160SIZE"
  shows "length (address_bytes f) = HEXADDRLEN" and "take PREFIXLEN (address_bytes f) = [0x02, 0xb8, 0x25]"
    and "take UINT160SIZE (drop PREFIXLEN (address_bytes f)) = f" and "IsValidHexAddr (address_bytes f)"
  using assms
  by (simp_all add: address_bytes_eq addr_consts IsValidHexAddr_def SetBytes_def from_base_def Let_def)

text \<open>Where the number of an address lies.\<close>

lemma address_range:
  assumes "length f = UINT160SIZE"
  shows "0x02b825 * 2 ^ 192 \<le> SetBytes (address_bytes f)" and "SetBytes (address_bytes f) < 0x02b826 * 2 ^ 192"
proof -
  let ?r = "drop PREFIXLEN (address_bytes f)"
  have split: "address_bytes f = [0x02, 0xb8, 0x25] @ ?r"
    using address_bytes_shape(2) [OF assms] by (metis append_take_drop_id)
  have len: "length ?r = 24" using address_bytes_shape(1) [OF assms] by (simp add: addr_consts)
  have "SetBytes (address_bytes f) = 0x02b825 * 256 ^ 24 + from_base 256 (map unat ?r)"
    by (subst split) (simp only: SetBytes_def map_append from_base_append length_map len prefix_value)
  moreover have "from_base 256 (map unat ?r) < 256 ^ 24"
    using base256.from_base_less [of "map unat ?r"] len by (auto simp: unat_byte_less)
  ultimately show "0x02b825 * 2 ^ 192 \<le> SetBytes (address_bytes f)" "SetBytes (address_bytes f) < 0x02b826 * 2 ^ 192"
    by simp_all
qed

lemma address_text:
  assumes "length f = UINT160SIZE"
  shows "take 3 (base58_text (SetBytes (address_bytes f))) = ''NKN'' \<and>
    length (base58_text (SetBytes (address_bytes f))) = 36"
proof -
  let ?n = "SetBytes (address_bytes f)"
  have "?n div 58 ^ 33 = 21 * 58 ^ 2 + 18 * 58 + 21"
  proof (rule div_nat_eqI)
    show "58 ^ 33 * (21 * 58 ^ 2 + 18 * 58 + 21) \<le> ?n"
      using address_range(1) [OF assms] by (rule order_trans [rotated]) simp
    show "?n < 58 ^ 33 * Suc (21 * 58 ^ 2 + 18 * 58 + 21)"
      using address_range(2) [OF assms] by (rule order_less_le_trans) simp
  qed
  then obtain low where "to_base 58 ?n = to_base 58 (21 * 58 ^ 2 + 18 * 58 + 21) @ low" "length low = 33"
    using base58.leading [of ?n 33] by auto
  moreover have "to_base 58 (21 * 58 ^ 2 + 18 * 58 + 21) = [21, 18, 21]" by (simp add: to_base.simps)
  ultimately show ?thesis by (simp add: base58_text_def bitcoin_alphabet_def)
qed

lemma address_text_of:
  assumes "base58_std Encode Decode" and "length f = UINT160SIZE"
  shows "\<exists>a. ToAddress Encode f = Some a \<and> ToScriptHash Decode a = Some f \<and> take 3 a = ''NKN'' \<and> length a = 36"
proof -
  let ?n = "SetBytes (address_bytes f)" and ?a = "base58_text (SetBytes (address_bytes f))"
  have pos: "0 < ?n" using address_range(1) [OF assms(2)] by (rule order_less_le_trans [rotated]) simp
  have "Bytes ?n = address_bytes f"
  proof (rule Bytes_SetBytes)
    show "address_bytes f \<noteq> []" "hd (address_bytes f) \<noteq> 0"
      by (simp_all add: address_bytes_eq)
  qed
  then have "ToScriptHash Decode ?a = Some f"
    using base58_std.decode [OF assms(1) pos] address_bytes_shape [OF assms(2)] assms(2)
    by (simp add: ToScriptHash_def SetString_show Uint160ParseFromBytes_def)
  moreover have "ToAddress Encode f = Some ?a"
    using base58_std.encode [OF assms(1) pos] by (simp add: ToAddress_def)
  ultimately show ?thesis using address_text [OF assms(2)] by blast
qed

section \<open>Properties\<close>

text \<open>
  C22: an address stands for the hash it was made from. Every 20-byte hash has an address, the
  address is read back to the same hash, and, as the comment on the prefix promises, it begins
  with \<open>NKN\<close>; it has 36 characters.
\<close>

theorem address_round_trip:
  assumes "base58_std Encode Decode" and "length f = UINT160SIZE"
  shows "\<exists>a. ToAddress Encode f = Some a \<and> ToScriptHash Decode a = Some f \<and> take 3 a = ''NKN'' \<and> length a = 36"
  by (rule address_text_of [OF assms])

theorem address_round_trip_witness:
  "\<exists>a. ToAddress std_encode58 (replicate 20 0) = Some a \<and> ToScriptHash std_decode58 a = Some (replicate 20 0) \<and>
     take 3 a = ''NKN'' \<and> length a = 36"
  by (rule address_round_trip [OF std_base58_ok]) (simp add: UINT160SIZE_def)

end
