(* ===== verification/Go_Common.thy ===== *)
theory Go_Common
  imports Go_Serialize Go_Address Go_Dashboard
begin

text \<open>
  The number types of \<open>src/common\<close>: the amounts \<open>Fixed64\<close> of \<open>Fixed64.go\<close> with their text, the rest of
  \<open>Uint160\<close> in \<open>uint160.go\<close> (order, bytes, JSON, large integers), \<open>Uint256\<close> of \<open>uint256.go\<close>, and the helpers of
  \<open>common.go\<close>. The arrays are lists of their 20 or 32 bytes. \<open>None\<close> is an error.
\<close>

section \<open>Fixed64.go\<close>

definition MaximumPrecision :: nat where
  "MaximumPrecision = 8"

definition StorageFactor :: "64 word" where
  "StorageFactor = 100000000"

definition Fixed64_Serialize :: "64 word \<Rightarrow> bytes" where
  "Fixed64_Serialize f = PutUint 8 f"

definition Fixed64_Deserialize :: "bytes \<Rightarrow> 64 word option \<times> bytes" where
  "Fixed64_Deserialize r =
     (case Read 8 r of ((p, n, err), r) \<Rightarrow> (if n = 0 \<or> err then None else Some (LittleEndian p), r))"

definition FormatUint :: "64 word \<Rightarrow> string" where
  "FormatUint v = show_uint (uint v)"

definition Fixed64_String :: "64 word \<Rightarrow> string" where
  "Fixed64_String f =
     (let neg = sint f < 0;
          value = (if neg then - f else f);
          frac = value mod StorageFactor
      in (if neg then ''-'' else []) @ FormatUint (value div StorageFactor) @
         (if 0 < frac
          then let s = FormatUint frac in ''.'' @ replicate (MaximumPrecision - length s) CHR ''0'' @ s
          else []))"

text \<open>\<open>strings.Index\<close> for a text of one character.\<close>

definition strings_Index :: "string \<Rightarrow> char \<Rightarrow> nat option" where
  "strings_Index s c =
     (let n = length (takeWhile (\<lambda>d. d \<noteq> c) s) in if n = length s then None else Some n)"

definition StringToFixed64 :: "string \<Rightarrow> 64 word option" where
  "StringToFixed64 s =
     (let buffer =
        (case strings_Index s CHR ''.'' of
           None \<Rightarrow> Some (s @ replicate MaximumPrecision CHR ''0'')
         | Some di \<Rightarrow>
             (let precision = length s - di - 1 in
              if MaximumPrecision < precision then None
              else Some (take di s @ drop (di + 1) s @ replicate (MaximumPrecision - precision) CHR ''0'')))
      in case buffer of
        None \<Rightarrow> None
      | Some b \<Rightarrow> (case ParseInt b of (r, err) \<Rightarrow> if err then None else Some (of_int r)))"

section \<open>uint160.go, uint256.go\<close>

text \<open>The loop of \<open>CompareTo\<close>, over two arrays of one size.\<close>

fun compare_bytes :: "bytes \<Rightarrow> bytes \<Rightarrow> int" where
  "compare_bytes (x # xs) (y # ys) = (if y < x then 1 else if x < y then - 1 else compare_bytes xs ys)"
| "compare_bytes _ _ = 0"

definition Uint160_CompareTo :: "bytes \<Rightarrow> bytes \<Rightarrow> int" where
  "Uint160_CompareTo u v = compare_bytes u v"

definition Uint256_CompareTo :: "bytes \<Rightarrow> bytes \<Rightarrow> int" where
  "Uint256_CompareTo u v = compare_bytes u v"

definition UINT256SIZE :: nat where
  "UINT256SIZE = 32"

definition Uint160_Serialize :: "bytes \<Rightarrow> bytes" where
  "Uint160_Serialize u = u"

text \<open>The array is not changed when nothing can be read.\<close>

definition Uint160_Deserialize :: "bytes \<Rightarrow> bytes option \<times> bytes" where
  "Uint160_Deserialize r =
     (case Read UINT160SIZE r of ((p, n, err), r) \<Rightarrow> (if n = 0 \<or> err then None else Some p, r))"

definition Uint256_Serialize :: "bytes \<Rightarrow> bytes" where
  "Uint256_Serialize u = u"

definition Uint256_Deserialize :: "bytes \<Rightarrow> bytes option \<times> bytes" where
  "Uint256_Deserialize r =
     (case Read UINT256SIZE r of ((p, n, err), r) \<Rightarrow> (if n = 0 \<or> err then None else Some p, r))"

text \<open>The text, and whether there is an error beside it.\<close>

definition Uint160_MarshalJSON :: "(string \<Rightarrow> string option) \<Rightarrow> bytes \<Rightarrow> string \<times> bool" where
  "Uint160_MarshalJSON Encode f =
     (case ToAddress Encode f of
        None \<Rightarrow> (''\"\"'', True)
      | Some str \<Rightarrow> (CHR 0x22 # str @ [CHR 0x22], False))"

text \<open>\<open>SetBytes\<close>, as a new array.\<close>

definition Uint160_SetBytes :: "bytes \<Rightarrow> bytes" where
  "Uint160_SetBytes b =
     (let b = (if UINT160SIZE < length b then drop (length b - UINT160SIZE) b else b)
      in replicate (UINT160SIZE - length b) 0 @ b)"

definition Uint160_UnmarshalJSON :: "(string \<Rightarrow> string option) \<Rightarrow> string \<Rightarrow> bytes option" where
  "Uint160_UnmarshalJSON Decode inp =
     (if length inp < 2 then None
      else map_option Uint160_SetBytes (ToScriptHash Decode (take (length inp - 2) (drop 1 inp))))"

definition BytesToUint160 :: "bytes \<Rightarrow> bytes" where
  "BytesToUint160 b = Uint160_SetBytes b"

definition BigToUint160 :: "nat \<Rightarrow> bytes" where
  "BigToUint160 b = BytesToUint160 (Bytes b)"

definition Uint160_Big :: "bytes \<Rightarrow> nat" where
  "Uint160_Big u = SetBytes u"

definition Uint160_ToHexString :: "bytes \<Rightarrow> string" where
  "Uint160_ToHexString u = hex_encode u"

definition Uint256_ToHexString :: "bytes \<Rightarrow> string" where
  "Uint256_ToHexString u = hex_encode u"

text \<open>The array, and whether there is an error beside it.\<close>

definition Uint256ParseFromBytes :: "bytes \<Rightarrow> bytes \<times> bool" where
  "Uint256ParseFromBytes f =
     (take UINT256SIZE f @ replicate (UINT256SIZE - length f) 0, length f \<noteq> UINT256SIZE)"

definition U256Equal :: "bytes \<Rightarrow> bytes \<Rightarrow> bool" where
  "U256Equal a b \<longleftrightarrow> a = b"

section \<open>common.go\<close>

text \<open>An \<open>int\<close> is a word of 64 bits; \<open>int32\<close> keeps the lower half.\<close>

definition IntToBytes :: "64 word \<Rightarrow> bytes" where
  "IntToBytes n = PutUint 4 n"

text \<open>\<open>binary.Read\<close> of two bytes, the higher one first; its error is not looked at.\<close>

definition BytesToInt16 :: "bytes \<Rightarrow> 16 word" where
  "BytesToInt16 b = (case ReadFull 2 b of (Some p, _) \<Rightarrow> push_bit 8 (ucast (p ! 0)) OR ucast (p ! 1) | (None, _) \<Rightarrow> 0)"

definition BytesToInt :: "bytes \<Rightarrow> 64 word list" where
  "BytesToInt b = map ucast b"

definition ClearBytes :: "bytes \<Rightarrow> bytes" where
  "ClearBytes b = map (\<lambda>_. 0) b"

definition CompareHeight :: "32 word \<Rightarrow> 32 word list \<Rightarrow> bool" where
  "CompareHeight blockHeight heights \<longleftrightarrow> list_all (\<lambda>height. \<not> blockHeight < height) heights"

text \<open>The loop of \<open>GetUint16Array\<close>; \<open>None\<close> as an argument is nil.\<close>

fun uint16_pairs :: "bytes \<Rightarrow> 16 word list" where
  "uint16_pairs (a # b # rest) = (ucast a + ucast b * 256) # uint16_pairs rest"
| "uint16_pairs _ = []"

definition GetUint16Array :: "bytes option \<Rightarrow> 16 word list option" where
  "GetUint16Array source =
     (case source of
        None \<Rightarrow> None
      | Some bs \<Rightarrow> if length bs mod 2 \<noteq> 0 then None else Some (uint16_pairs bs))"

definition ToByteArray :: "16 word list \<Rightarrow> bytes" where
  "ToByteArray source = concat (map (\<lambda>v. [ucast (v mod 256), ucast (v div 256)]) source)"

text \<open>
  The slice that is returned, and the array of the argument afterwards, into which \<open>append\<close> writes.
\<close>

fun SliceRemove :: "32 word list \<Rightarrow> 32 word \<Rightarrow> 32 word list \<times> 32 word list" where
  "SliceRemove [] h = ([], [])"
| "SliceRemove (v # rest) h =
     (if v = h then (rest, rest @ [last (v # rest)])
      else case SliceRemove rest h of (s, arr) \<Rightarrow> (v # s, v # arr))"

definition AbsUint :: "64 word \<Rightarrow> 64 word \<Rightarrow> 64 word" where
  "AbsUint n1 n2 = (if n1 > n2 then n1 - n2 else n2 - n1)"

section \<open>The text of an amount\<close>

lemma ParseInt_digits:
  assumes "list_all is_digit ds" and "ds \<noteq> []" and "if neg then digits_val ds \<le> 2 ^ 63 else digits_val ds < 2 ^ 63"
  shows "ParseInt ((if neg then ''-'' else []) @ ds) = (if neg then - digits_val ds else digits_val ds, False)"
proof -
  have "hd ds \<noteq> CHR ''-''" "hd ds \<noteq> CHR ''+''" using assms(1,2) by (cases ds; auto simp: is_digit_def)+
  with assms(2) have "split_sign ((if neg then ''-'' else []) @ ds) = (neg, ds)" by (simp add: split_sign_def)
  with assms show ?thesis by (auto simp: ParseInt_def split: if_splits)
qed

lemma Index_digits:
  assumes "list_all is_digit ds"
  shows "strings_Index ((if neg then ''-'' else []) @ ds) CHR ''.'' = None"
    and "strings_Index ((if neg then ''-'' else []) @ ds @ CHR ''.'' # s) CHR ''.'' = Some (length ((if neg then ''-'' else []) @ ds))"
proof -
  have no: "\<forall>d \<in> set ((if neg then ''-'' else []) @ ds). d \<noteq> CHR ''.''"
    using assms by (auto simp: list_all_iff is_digit_def)
  then have "takeWhile (\<lambda>d. d \<noteq> CHR ''.'') ((if neg then ''-'' else []) @ ds) = (if neg then ''-'' else []) @ ds"
    by (simp only: takeWhile_eq_all_conv)
  then show "strings_Index ((if neg then ''-'' else []) @ ds) CHR ''.'' = None"
    by (simp only: strings_Index_def Let_def simp_thms if_True)
  from no have "takeWhile (\<lambda>d. d \<noteq> CHR ''.'') (((if neg then ''-'' else []) @ ds) @ CHR ''.'' # s) =
      (if neg then ''-'' else []) @ ds"
    by (subst takeWhile_append2) auto
  then show "strings_Index ((if neg then ''-'' else []) @ ds @ CHR ''.'' # s) CHR ''.'' =
      Some (length ((if neg then ''-'' else []) @ ds))"
    by (simp only: strings_Index_def Let_def append_assoc) simp
qed

text \<open>Reading a text with a whole part and eight decimals, or none.\<close>

lemma StringToFixed64_whole:
  assumes "list_all is_digit ds" and "ds \<noteq> []" and "digits_val ds * 10 ^ 8 = n" and "if neg then n \<le> 2 ^ 63 else n < 2 ^ 63"
  shows "StringToFixed64 ((if neg then ''-'' else []) @ ds) = Some (of_int (if neg then - n else n))"
proof -
  let ?ds = "ds @ replicate 8 CHR ''0''"
  have v: "digits_val ?ds = n"
    using assms(3) digits_val_zeros [of 8 "[]"] by (simp add: digits_val_append)
  have "ParseInt ((if neg then ''-'' else []) @ ?ds) = (if neg then - n else n, False)"
    using ParseInt_digits [of ?ds neg] assms(1,2,4) v by (cases neg) (auto simp: list_all_iff is_digit_def)
  then show ?thesis using Index_digits(1) [OF assms(1)] by (simp add: StringToFixed64_def MaximumPrecision_def)
qed

lemma StringToFixed64_frac:
  assumes "list_all is_digit ds" and "ds \<noteq> []" and "list_all is_digit g" and "length g = 8"
    and "digits_val ds * 10 ^ 8 + digits_val g = n" and "if neg then n \<le> 2 ^ 63 else n < 2 ^ 63"
  shows "StringToFixed64 ((if neg then ''-'' else []) @ ds @ CHR ''.'' # g) = Some (of_int (if neg then - n else n))"
proof -
  have "digits_val (ds @ g) = n" using assms(4,5) by (simp add: digits_val_append)
  then have "ParseInt ((if neg then ''-'' else []) @ ds @ g) = (if neg then - n else n, False)"
    using ParseInt_digits [of "ds @ g" neg] assms(1-3,6) by (cases neg) auto
  then show ?thesis
    using Index_digits(2) [OF assms(1), of neg g] assms(4)
    by (cases neg) (simp_all add: StringToFixed64_def MaximumPrecision_def)
qed

section \<open>Bytes of the arrays\<close>

lemmas array_defs = Uint160_Serialize_def Uint160_Deserialize_def Uint256_Serialize_def Uint256_Deserialize_def

interpretation uint160: codec Uint160_Serialize Uint160_Deserialize "\<lambda>u. length u = UINT160SIZE"
  by unfold_locales (simp add: array_defs UINT160SIZE_def)

interpretation uint256: codec Uint256_Serialize Uint256_Deserialize "\<lambda>u. length u = UINT256SIZE"
  by unfold_locales (simp add: array_defs UINT256SIZE_def)

interpretation fixed64: codec Fixed64_Serialize Fixed64_Deserialize "\<lambda>_. True"
  by unfold_locales (simp add: Fixed64_Serialize_def Fixed64_Deserialize_def LittleEndian_PutUint take_bit_word_all)

lemma SetBytes_Cons: "SetBytes (x # xs) = unat x * 256 ^ length xs + SetBytes xs"
  using from_base_append [of 256 "[unat x]" "map unat xs"] by (simp add: SetBytes_def from_base_def)

lemma SetBytes_less: "SetBytes xs < 256 ^ length xs"
  using base256.from_base_less [of "map unat xs"] by (auto simp: SetBytes_def unat_byte_less)

lemma SetBytes_append: "SetBytes (xs @ ys) = SetBytes xs * 256 ^ length ys + SetBytes ys"
  by (simp add: SetBytes_def from_base_append)

lemma SetBytes_zeros [simp]: "SetBytes (replicate k 0 @ xs) = SetBytes xs"
  by (induction k) (simp_all add: SetBytes_Cons)

lemma SetBytes_Bytes: "SetBytes (Bytes n) = n"
proof -
  have "map (unat \<circ> (of_nat :: nat \<Rightarrow> byte)) (to_base 256 n) = to_base 256 n"
    using base256.digits_less [of _ n] by (intro map_idI) (simp add: unat_of_nat)
  then show ?thesis by (simp add: Bytes_def SetBytes_def base256.from_to)
qed

lemma head_decides:
  fixes x y :: byte
  assumes "x < y" and "length xs = length ys"
  shows "SetBytes (x # xs) < SetBytes (y # ys)"
proof -
  have "SetBytes (x # xs) < unat x * 256 ^ length ys + 256 ^ length ys"
    using SetBytes_less [of xs] assms(2) by (simp add: SetBytes_Cons)
  also have "\<dots> = Suc (unat x) * 256 ^ length ys" by simp
  also have "\<dots> \<le> unat y * 256 ^ length ys" using assms(1) by (intro mult_right_mono) (simp_all add: word_less_nat_alt)
  also have "\<dots> \<le> SetBytes (y # ys)" by (simp add: SetBytes_Cons)
  finally show ?thesis .
qed

lemma SetBytes_inject: "length xs = length ys \<Longrightarrow> SetBytes xs = SetBytes ys \<Longrightarrow> xs = ys"
proof (induction xs ys rule: list_induct2)
  case (Cons x xs y ys)
  have "x = y" using head_decides [of x y xs ys] head_decides [of y x ys xs] Cons.hyps Cons.prems
    by (cases x y rule: linorder_cases) simp_all
  with Cons show ?case by (simp add: SetBytes_Cons)
qed simp

lemma compare_bytes_sgn:
  "length xs = length ys \<Longrightarrow> compare_bytes xs ys = sgn (int (SetBytes xs) - int (SetBytes ys))"
proof (induction xs ys rule: compare_bytes.induct)
  case (1 x xs y ys)
  consider "x < y" | "y < x" | "x = y" by (rule linorder_cases)
  then show ?case
  proof cases
    case 1
    with \<open>length (x # xs) = length (y # ys)\<close> head_decides [of x y xs ys] show ?thesis by auto
  next
    case 2
    with \<open>length (x # xs) = length (y # ys)\<close> head_decides [of y x ys xs] show ?thesis by auto
  next
    case 3
    with 1 show ?thesis by (simp add: SetBytes_Cons)
  qed
qed auto

lemma Uint160_SetBytes_value: "SetBytes (Uint160_SetBytes b) = SetBytes b mod 2 ^ 160"
proof (cases "UINT160SIZE < length b")
  case True
  let ?h = "take (length b - UINT160SIZE) b" and ?l = "drop (length b - UINT160SIZE) b"
  have l: "length ?l = 20" using True by (simp add: UINT160SIZE_def)
  have "SetBytes b = SetBytes (?h @ ?l)" by simp
  also have "\<dots> = SetBytes ?h * 2 ^ 160 + SetBytes ?l" unfolding SetBytes_append l by simp
  finally have "SetBytes b mod 2 ^ 160 = SetBytes ?l mod 2 ^ 160" by simp
  moreover have "SetBytes ?l < 2 ^ 160" using SetBytes_less [of ?l] unfolding l by simp
  ultimately show ?thesis using True l by (simp add: Uint160_SetBytes_def Let_def)
next
  case False
  have "SetBytes b < 256 ^ length b" by (rule SetBytes_less)
  also have "\<dots> \<le> 256 ^ 20" using False by (intro power_increasing) (simp_all add: UINT160SIZE_def)
  finally show ?thesis using False by (simp add: Uint160_SetBytes_def Let_def)
qed

lemma length_Uint160_SetBytes [simp]: "length (Uint160_SetBytes b) = UINT160SIZE"
  by (simp add: Uint160_SetBytes_def Let_def)

lemma Uint160_SetBytes_same [simp]: "length b = UINT160SIZE \<Longrightarrow> Uint160_SetBytes b = b"
  by (simp add: Uint160_SetBytes_def)

lemma sint_bounds: "- (2 ^ 63) \<le> sint f" "sint f < 2 ^ 63" for f :: "64 word"
  using sint_range_size [of f] by (simp_all add: word_size)

lemma abs_uint: "uint (if sint f < 0 then - f else f) = \<bar>sint f\<bar>" for f :: "64 word"
proof (cases "sint f < 0")
  case True
  have "uint (- f) = uint (of_int (- sint f) :: 64 word)" by simp
  then have "uint (- f) = (- sint f) mod 2 ^ 64" by (simp only: uint_word_of_int) simp
  with True sint_bounds [of f] show ?thesis by simp
next
  case False
  have "uint f = uint (of_int (sint f) :: 64 word)" by simp
  then have "uint f = sint f mod 2 ^ 64" by (simp only: uint_word_of_int) simp
  with False sint_bounds [of f] show ?thesis by simp
qed

text \<open>The text of an amount, from its absolute value.\<close>

definition amount_text :: "int \<Rightarrow> string" where
  "amount_text n = show_uint (n div 10 ^ 8) @
     (if 0 < n mod 10 ^ 8
      then ''.'' @ replicate (8 - length (show_uint (n mod 10 ^ 8))) CHR ''0'' @ show_uint (n mod 10 ^ 8)
      else [])"

lemma amount_text_read:
  assumes "0 \<le> n" and "if neg then n \<le> 2 ^ 63 else n < 2 ^ 63"
  shows "StringToFixed64 ((if neg then ''-'' else []) @ amount_text n) = Some (of_int (if neg then - n else n))"
proof -
  have q: "0 \<le> n div 10 ^ 8" using assms(1) by (simp add: pos_imp_zdiv_nonneg_iff)
  show ?thesis
  proof (cases "n mod 10 ^ 8 = 0")
    case True
    then have "digits_val (show_uint (n div 10 ^ 8)) * 10 ^ 8 = n" using q by auto
    from StringToFixed64_whole [OF list_all_digits_show [OF q] show_uint_ne this assms(2)] True
    show ?thesis by (simp add: amount_text_def)
  next
    case False
    let ?g = "replicate (8 - length (show_uint (n mod 10 ^ 8))) CHR ''0'' @ show_uint (n mod 10 ^ 8)"
    have g: "length ?g = 8" "digits_val ?g = n mod 10 ^ 8" "list_all is_digit ?g"
      using fixed_frac [OF assms(1), of 8] by (simp_all add: list_all_iff)
    have "digits_val (show_uint (n div 10 ^ 8)) * 10 ^ 8 + digits_val ?g = n"
      unfolding g(2) using q by simp
    from StringToFixed64_frac [OF list_all_digits_show [OF q] show_uint_ne g(3,1) this assms(2)] False
    show ?thesis by (simp add: amount_text_def order_less_le)
  qed
qed

section \<open>Helpers of common.go\<close>

lemma uint16_bytes: "ucast (ucast (v mod 256) :: byte) + ucast (ucast (v div 256) :: byte) * 256 = v" for v :: "16 word"
proof -
  have "unat v < 65536" by (rule order_less_le_trans [OF unsigned_less]) simp
  then have "unat v div 256 < 256" by (simp add: less_mult_imp_div_less)
  then show ?thesis
    by (simp add: word_unat_eq_iff unsigned_ucast_eq unat_word_ariths unat_div unat_mod take_bit_eq_mod)
qed

lemma uint16_array_round_trip: "GetUint16Array (Some (ToByteArray vs)) = Some vs"
proof -
  have "length (ToByteArray vs) mod 2 = 0" by (induction vs) (simp_all add: ToByteArray_def)
  moreover have "uint16_pairs (ToByteArray vs) = vs" by (induction vs) (simp_all add: ToByteArray_def uint16_bytes)
  ultimately show ?thesis by (simp add: GetUint16Array_def)
qed

lemma SliceRemove_remove1: "fst (SliceRemove xs h) = remove1 h xs"
  by (induction xs) (simp_all add: case_prod_unfold)

lemma SliceRemove_array:
  "snd (SliceRemove xs h) = (if h \<in> set xs then remove1 h xs @ [last xs] else xs)"
  by (induction xs) (auto simp: case_prod_unfold)

lemma AbsUint_distance: "uint (AbsUint m n) = \<bar>uint m - uint n\<bar>"
  by (auto simp: AbsUint_def uint_sub_if' word_less_def)

section \<open>Properties\<close>

text \<open>
  C24: the text of an amount is read back to it, for every amount a 64-bit integer can hold, the smallest
  negative one included, whose negation wraps around.
\<close>

theorem fixed64_text_round_trip: "StringToFixed64 (Fixed64_String f) = Some f"
proof -
  let ?neg = "sint f < 0"
  let ?v = "if ?neg then - f else f"
  note abs = abs_uint [of f] and bounds = sint_bounds [of f]
  have val: "of_int (if ?neg then - uint ?v else uint ?v) = f" using abs by simp
  have range: "if ?neg then uint ?v \<le> 2 ^ 63 else uint ?v < 2 ^ 63" using abs bounds by (auto split: if_splits)
  have "Fixed64_String f = (if ?neg then ''-'' else []) @ amount_text (uint ?v)"
    by (simp add: Fixed64_String_def amount_text_def FormatUint_def StorageFactor_def MaximumPrecision_def
        uint_div uint_mod word_less_def Let_def)
  then show ?thesis using amount_text_read [OF _ range] val by simp
qed

text \<open>
  C23: \<open>CompareTo\<close> orders the arrays as the numbers \<open>Big\<close> reads from them, \<open>BigToUint160\<close> undoes \<open>Big\<close>, and of a number
  that is too large it keeps the lower 160 bits, as the comment on \<open>SetBytes\<close> says.
\<close>

theorem uint160_is_a_number:
  assumes "length u = UINT160SIZE" and "length v = UINT160SIZE"
  shows "Uint160_CompareTo u v = sgn (int (Uint160_Big u) - int (Uint160_Big v)) \<and>
    BigToUint160 (Uint160_Big u) = u \<and> Uint160_Big (BigToUint160 n) = n mod 2 ^ 160"
proof (intro conjI)
  show "Uint160_CompareTo u v = sgn (int (Uint160_Big u) - int (Uint160_Big v))"
    using assms by (simp add: Uint160_CompareTo_def Uint160_Big_def compare_bytes_sgn)
  show big: "Uint160_Big (BigToUint160 n) = n mod 2 ^ 160" for n
    by (simp add: Uint160_Big_def BigToUint160_def BytesToUint160_def Uint160_SetBytes_value SetBytes_Bytes)
  have "SetBytes u < 2 ^ 160" using SetBytes_less [of u] assms(1) by (simp add: UINT160SIZE_def)
  then have "Uint160_Big u mod 2 ^ 160 = Uint160_Big u" by (simp add: Uint160_Big_def)
  then have "Uint160_Big (BigToUint160 (Uint160_Big u)) = Uint160_Big u" by (simp only: big)
  then show "BigToUint160 (Uint160_Big u) = u"
    using assms(1) by (intro SetBytes_inject) (simp_all add: Uint160_Big_def BigToUint160_def BytesToUint160_def)
qed

theorem uint160_is_a_number_witness:
  "Uint160_CompareTo (replicate 19 0 @ [1]) (replicate 19 0 @ [2]) = - 1 \<and>
   BigToUint160 (Uint160_Big (replicate 19 0 @ [1])) = replicate 19 0 @ [1] \<and>
   Uint160_Big (BigToUint160 (2 ^ 160 + 7)) = 7"
  using uint160_is_a_number [of "replicate 19 0 @ [1]" "replicate 19 0 @ [2]" "2 ^ 160 + 7"]
  by (simp add: UINT160SIZE_def Uint160_Big_def SetBytes_Cons SetBytes_def from_base_def)

text \<open>
  The JSON text of a hash is its address in quotes, and is read back.
\<close>

lemma uint160_json_round_trip:
  assumes "base58_std Encode Decode" and "length u = UINT160SIZE"
  shows "\<exists>s. Uint160_MarshalJSON Encode u = (s, False) \<and> Uint160_UnmarshalJSON Decode s = Some u"
proof -
  obtain a where "ToAddress Encode u = Some a" "ToScriptHash Decode a = Some u" using address_text_of [OF assms] by blast
  then show ?thesis using assms(2) by (simp add: Uint160_MarshalJSON_def Uint160_UnmarshalJSON_def)
qed

text \<open>Texts without a digit are amounts too, and a sign may stand behind the point.\<close>

lemma odd_texts_accepted:
  "StringToFixed64 [] = Some 0" "StringToFixed64 ''.'' = Some 0" "StringToFixed64 ''.-5'' = StringToFixed64 ''-0.05''"
  by code_simp+

end
