(* ===== verification/Go_Program.thy ===== *)
theory Go_Program
  imports Go_Common
begin

text \<open>
  Programs, in Go: the code that locks an account to a public key, and the context of a program with its
  serialisation (\<open>program/program.go\<close>, \<open>ToCodeHash\<close> of \<open>common/common.go\<close>). A call returns, fails
  with an error, or panics. The packages that derive keys and digests are the parameter \<open>keylib\<close>.
\<close>

section \<open>Calls\<close>

datatype 'a go = Ret 'a | Err | Panic

fun go_bind :: "'a go \<Rightarrow> ('a \<Rightarrow> 'b go) \<Rightarrow> 'b go" where
  "go_bind (Ret x) f = f x"
| "go_bind Err f = Err"
| "go_bind Panic f = Panic"

definition go_of :: "'a option \<Rightarrow> 'a go" where
  "go_of r = (case r of None \<Rightarrow> Err | Some x \<Rightarrow> Ret x)"

lemma go_of_simps [simp]: "go_of None = Err" "go_of (Some x) = Ret x"
  by (simp_all add: go_of_def)

lemma go_bind_Ret: "go_bind m f = Ret y \<longleftrightarrow> (\<exists>x. m = Ret x \<and> f x = Ret y)"
  by (cases m) simp_all

lemma go_bind_RetE: "go_bind m f = Ret y \<Longrightarrow> (\<And>x. m = Ret x \<Longrightarrow> f x = Ret y \<Longrightarrow> P) \<Longrightarrow> P"
  by (auto simp: go_bind_Ret)

lemma go_of_Ret_iff [simp]: "go_of r = Ret x \<longleftrightarrow> r = Some x"
  by (cases r) simp_all

section \<open>The packages that derive keys\<close>

text \<open>\<open>kl_public\<close> is the public key of a seed, the second half of \<open>ed25519.NewKeyFromSeed\<close>.\<close>

record keylib =
  kl_scrypt :: "bytes \<Rightarrow> bytes \<Rightarrow> int \<Rightarrow> int \<Rightarrow> int \<Rightarrow> bytes option"
  kl_public :: "bytes \<Rightarrow> bytes"
  kl_ripemd160 :: "bytes \<Rightarrow> bytes"
  kl_Encode :: "string \<Rightarrow> string option"
  kl_Decode :: "string \<Rightarrow> string option"

section \<open>program.go\<close>

definition CHECKSIG :: byte where
  "CHECKSIG = 0xAC"

text \<open>The type of a parameter is a byte under a name of its own.\<close>

datatype ProgramContextParameterType = ParameterType (type_byte: byte)

definition Signature :: ProgramContextParameterType where
  "Signature = ParameterType 0"

record ProgramContext =
  pc_Code :: bytes
  pc_Parameters :: "ProgramContextParameterType list"
  pc_ProgramHash :: bytes
  pc_OwnerPubkeyHash :: bytes

definition ToCodeHash :: "keylib \<Rightarrow> bytes \<Rightarrow> bytes option" where
  "ToCodeHash L code = Uint160ParseFromBytes (kl_ripemd160 L (sha256 code))"

definition CreateSignatureProgramCode :: "bytes \<Rightarrow> bytes" where
  "CreateSignatureProgramCode pubKey = [of_nat (length pubKey)] @ pubKey @ [CHECKSIG]"

definition CreateProgramHash :: "keylib \<Rightarrow> bytes \<Rightarrow> bytes option" where
  "CreateProgramHash L pubKey = ToCodeHash L (CreateSignatureProgramCode pubKey)"

definition CreateSignatureProgramContext :: "keylib \<Rightarrow> bytes \<Rightarrow> ProgramContext go" where
  "CreateSignatureProgramContext L ownerPubKey =
     (let code = CreateSignatureProgramCode ownerPubKey in
      go_bind (go_of (ToCodeHash L ownerPubKey)) (\<lambda>hash.
      go_bind (go_of (ToCodeHash L code)) (\<lambda>programHash.
        Ret \<lparr>pc_Code = code, pc_Parameters = [Signature], pc_ProgramHash = programHash, pc_OwnerPubkeyHash = hash\<rparr>)))"

definition ProgramContextParameterTypeToByte :: "ProgramContextParameterType list \<Rightarrow> bytes" where
  "ProgramContextParameterTypeToByte c = map type_byte c"

definition ByteToProgramContextParameterType :: "bytes \<Rightarrow> ProgramContextParameterType list" where
  "ByteToProgramContextParameterType b = map ParameterType b"

definition ProgramContext_Serialize :: "ProgramContext \<Rightarrow> bytes" where
  "ProgramContext_Serialize c =
     WriteVarBytes (pc_Code c) @ WriteVarBytes (ProgramContextParameterTypeToByte (pc_Parameters c)) @
     Uint160_Serialize (pc_ProgramHash c)"

definition ProgramContext_ToArray :: "ProgramContext \<Rightarrow> bytes" where
  "ProgramContext_ToArray c = ProgramContext_Serialize c"

text \<open>
  \<open>Deserialize\<close> into \<open>c\<close>: what it has become, whether there is an error, what is left. A field is set as soon as it is
  read; the hash of the owner's key is not part of the format.
\<close>

definition ProgramContext_Deserialize :: "ProgramContext \<Rightarrow> bytes \<Rightarrow> (ProgramContext \<times> bool) \<times> bytes" where
  "ProgramContext_Deserialize c r =
     (case ReadVarBytes r of
        (None, r) \<Rightarrow> ((c, True), r)
      | (Some code, r) \<Rightarrow>
          (let c = c\<lparr>pc_Code := code\<rparr> in
           case ReadVarBytes r of
             (None, r) \<Rightarrow> ((c, True), r)
           | (Some p, r) \<Rightarrow>
               (let c = c\<lparr>pc_Parameters := ByteToProgramContextParameterType p\<rparr> in
                case Uint160_Deserialize r of
                  (None, r) \<Rightarrow> ((c, True), r)
                | (Some h, r) \<Rightarrow> ((c\<lparr>pc_ProgramHash := h\<rparr>, False), r))))"

definition GetPublicKeyFromCode :: "bytes \<Rightarrow> bytes option" where
  "GetPublicKeyFromCode code =
     (if length code \<noteq> 34 then None
      else if code ! 0 \<noteq> 32 \<and> code ! 33 \<noteq> CHECKSIG then None
      else Some (take 32 (drop 1 code)))"

definition GetSignatureFromParameter :: "bytes \<Rightarrow> bytes option" where
  "GetSignatureFromParameter parameter =
     (if length parameter \<noteq> 65 then None
      else if parameter ! 0 \<noteq> 64 then None
      else Some (drop 1 parameter))"

text \<open>\<open>pb.Program\<close>.\<close>

record Program =
  pr_Code :: bytes
  pr_Parameter :: bytes

definition NewProgram :: "ProgramContext \<Rightarrow> bytes \<Rightarrow> Program" where
  "NewProgram c signature = \<lparr>pr_Code = pc_Code c, pr_Parameter = of_nat (length signature) # signature\<rparr>"

section \<open>Codes and parameters\<close>

lemma code_gives_key: "length pubKey = 32 \<Longrightarrow> GetPublicKeyFromCode (CreateSignatureProgramCode pubKey) = Some pubKey"
  by (simp add: GetPublicKeyFromCode_def CreateSignatureProgramCode_def)

lemma parameter_gives_signature:
  "length sig = 64 \<Longrightarrow> GetSignatureFromParameter (pr_Parameter (NewProgram c sig)) = Some sig"
  by (simp add: GetSignatureFromParameter_def NewProgram_def)

text \<open>
  The check of a code's two marks is a conjunction: one wrong mark is accepted, in either place.
\<close>

theorem code_marks_unchecked:
  assumes "length pubKey = 32"
  shows "GetPublicKeyFromCode (b # pubKey @ [CHECKSIG]) = Some pubKey \<and> GetPublicKeyFromCode (32 # pubKey @ [b]) = Some pubKey"
  using assms by (simp add: GetPublicKeyFromCode_def nth_append)

text \<open>
  A program context is read back from its serialisation, and nothing of what follows is touched; only the
  hash of the owner's key, which is not written, keeps the value it had.
\<close>

theorem program_context_round_trip:
  assumes "length (pc_Code c) < 2 ^ 64" and "length (pc_Parameters c) < 2 ^ 64" and "length (pc_ProgramHash c) = UINT160SIZE"
  shows "ProgramContext_Deserialize c0 (ProgramContext_ToArray c @ rest) =
    ((c\<lparr>pc_OwnerPubkeyHash := pc_OwnerPubkeyHash c0\<rparr>, False), rest)"
proof -
  have "Uint160_Deserialize (pc_ProgramHash c @ rest) = (Some (pc_ProgramHash c), rest)"
    using uint160.read_write [of "pc_ProgramHash c" rest] assms(3) by (simp add: Uint160_Serialize_def)
  then show ?thesis
    using var_bytes.read_write [OF assms(1)] var_bytes.read_write [of "map type_byte (pc_Parameters c)"] assms(2)
    by (simp add: comp_def ProgramContext_Deserialize_def ProgramContext_ToArray_def ProgramContext_Serialize_def Uint160_Serialize_def
        ProgramContextParameterTypeToByte_def ByteToProgramContextParameterType_def)
qed

theorem program_context_round_trip_witness:
  "ProgramContext_Deserialize \<lparr>pc_Code = [], pc_Parameters = [], pc_ProgramHash = [], pc_OwnerPubkeyHash = [5]\<rparr>
     (ProgramContext_ToArray \<lparr>pc_Code = [1, 2], pc_Parameters = [Signature], pc_ProgramHash = replicate 20 3, pc_OwnerPubkeyHash = [4]\<rparr> @ [9]) =
   ((\<lparr>pc_Code = [1, 2], pc_Parameters = [Signature], pc_ProgramHash = replicate 20 3, pc_OwnerPubkeyHash = [5]\<rparr>, False), [9])"
  using program_context_round_trip [of "\<lparr>pc_Code = [1, 2], pc_Parameters = [Signature], pc_ProgramHash = replicate 20 3, pc_OwnerPubkeyHash = [4]\<rparr>"
      "\<lparr>pc_Code = [], pc_Parameters = [], pc_ProgramHash = [], pc_OwnerPubkeyHash = [5]\<rparr>" "[9]"]
  by (simp add: UINT160SIZE_def)

end
