(* ===== verification/Go_Vault.thy ===== *)
theory Go_Vault
  imports Std_Cbc Go_Program
begin

text \<open>
  The node's wallet, in Go: \<open>AesEncrypt\<close> and \<open>AesDecrypt\<close> of \<open>crypto/helper.go\<close>, the accounts of
  \<open>vault/account.go\<close>, the encrypted wallet data of \<open>vault/data.go\<close>, the store of \<open>vault/store.go\<close> and
  the wallets of \<open>vault/wallet.go\<close>, made, restored from a seed, opened and given a new password.
  The packages that derive keys (\<open>scrypt\<close>, \<open>ripemd160\<close>, base 58, and the public key of a seed) are
  the parameter of \<open>Go_Program\<close>, with the contract \<open>keylib_std\<close>; random bytes are arguments. The cipher is
  modelled for keys of 32 bytes, the size of every key made here; the wallet file holds its data
  or does not parse.
\<close>

section \<open>crypto/helper.go\<close>

definition crypto_AesEncrypt :: "bytes \<Rightarrow> bytes \<Rightarrow> bytes \<Rightarrow> bytes go" where
  "crypto_AesEncrypt plaintext key iv =
     (if length key \<noteq> 32 then Err
      else if length iv \<noteq> 16 \<or> length plaintext mod 16 \<noteq> 0 then Panic
      else Ret (cbc_encrypt (aes256 key) iv plaintext))"

definition crypto_AesDecrypt :: "bytes \<Rightarrow> bytes \<Rightarrow> bytes \<Rightarrow> bytes go" where
  "crypto_AesDecrypt ciphertext key iv =
     (if length key \<noteq> 32 then Err
      else if length ciphertext < 16 then Err
      else if length ciphertext mod 16 \<noteq> 0 then Err
      else if length iv \<noteq> 16 then Panic
      else Ret (cbc_decrypt (aes256_inv key) iv ciphertext))"

section \<open>account.go, crypto.go\<close>

record account =
  ac_PrivateKey :: bytes
  ac_PublicKey :: bytes
  ac_ProgramHash :: bytes

definition SeedSize :: nat where
  "SeedSize = 32"

definition CheckSeed :: "bytes \<Rightarrow> bool" where
  "CheckSeed s \<longleftrightarrow> length s = SeedSize"

definition GetPrivateKeyFromSeed :: "keylib \<Rightarrow> bytes \<Rightarrow> bytes" where
  "GetPrivateKeyFromSeed L s = s @ kl_public L s"

definition GetSeedFromPrivateKey :: "bytes \<Rightarrow> bytes" where
  "GetSeedFromPrivateKey priKey = take SeedSize priKey"

definition GetPublicKeyFromPrivateKey :: "keylib \<Rightarrow> bytes \<Rightarrow> bytes" where
  "GetPublicKeyFromPrivateKey L privateKey =
     drop SeedSize (GetPrivateKeyFromSeed L (take SeedSize privateKey))"

definition NewAccountWithSeed :: "keylib \<Rightarrow> bytes \<Rightarrow> account go" where
  "NewAccountWithSeed L s =
     (if \<not> CheckSeed s then Err
      else let privateKey = GetPrivateKeyFromSeed L s;
               pubKey = GetPublicKeyFromPrivateKey L privateKey
           in go_bind (go_of (CreateProgramHash L pubKey)) (\<lambda>programHash.
                Ret \<lparr>ac_PrivateKey = privateKey, ac_PublicKey = pubKey, ac_ProgramHash = programHash\<rparr>))"

text \<open>\<open>NewAccount\<close>; \<open>rnd\<close> is the seed that \<open>GenKeyPair\<close> draws, with its key pair.\<close>

definition NewAccount :: "keylib \<Rightarrow> bytes \<Rightarrow> account go" where
  "NewAccount L rnd =
     (let publicKey = kl_public L rnd; privateKey = rnd @ publicKey in
      go_bind (go_of (CreateProgramHash L publicKey)) (\<lambda>programHash.
        Ret \<lparr>ac_PrivateKey = privateKey, ac_PublicKey = publicKey, ac_ProgramHash = programHash\<rparr>))"

section \<open>data.go\<close>

record ScryptData =
  sc_Salt :: string
  sc_N :: int
  sc_R :: int
  sc_P :: int

record WalletData =
  wd_Version :: int
  wd_IV :: string
  wd_MasterKey :: string
  wd_SeedEncrypted :: string
  wd_Address :: string
  wd_Scrypt :: "ScryptData option"

definition WalletVersion :: int where
  "WalletVersion = 2"

definition MinCompatibleWalletVersion :: int where
  "MinCompatibleWalletVersion = 1"

definition MaxCompatibleWalletVersion :: int where
  "MaxCompatibleWalletVersion = 2"

definition ScryptN :: int where
  "ScryptN = push_bit 15 1"

definition ScryptR :: int where
  "ScryptR = 8"

definition ScryptP :: int where
  "ScryptP = 1"

definition PasswordToAesKeyHash :: "bytes \<Rightarrow> bytes" where
  "PasswordToAesKeyHash password = sha256 (sha256 password)"

definition PasswordToAesKeyScrypt :: "keylib \<Rightarrow> bytes \<Rightarrow> ScryptData option \<Rightarrow> bytes go" where
  "PasswordToAesKeyScrypt L password scryptData =
     (case scryptData of
        None \<Rightarrow> Panic
      | Some sc \<Rightarrow>
          go_bind (go_of (hex_decode (sc_Salt sc))) (\<lambda>salt.
            go_of (kl_scrypt L password salt (sc_N sc) (sc_R sc) (sc_P sc))))"

text \<open>The key of a password for a wallet version, the \<open>switch\<close> of the two functions below.\<close>

definition password_key :: "keylib \<Rightarrow> int \<Rightarrow> bytes \<Rightarrow> ScryptData option \<Rightarrow> bytes go" where
  "password_key L version password scryptData =
     (if version = 1 then Ret (PasswordToAesKeyHash password)
      else if version = 2 then PasswordToAesKeyScrypt L password scryptData
      else Err)"

text \<open>The random bytes of a new wallet.\<close>

record entropy =
  en_seed :: bytes
  en_masterKey :: bytes
  en_iv :: bytes
  en_salt :: bytes

text \<open>An empty key and a zero parameter stand for the random bytes and the default.\<close>

definition NewWalletData ::
    "keylib \<Rightarrow> entropy \<Rightarrow> account \<Rightarrow> bytes \<Rightarrow> bytes \<Rightarrow> bytes \<Rightarrow> bytes \<Rightarrow> int \<Rightarrow> int \<Rightarrow> int \<Rightarrow> WalletData go" where
  "NewWalletData L rnd acc password masterKey iv scryptSalt scryptN scryptR scryptP =
     (let masterKey = (if masterKey = [] then en_masterKey rnd else masterKey);
          iv = (if iv = [] then en_iv rnd else iv);
          scryptSalt = (if scryptSalt = [] then en_salt rnd else scryptSalt);
          scryptData = \<lparr>sc_Salt = hex_encode scryptSalt,
            sc_N = (if scryptN = 0 then ScryptN else scryptN),
            sc_R = (if scryptR = 0 then ScryptR else scryptR),
            sc_P = (if scryptP = 0 then ScryptP else scryptP)\<rparr>
      in go_bind (password_key L WalletVersion password (Some scryptData)) (\<lambda>passwordKey.
         go_bind (crypto_AesEncrypt masterKey passwordKey iv) (\<lambda>encryptedMasterKey.
         go_bind (crypto_AesEncrypt (GetSeedFromPrivateKey (ac_PrivateKey acc)) masterKey iv) (\<lambda>encryptedSeed.
         go_bind (go_of (ToAddress (kl_Encode L) (ac_ProgramHash acc))) (\<lambda>address.
           Ret \<lparr>wd_Version = WalletVersion,
                wd_IV = hex_encode iv,
                wd_MasterKey = hex_encode encryptedMasterKey,
                wd_SeedEncrypted = hex_encode encryptedSeed,
                wd_Address = address,
                wd_Scrypt = Some scryptData\<rparr>)))))"

definition DecryptMasterKey :: "keylib \<Rightarrow> WalletData \<Rightarrow> bytes \<Rightarrow> bytes go" where
  "DecryptMasterKey L wd password =
     go_bind (password_key L (wd_Version wd) password (wd_Scrypt wd)) (\<lambda>passwordKey.
     go_bind (go_of (hex_decode (wd_IV wd))) (\<lambda>iv.
     go_bind (go_of (hex_decode (wd_MasterKey wd))) (\<lambda>encryptedMasterKey.
       crypto_AesDecrypt encryptedMasterKey passwordKey iv)))"

definition DecryptAccount :: "keylib \<Rightarrow> WalletData \<Rightarrow> bytes \<Rightarrow> account go" where
  "DecryptAccount L wd password =
     go_bind (DecryptMasterKey L wd password) (\<lambda>masterKey.
     go_bind (go_of (hex_decode (wd_SeedEncrypted wd))) (\<lambda>encryptedSeed.
     go_bind (go_of (hex_decode (wd_IV wd))) (\<lambda>iv.
     go_bind (crypto_AesDecrypt encryptedSeed masterKey iv) (\<lambda>s.
       NewAccountWithSeed L s))))"

definition VerifyPassword :: "keylib \<Rightarrow> WalletData \<Rightarrow> bytes \<Rightarrow> unit go" where
  "VerifyPassword L wd password =
     go_bind (DecryptAccount L wd password) (\<lambda>acc.
     go_bind (go_of (ToAddress (kl_Encode L) (ac_ProgramHash acc))) (\<lambda>address.
       if address \<noteq> wd_Address wd then Err else Ret ()))"

section \<open>store.go, wallet.go\<close>

text \<open>The wallet file. \<open>saved\<close>: writing it succeeds.\<close>

datatype wallet_file = Absent | Garbled | Holds WalletData

definition FileExisted :: "wallet_file \<Rightarrow> bool" where
  "FileExisted f \<longleftrightarrow> f \<noteq> Absent"

definition NewWalletStore :: "wallet_file \<Rightarrow> WalletData \<Rightarrow> WalletData go" where
  "NewWalletStore f wd = (if FileExisted f then Err else Ret wd)"

definition LoadWalletStore :: "wallet_file \<Rightarrow> WalletData go" where
  "LoadWalletStore f =
     (if \<not> FileExisted f then Err
      else case f of Holds wd \<Rightarrow> Ret wd | _ \<Rightarrow> Err)"

record wallet =
  w_data :: WalletData
  w_PasswordHash :: bytes
  w_account :: account
  w_contract :: ProgramContext

text \<open>
  \<open>rnd\<close> is drawn by \<open>NewWalletData\<close>; \<open>RestoreWallet\<close> does not use its seed.
\<close>

definition RestoreWallet ::
    "keylib \<Rightarrow> entropy \<Rightarrow> bool \<Rightarrow> wallet_file \<Rightarrow> bytes \<Rightarrow> bytes \<Rightarrow> (wallet \<times> wallet_file) go" where
  "RestoreWallet L rnd saved f password seedBytes =
     (if FileExisted f then Err
      else go_bind (NewAccountWithSeed L seedBytes) (\<lambda>acc.
           go_bind (CreateSignatureProgramContext L (ac_PublicKey acc)) (\<lambda>contract.
           go_bind (NewWalletData L rnd acc password [] [] [] 0 0 0) (\<lambda>walletData.
             if \<not> saved then Err
             else Ret (\<lparr>w_data = walletData, w_PasswordHash = PasswordHash password, w_account = acc,
                        w_contract = contract\<rparr>, Holds walletData)))))"

definition NewWallet :: "keylib \<Rightarrow> entropy \<Rightarrow> bool \<Rightarrow> wallet_file \<Rightarrow> bytes \<Rightarrow> (wallet \<times> wallet_file) go" where
  "NewWallet L rnd saved f password =
     go_bind (NewAccount L (en_seed rnd)) (\<lambda>acc.
     go_bind (NewWalletData L rnd acc password [] [] [] 0 0 0) (\<lambda>walletData.
     go_bind (NewWalletStore f walletData) (\<lambda>store.
     go_bind (CreateSignatureProgramContext L (ac_PublicKey acc)) (\<lambda>contract.
       if \<not> saved then Err
       else Ret (\<lparr>w_data = store, w_PasswordHash = PasswordHash password, w_account = acc,
                   w_contract = contract\<rparr>, Holds store)))))"

definition OpenWallet :: "keylib \<Rightarrow> wallet_file \<Rightarrow> bytes \<Rightarrow> wallet go" where
  "OpenWallet L f password =
     go_bind (LoadWalletStore f) (\<lambda>walletData.
       if wd_Version walletData < MinCompatibleWalletVersion \<or> wd_Version walletData > MaxCompatibleWalletVersion
       then Err
       else go_bind (DecryptAccount L walletData password) (\<lambda>acc.
            go_bind (go_of (ToAddress (kl_Encode L) (ac_ProgramHash acc))) (\<lambda>address.
              if address \<noteq> wd_Address walletData then Err
              else go_bind (CreateSignatureProgramContext L (ac_PublicKey acc)) (\<lambda>contract.
                Ret \<lparr>w_data = walletData, w_PasswordHash = PasswordHash password, w_account = acc,
                     w_contract = contract\<rparr>))))"

text \<open>
  The two fields are set by every function that makes a wallet, so neither is nil.
\<close>

definition GetDefaultAccount :: "wallet \<Rightarrow> account go" where
  "GetDefaultAccount w = Ret (w_account w)"

definition GetContract :: "wallet \<Rightarrow> ProgramContext go" where
  "GetContract w = Ret (w_contract w)"

text \<open>
  \<open>ChangePassword\<close>: the result, the wallet's data afterwards, where \<open>None\<close> is the nil pointer, and the file. The
  data are assigned before the error of \<open>NewWalletData\<close> is looked at and before the file is saved; the password hash
  in memory is left as it is.
\<close>

definition ChangePassword ::
    "keylib \<Rightarrow> entropy \<Rightarrow> bool \<Rightarrow> wallet \<Rightarrow> wallet_file \<Rightarrow> bytes \<Rightarrow> bytes \<Rightarrow> unit go \<times> WalletData option \<times> wallet_file" where
  "ChangePassword L rnd saved w f oldPassword newPassword =
     (case go_bind (DecryptAccount L (w_data w) oldPassword) (\<lambda>acc.
           go_bind (go_of (ToAddress (kl_Encode L) (ac_ProgramHash acc))) (\<lambda>address.
             if address \<noteq> wd_Address (w_data w) then Err else Ret acc)) of
        Err \<Rightarrow> (Err, Some (w_data w), f)
      | Panic \<Rightarrow> (Panic, Some (w_data w), f)
      | Ret acc \<Rightarrow>
          (case NewWalletData L rnd acc newPassword [] [] [] 0 0 0 of
             Err \<Rightarrow> (Err, None, f)
           | Panic \<Rightarrow> (Panic, Some (w_data w), f)
           | Ret wd \<Rightarrow> if \<not> saved then (Err, Some wd, f) else (Ret (), Some wd, Holds wd)))"

section \<open>The contract of the packages\<close>

text \<open>The account of a seed, and the contract of a key.\<close>

definition key_account :: "keylib \<Rightarrow> bytes \<Rightarrow> account" where
  "key_account L s = \<lparr>ac_PrivateKey = s @ kl_public L s, ac_PublicKey = kl_public L s,
     ac_ProgramHash = kl_ripemd160 L (sha256 (CreateSignatureProgramCode (kl_public L s)))\<rparr>"

definition key_contract :: "keylib \<Rightarrow> bytes \<Rightarrow> ProgramContext" where
  "key_contract L pub =
     (let code = CreateSignatureProgramCode pub in
      \<lparr>pc_Code = code, pc_Parameters = [Signature], pc_ProgramHash = kl_ripemd160 L (sha256 code),
       pc_OwnerPubkeyHash = kl_ripemd160 L (sha256 pub)\<rparr>)"

text \<open>What \<open>util.RandomBytes\<close> gives for a new wallet.\<close>

definition drawn :: "entropy \<Rightarrow> bool" where
  "drawn rnd \<longleftrightarrow> length (en_seed rnd) = 32 \<and> length (en_masterKey rnd) = 32 \<and> length (en_iv rnd) = 16"

text \<open>The wallet data are those of the account, and the password opens them.\<close>

definition data_of :: "keylib \<Rightarrow> WalletData \<Rightarrow> bytes \<Rightarrow> account \<Rightarrow> bool" where
  "data_of L wd pw acc \<longleftrightarrow> wd_Version wd = WalletVersion \<and> DecryptAccount L wd pw = Ret acc \<and>
     ToAddress (kl_Encode L) (ac_ProgramHash acc) = Some (wd_Address wd)"

lemma vault_aes_roundtrip:
  assumes "length p = 16 * Suc n" and "length key = 32" and "length iv = 16"
  shows "crypto_AesEncrypt p key iv = Ret (cbc_encrypt (aes256 key) iv p) \<and>
    crypto_AesDecrypt (cbc_encrypt (aes256 key) iv p) key iv = Ret p"
  using assms aes_perm.cbc_roundtrip [OF assms(1,3), of key]
  by (simp add: crypto_AesEncrypt_def crypto_AesDecrypt_def)

locale keylib_std =
  fixes L :: keylib
  assumes scrypt_defined: "kl_scrypt L pw salt ScryptN ScryptR ScryptP \<noteq> None"
    and scrypt_length: "kl_scrypt L pw salt n r p = Some k \<Longrightarrow> length k = 32"
    and ripemd160_length: "length (kl_ripemd160 L m) = UINT160SIZE"
    and base58: "base58_std (kl_Encode L) (kl_Decode L)"
begin

lemma code_hash: "ToCodeHash L c = Some (kl_ripemd160 L (sha256 c))"
  by (simp add: ToCodeHash_def Uint160ParseFromBytes_def ripemd160_length)

lemma new_account: "NewAccount L s = Ret (key_account L s)"
  by (simp add: NewAccount_def CreateProgramHash_def code_hash key_account_def Let_def)

lemma account_with_seed: "length s = 32 \<Longrightarrow> NewAccountWithSeed L s = Ret (key_account L s)"
  by (simp add: NewAccountWithSeed_def CheckSeed_def SeedSize_def CreateProgramHash_def code_hash key_account_def
      GetPublicKeyFromPrivateKey_def GetPrivateKeyFromSeed_def Let_def)

lemma account_seed: "length s = 32 \<Longrightarrow> GetSeedFromPrivateKey (ac_PrivateKey (key_account L s)) = s"
  by (simp add: GetSeedFromPrivateKey_def SeedSize_def key_account_def)

lemma contexts: "CreateSignatureProgramContext L pub = Ret (key_contract L pub)"
  by (simp add: CreateSignatureProgramContext_def key_contract_def code_hash Let_def)

lemma account_address: "\<exists>a. ToAddress (kl_Encode L) (ac_ProgramHash (key_account L s)) = Some a"
proof -
  have "length (ac_ProgramHash (key_account L s)) = UINT160SIZE" by (simp add: key_account_def ripemd160_length)
  with address_text_of [OF base58] show ?thesis by blast
qed

lemma new_data:
  assumes "length s = 32" and "length (en_masterKey rnd) = 32" and "length (en_iv rnd) = 16"
  shows "\<exists>wd. NewWalletData L rnd (key_account L s) pw [] [] [] 0 0 0 = Ret wd \<and> data_of L wd pw (key_account L s)"
proof -
  obtain k where k: "kl_scrypt L pw (en_salt rnd) ScryptN ScryptR ScryptP = Some k" "length k = 32"
    using scrypt_defined [of pw "en_salt rnd"] scrypt_length by blast
  obtain a where a: "ToAddress (kl_Encode L) (ac_ProgramHash (key_account L s)) = Some a"
    using account_address by blast
  have mk: "length (en_masterKey rnd) = 16 * Suc 1" and sd: "length s = 16 * Suc 1" using assms by simp_all
  note rt = vault_aes_roundtrip [OF mk k(2) assms(3)] vault_aes_roundtrip [OF sd assms(2,3)]
  show ?thesis
    using assms k a rt
    by (simp add: NewWalletData_def data_of_def password_key_def PasswordToAesKeyScrypt_def WalletVersion_def
        account_seed account_with_seed DecryptAccount_def DecryptMasterKey_def Let_def)
qed

lemma open_data:
  assumes "data_of L wd pw acc"
  shows "OpenWallet L (Holds wd) pw = Ret \<lparr>w_data = wd, w_PasswordHash = PasswordHash pw, w_account = acc,
      w_contract = key_contract L (ac_PublicKey acc)\<rparr> \<and>
    VerifyPassword L wd pw = Ret ()"
  using assms
  by (auto simp: contexts data_of_def OpenWallet_def VerifyPassword_def LoadWalletStore_def FileExisted_def WalletVersion_def
      MinCompatibleWalletVersion_def MaxCompatibleWalletVersion_def)

end

text \<open>One instance of the packages, with digests of the right sizes.\<close>

definition std_keylib :: keylib where
  "std_keylib = \<lparr>kl_scrypt = (\<lambda>pw salt n r p. Some (hmac_sha256 salt pw)), kl_public = sha256,
     kl_ripemd160 = (\<lambda>m. take 20 (sha256 m)), kl_Encode = std_encode58, kl_Decode = std_decode58\<rparr>"

interpretation std_kl: keylib_std std_keylib
  by (rule keylib_std.intro) (auto simp: std_keylib_def UINT160SIZE_def std_base58_ok)

lemmas std_keylib_ok = std_kl.keylib_std_axioms

definition sample_entropy :: entropy where
  "sample_entropy = \<lparr>en_seed = replicate 32 7, en_masterKey = replicate 32 8, en_iv = replicate 16 9, en_salt = replicate 8 1\<rparr>"

lemma new_wallet_opens_lemma:
  assumes "keylib_std L" and "drawn rnd"
  shows "\<exists>w wd. NewWallet L rnd True Absent pw = Ret (w, Holds wd) \<and> OpenWallet L (Holds wd) pw = Ret w \<and>
    VerifyPassword L wd pw = Ret () \<and> GetSeedFromPrivateKey (ac_PrivateKey (w_account w)) = en_seed rnd \<and>
    w_PasswordHash w = PasswordHash pw"
proof -
  note L = keylib_std.contexts [OF assms(1)] keylib_std.new_account [OF assms(1)]
  have len: "length (en_seed rnd) = 32" "length (en_masterKey rnd) = 32" "length (en_iv rnd) = 16"
    using assms(2) by (simp_all add: drawn_def)
  obtain wd where wd: "NewWalletData L rnd (key_account L (en_seed rnd)) pw [] [] [] 0 0 0 = Ret wd"
      "data_of L wd pw (key_account L (en_seed rnd))"
    using keylib_std.new_data [OF assms(1) len] by blast
  from keylib_std.open_data [OF assms(1) wd(2)] show ?thesis
    by (simp add: NewWallet_def L wd(1) NewWalletStore_def FileExisted_def keylib_std.account_seed [OF assms(1) len(1)])
qed

section \<open>Properties\<close>

text \<open>
  C11: the password of a new wallet opens it. When there is no wallet file and the new one can be
  written, a wallet is made; the file then opens with the same password, to the same account
  and the same password hash, and the password passes the check that the dashboard makes.
\<close>

theorem new_wallet_opens:
  assumes "keylib_std L" and "drawn rnd"
  shows "\<exists>w wd. NewWallet L rnd True Absent pw = Ret (w, Holds wd) \<and> OpenWallet L (Holds wd) pw = Ret w \<and>
    VerifyPassword L wd pw = Ret () \<and> GetSeedFromPrivateKey (ac_PrivateKey (w_account w)) = en_seed rnd \<and>
    w_PasswordHash w = PasswordHash pw"
  by (rule new_wallet_opens_lemma [OF assms])

theorem new_wallet_opens_witness:
  "\<exists>w wd. NewWallet std_keylib sample_entropy True Absent (bytes_of ''pw'') = Ret (w, Holds wd) \<and>
     OpenWallet std_keylib (Holds wd) (bytes_of ''pw'') = Ret w"
  using new_wallet_opens [OF std_keylib_ok, of sample_entropy "bytes_of ''pw''"]
  by (auto simp: drawn_def sample_entropy_def)

text \<open>
  A wallet restored from a seed has the account of the seed and opens with the password; the file must not exist
  and the seed must have 32 bytes, else nothing is made.
\<close>

theorem restored_wallet_opens:
  assumes "keylib_std L" and "drawn rnd"
  shows "if length s = 32
    then \<exists>w wd. RestoreWallet L rnd True Absent pw s = Ret (w, Holds wd) \<and> OpenWallet L (Holds wd) pw = Ret w \<and>
      w_account w = key_account L s
    else RestoreWallet L rnd True Absent pw s = Err"
proof (cases "length s = 32")
  case True
  have len: "length (en_masterKey rnd) = 32" "length (en_iv rnd) = 16"
    using assms(2) by (simp_all add: drawn_def)
  obtain wd where wd: "NewWalletData L rnd (key_account L s) pw [] [] [] 0 0 0 = Ret wd" "data_of L wd pw (key_account L s)"
    using keylib_std.new_data [OF assms(1) True len] by blast
  from keylib_std.open_data [OF assms(1) wd(2)] True show ?thesis
    by (simp add: RestoreWallet_def FileExisted_def keylib_std.account_with_seed [OF assms(1)]
        keylib_std.contexts [OF assms(1)] wd(1))
qed (simp add: RestoreWallet_def FileExisted_def NewAccountWithSeed_def CheckSeed_def SeedSize_def)

text \<open>
  Changing the password keeps the account. If the old password opens the wallet, the new one
  opens the data in memory to the same account, whether or not they could be saved; the file has them too
  only if they were, so that after an error in saving memory and file have different passwords.
\<close>

theorem changed_password_opens:
  assumes "keylib_std L" and "drawn rnd" and "length s = 32" and "data_of L (w_data w) oldPassword (key_account L s)"
  shows "\<exists>wd. ChangePassword L rnd saved w f oldPassword newPassword =
      (if saved then (Ret (), Some wd, Holds wd) else (Err, Some wd, f)) \<and>
    VerifyPassword L wd newPassword = Ret () \<and> DecryptAccount L wd newPassword = Ret (key_account L s)"
proof -
  have len: "length (en_masterKey rnd) = 32" "length (en_iv rnd) = 16"
    using assms(2) by (simp_all add: drawn_def)
  obtain wd where wd: "NewWalletData L rnd (key_account L s) newPassword [] [] [] 0 0 0 = Ret wd"
      and new: "data_of L wd newPassword (key_account L s)"
    using keylib_std.new_data [OF assms(1,3) len] by blast
  from assms(4) wd keylib_std.open_data [OF assms(1) new] new show ?thesis
    by (simp add: ChangePassword_def data_of_def)
qed

text \<open>A wrong old password changes nothing.\<close>

lemma wrong_old_password:
  assumes "VerifyPassword L (w_data w) oldPassword \<noteq> Ret ()"
  shows "\<exists>r. ChangePassword L rnd saved w f oldPassword newPassword = (r, Some (w_data w), f) \<and> r \<noteq> Ret ()"
proof -
  let ?check = "go_bind (DecryptAccount L (w_data w) oldPassword) (\<lambda>acc.
    go_bind (go_of (ToAddress (kl_Encode L) (ac_ProgramHash acc))) (\<lambda>address.
      if address \<noteq> wd_Address (w_data w) then Err else Ret acc))"
  have "?check \<noteq> Ret acc" for acc
    using assms by (auto simp: VerifyPassword_def elim!: go_bind_RetE split: if_splits)
  then have "?check = Err \<or> ?check = Panic" by (cases ?check) blast+
  then show ?thesis by (auto simp: ChangePassword_def)
qed

end
