(* ===== verification/Go_Server.thy ===== *)
theory Go_Server
  imports Go_Wallet Go_Vault
begin

text \<open>
  The dashboard server as one state machine: its whole state, the routes that change the node's
  beneficiary address and its wallet (\<open>dashboard/routes/node/beneficiary.go\<close>,
  \<open>dashboard/routes/wallet/create.go\<close>, \<open>open.go\<close>), the routes that read (\<open>status.go\<close>, \<open>download.go\<close>,
  \<open>neighbor.go\<close>), \<open>SetBeneficiaryAddr\<close> of \<open>config/config.go\<close>, \<open>util/password/password.go\<close>, \<open>GetWallet\<close> of
  \<open>vault/wallet.go\<close> with the wallet it opens, the loop of \<open>cmd/nknd/commands/root.go\<close> that waits for it,
  and the order of filters and routes of \<open>dashboard/service.go\<close> and \<open>routes/routes.go\<close>. What a request
  brings, the clock, random bytes and whether a file can be written are arguments. The bodies that
  arrive are UTF-8.
\<close>

section \<open>State\<close>

text \<open>
  \<open>ds_wallet\<close> is the wallet that \<open>Init\<close> has handed to the dashboard, \<open>ds_found\<close> the variable of the node's
  main function; \<open>ds_pwfile\<close> is the content of the password file.
\<close>

record dashboard =
  ds_node :: node_server
  ds_service :: service
  ds_Status :: int
  ds_wallet :: "wallet option"
  ds_found :: "wallet option"
  ds_file :: wallet_file
  ds_Passwd :: string
  ds_PasswordFile :: string
  ds_pwfile :: "string option"
  ds_env :: string

text \<open>A request, with what its handling finds in the environment.\<close>

record http =
  h_now :: int
  h_fresh :: string
  h_sess :: "string option"
  h_unix :: string
  h_auth :: string
  h_body :: "string option"
  h_writable :: bool
  h_saved :: bool
  h_pwsaved :: bool
  h_entropy :: entropy
  h_typed :: "bytes option"
  h_balance :: "string option"

section \<open>Bodies with text fields\<close>

text \<open>The value of a field of type \<open>string\<close> after the members of an object have been read.\<close>

fun string_field :: "string \<Rightarrow> (string \<times> jsval) list \<Rightarrow> string \<Rightarrow> string option" where
  "string_field name [] old = Some old"
| "string_field name ((k, v) # ps) old =
     (if same_field k name then
        (case v of JStr t \<Rightarrow> string_field name ps t | JNull \<Rightarrow> string_field name ps old | _ \<Rightarrow> None)
      else string_field name ps old)"

definition unmarshal_string :: "string \<Rightarrow> string \<Rightarrow> string option" where
  "unmarshal_string name s =
     (case json_parse s of
        Some (JObj ps) \<Rightarrow> string_field name ps []
      | Some JNull \<Rightarrow> Some []
      | _ \<Rightarrow> None)"

text \<open>\<open>SetBeneficiaryData\<close> and \<open>OpenWalletData\<close> have one field, \<open>CreateWalletData\<close> has two.\<close>

definition unmarshal_beneficiary :: "string \<Rightarrow> string option" where
  "unmarshal_beneficiary s = unmarshal_string ''BeneficiaryAddr'' s"

definition unmarshal_open :: "string \<Rightarrow> string option" where
  "unmarshal_open s = unmarshal_string ''Password'' s"

definition unmarshal_create :: "string \<Rightarrow> (string \<times> string) option" where
  "unmarshal_create s =
     (case (unmarshal_string ''Password'' s, unmarshal_string ''BeneficiaryAddr'' s) of
        (Some p, Some a) \<Rightarrow> Some (p, a)
      | _ \<Rightarrow> None)"

section \<open>config.go: SetBeneficiaryAddr\<close>

definition SetBeneficiaryAddr :: "keylib \<Rightarrow> bool \<Rightarrow> string \<Rightarrow> bool \<Rightarrow> node_server \<Rightarrow> node_server go" where
  "SetBeneficiaryAddr L writable addr allowEmpty s =
     (if \<not> allowEmpty \<and> addr = [] then Err
      else if addr \<noteq> [] \<and> ToScriptHash (kl_Decode L) addr = None then Err
      else case cfg_file s of
        Some (JObj ps) \<Rightarrow>
          (if \<not> writable then Err
           else Ret (s\<lparr>cfg_file := Some (JObj (obj_set ''BeneficiaryAddr'' (JStr addr) ps)),
                       params := (params s)\<lparr>BeneficiaryAddr := addr\<rparr>\<rparr>))
      | Some JNull \<Rightarrow> Panic
      | _ \<Rightarrow> Err)"

section \<open>beneficiary.go\<close>

definition beneficiary_route ::
    "keylib \<Rightarrow> gin_context \<Rightarrow> string \<Rightarrow> string option \<Rightarrow> bool \<Rightarrow> node_server \<Rightarrow> nat \<times> node_server" where
  "beneficiary_route L ctx auth body writable s =
     (case WalletAuth ctx auth of
        Some st \<Rightarrow> (st, s)
      | None \<Rightarrow>
          (case DecryptData ctx True body of
             Inl st \<Rightarrow> (st, s)
           | Inr bodyData \<Rightarrow>
               (case unmarshal_beneficiary bodyData of
                  None \<Rightarrow> (400, s)
                | Some addr \<Rightarrow>
                    (case SetBeneficiaryAddr L writable addr (AllowEmptyBeneficiaryAddress (params s)) s of
                       Err \<Rightarrow> (400, s)
                     | Panic \<Rightarrow> (500, s)
                     | Ret s' \<Rightarrow> (200, s')))))"

text \<open>What it seals for its answer.\<close>

definition beneficiary_reply :: "string \<Rightarrow> node_server \<Rightarrow> jsval" where
  "beneficiary_reply addr s = JObj [
     (''beneficiaryAddr'', JStr addr),
     (''currentBeneficiaryAddr'', JStr (BeneficiaryAddr (params s)))]"

section \<open>password.go\<close>

definition trim_bom :: "string \<Rightarrow> string" where
  "trim_bom s = (let bom = string_of [0xef, 0xbb, 0xbf] in if take 3 s = bom then drop 3 s else s)"

definition trim_crlf :: "string \<Rightarrow> string" where
  "trim_crlf s =
     (let crlf = (\<lambda>c. (of_char c :: nat) = 13 \<or> (of_char c :: nat) = 10)
      in rev (dropWhile crlf (rev (dropWhile crlf s))))"

definition ReadPasswordFile :: "dashboard \<Rightarrow> string option" where
  "ReadPasswordFile s = map_option trim_bom (ds_pwfile s)"

text \<open>The password, \<open>None\<close> for an error. \<open>typed\<close> is what \<open>GetPassword\<close> reads from the terminal.\<close>

definition GetAccountPassword :: "bytes option \<Rightarrow> dashboard \<Rightarrow> bytes option \<times> dashboard" where
  "GetAccountPassword typed s =
     (let s = (if ds_Passwd s = [] \<and> ds_PasswordFile s \<noteq> []
               then s\<lparr>ds_Passwd := trim_crlf (case ReadPasswordFile s of None \<Rightarrow> [] | Some t \<Rightarrow> t)\<rparr> else s);
          s = (if ds_Passwd s = [] then s\<lparr>ds_Passwd := ds_env s\<rparr> else s)
      in if \<not> WebGuiCreateWallet (params (ds_node s)) \<and> ds_Passwd s = [] then (typed, s)
         else if ds_Passwd s = [] then (None, s)
         else (Some (bytes_of (ds_Passwd s)), s))"

text \<open>An error of \<open>SavePassword\<close> is only logged by its callers.\<close>

definition SavePassword :: "bool \<Rightarrow> string \<Rightarrow> dashboard \<Rightarrow> dashboard" where
  "SavePassword written pwd s =
     (if pwd \<noteq> [] \<and> ds_PasswordFile s \<noteq> [] \<and> WebGuiCreateWallet (params (ds_node s)) then
        (if ds_pwfile s \<noteq> None then s
         else if written then s\<lparr>ds_pwfile := Some pwd\<rparr> else s)
      else s)"

section \<open>wallet.go: GetWallet\<close>

definition vault_GetWallet :: "keylib \<Rightarrow> bytes option \<Rightarrow> dashboard \<Rightarrow> wallet go \<times> dashboard" where
  "vault_GetWallet L typed s =
     (if \<not> FileExisted (ds_file s) then (Err, s\<lparr>ds_Status := ds_Status s OR GO_STATUS_NO_WALLET_FILE\<rparr>)
      else let s = s\<lparr>ds_Status := and_not (ds_Status s) GO_STATUS_NO_WALLET_FILE\<rparr>;
               (passwd, s) = GetAccountPassword typed s
      in case passwd of
        None \<Rightarrow> (Err, s\<lparr>ds_Status := ds_Status s OR GO_STATUS_NO_PASSWORD\<rparr>)
      | Some pw \<Rightarrow>
          (let s = s\<lparr>ds_Status := and_not (ds_Status s) GO_STATUS_NO_PASSWORD\<rparr>; p = params (ds_node s) in
           if ds_Status s AND GO_STATUS_NO_WALLET_FILE \<noteq> 0 \<and> \<not> AllowEmptyBeneficiaryAddress p \<and> BeneficiaryAddr p = []
           then (Err, s\<lparr>ds_Status := ds_Status s OR GO_STATUS_NO_BENEFICIARY\<rparr>)
           else let s = s\<lparr>ds_Status := and_not (ds_Status s) GO_STATUS_NO_BENEFICIARY\<rparr> in
             case OpenWallet L (ds_file s) pw of
               Err \<Rightarrow> (Err, s\<lparr>ds_Status := ds_Status s OR GO_STATUS_NO_PASSWORD\<rparr>)
             | Panic \<Rightarrow> (Panic, s)
             | Ret w \<Rightarrow> (Ret w, s\<lparr>ds_Status := and_not (ds_Status s) GO_STATUS_NO_PASSWORD OR GO_STATUS_RUNNING\<rparr>)))"

section \<open>create.go, open.go\<close>

definition create_route :: "keylib \<Rightarrow> http \<Rightarrow> gin_context \<Rightarrow> dashboard \<Rightarrow> nat \<times> dashboard" where
  "create_route L h ctx s =
     (case DecryptData ctx False (h_body h) of
        Inl st \<Rightarrow> (st, s)
      | Inr bodyData \<Rightarrow>
          (case unmarshal_create bodyData of
             None \<Rightarrow> (400, s)
           | Some (pw, addr) \<Rightarrow>
               if ds_wallet s \<noteq> None then (500, s)
               else let p = params (ds_node s);
                        set = (if WebGuiCreateWallet p
                               then SetBeneficiaryAddr L (h_writable h) addr (AllowEmptyBeneficiaryAddress p) (ds_node s)
                               else Ret (ds_node s))
                    in case set of
                      Err \<Rightarrow> (400, s)
                    | Panic \<Rightarrow> (500, s)
                    | Ret nd \<Rightarrow>
                        (let s = s\<lparr>ds_node := nd\<rparr> in
                         case NewWallet L (h_entropy h) (h_saved h) (ds_file s) (bytes_of pw) of
                           Err \<Rightarrow> (500, s)
                         | Panic \<Rightarrow> (500, s)
                         | Ret (w, f) \<Rightarrow>
                             (let s = SavePassword (h_pwsaved h) pw (s\<lparr>ds_file := f, ds_Passwd := pw\<rparr>)
                              in (200, s\<lparr>ds_Status := ds_Status s OR GO_STATUS_RUNNING\<rparr>)))))"

definition open_route :: "keylib \<Rightarrow> http \<Rightarrow> gin_context \<Rightarrow> dashboard \<Rightarrow> nat \<times> dashboard" where
  "open_route L h ctx s =
     (case DecryptData ctx False (h_body h) of
        Inl st \<Rightarrow> (st, s)
      | Inr bodyData \<Rightarrow>
          (case unmarshal_open bodyData of
             None \<Rightarrow> (400, s)
           | Some pw \<Rightarrow>
               (case ds_wallet s of
                  Some w \<Rightarrow>
                    (case VerifyPassword L (w_data w) (bytes_of pw) of
                       Err \<Rightarrow> (403, s)
                     | Panic \<Rightarrow> (500, s)
                     | Ret _ \<Rightarrow> (200, s))
                | None \<Rightarrow>
                    (case vault_GetWallet L (h_typed h) (s\<lparr>ds_Passwd := pw\<rparr>) of
                       (Err, s) \<Rightarrow> (403, s)
                     | (Panic, s) \<Rightarrow> (500, s)
                     | (Ret _, s) \<Rightarrow> (200, SavePassword (h_pwsaved h) (ds_Passwd s) s)))))"

section \<open>status.go, download.go, neighbor.go\<close>

text \<open>
  The data a route seals, or the status it aborts with. \<open>balance\<close> is the ledger's text for the
  account's balance, \<open>None\<close> before the database is open.
\<close>

definition wallet_status_data :: "keylib \<Rightarrow> string option \<Rightarrow> dashboard \<Rightarrow> nat + jsval" where
  "wallet_status_data L balance s =
     (case ds_wallet s of
        None \<Rightarrow> Inl 500
      | Some w \<Rightarrow>
          (case ToAddress (kl_Encode L) (ac_ProgramHash (w_account w)) of
             None \<Rightarrow> Inl 500
           | Some address \<Rightarrow>
               (case balance of
                  None \<Rightarrow> Inl 500
                | Some b \<Rightarrow> Inr (JObj [
                    (''address'', JStr address),
                    (''balance'', JStr b),
                    (''publicKey'', JStr (hex_encode (ac_PublicKey (w_account w))))]))))"

definition wallet_details_data :: "gin_context \<Rightarrow> string \<Rightarrow> dashboard \<Rightarrow> nat + jsval" where
  "wallet_details_data ctx auth s =
     (case WalletAuth ctx auth of
        Some st \<Rightarrow> Inl st
      | None \<Rightarrow>
          (case ds_wallet s of
             None \<Rightarrow> Inl 500
           | Some w \<Rightarrow> Inr (JObj [(''secretSeed'', JStr (hex_encode (GetSeedFromPrivateKey (ac_PrivateKey (w_account w)))))])))"

definition scrypt_json :: "ScryptData \<Rightarrow> jsval" where
  "scrypt_json sc = JObj [(''Salt'', JStr (sc_Salt sc)), (''N'', JInt (sc_N sc)), (''R'', JInt (sc_R sc)), (''P'', JInt (sc_P sc))]"

definition wallet_json :: "WalletData \<Rightarrow> jsval" where
  "wallet_json wd = JObj [
     (''Version'', JInt (wd_Version wd)),
     (''IV'', JStr (wd_IV wd)),
     (''MasterKey'', JStr (wd_MasterKey wd)),
     (''SeedEncrypted'', JStr (wd_SeedEncrypted wd)),
     (''Address'', JStr (wd_Address wd)),
     (''Scrypt'', case wd_Scrypt wd of None \<Rightarrow> JNull | Some sc \<Rightarrow> scrypt_json sc)]"

text \<open>The file that is sent, without a seal.\<close>

definition download_data :: "gin_context \<Rightarrow> string \<Rightarrow> dashboard \<Rightarrow> nat + jsval" where
  "download_data ctx auth s =
     (case WalletAuth ctx auth of
        Some st \<Rightarrow> Inl st
      | None \<Rightarrow> (case ds_wallet s of None \<Rightarrow> Inl 500 | Some w \<Rightarrow> Inr (wallet_json (w_data w))))"

text \<open>Without a local node the route does not answer with data at all.\<close>

definition neighbors_data :: "jsval option \<Rightarrow> jsval option" where
  "neighbors_data neighborInfo = neighborInfo"

section \<open>service.go, routes.go: filters and routes\<close>

datatype endpoint =
    Verification | NodeStatus | NodeBeneficiary | NodeNeighbors | NodeConfig
  | WalletStatus | WalletDetails | WalletCreate | WalletOpen | WalletDownload

definition request_context :: "http \<Rightarrow> string option \<Rightarrow> dashboard \<Rightarrow> gin_context" where
  "request_context h tok s =
     \<lparr>ctx_now = h_now h, ctx_wallet = map_option w_PasswordHash (ds_wallet s), ctx_token = tok\<rparr>"

definition code_of :: "nat + 'a \<Rightarrow> nat" where
  "code_of r = (case r of Inl st \<Rightarrow> st | Inr _ \<Rightarrow> 200)"

definition on_node :: "dashboard \<Rightarrow> nat \<times> node_server \<Rightarrow> nat \<times> dashboard" where
  "on_node s r = (fst r, s\<lparr>ds_node := snd r\<rparr>)"

definition handle :: "keylib \<Rightarrow> endpoint \<Rightarrow> http \<Rightarrow> gin_context \<Rightarrow> dashboard \<Rightarrow> nat \<times> dashboard" where
  "handle L ep h ctx s =
     (case ep of
        Verification \<Rightarrow> (verification_route ctx (h_auth h), s)
      | NodeStatus \<Rightarrow> (200, s)
      | NodeBeneficiary \<Rightarrow> on_node s (beneficiary_route L ctx (h_auth h) (h_body h) (h_writable h) (ds_node s))
      | NodeNeighbors \<Rightarrow> (200, s)
      | NodeConfig \<Rightarrow> on_node s (node_config_route ctx (h_auth h) (h_body h) (h_writable h) (ds_node s))
      | WalletStatus \<Rightarrow> (code_of (wallet_status_data L (h_balance h) s), s)
      | WalletDetails \<Rightarrow> (code_of (wallet_details_data ctx (h_auth h) s), s)
      | WalletCreate \<Rightarrow> create_route L h ctx s
      | WalletOpen \<Rightarrow> open_route L h ctx s
      | WalletDownload \<Rightarrow> (code_of (download_data ctx (h_auth h) s), s))"

text \<open>
  The password check is registered before the token's filter, so it sees the session as it is; all the
  other routes come after that filter and after the filter for the clock.
\<close>

definition serve :: "keylib \<Rightarrow> endpoint \<Rightarrow> http \<Rightarrow> dashboard \<Rightarrow> nat \<times> dashboard" where
  "serve L ep h s =
     (if ep = Verification then handle L ep h (request_context h (h_sess h) s) s
      else let (svc, sess) = token_middleware (h_now h) (h_fresh h) (ds_service s) (h_sess h);
               s = s\<lparr>ds_service := svc\<rparr>
           in case UnixRangeAuth (h_now h) (h_unix h) of
                st # _ \<Rightarrow> (st, s)
              | [] \<Rightarrow> handle L ep h (request_context h sess s) s)"

section \<open>root.go: waiting for a wallet\<close>

text \<open>One turn of the loop; a panic ends the node, here with the state it has then.\<close>

definition node_poll :: "keylib \<Rightarrow> bytes option \<Rightarrow> dashboard \<Rightarrow> dashboard" where
  "node_poll L typed s =
     (if \<not> WebGuiCreateWallet (params (ds_node s)) \<or> ds_found s \<noteq> None then s
      else case vault_GetWallet L typed s of
        (Ret w, s) \<Rightarrow> s\<lparr>ds_found := Some w\<rparr>
      | (_, s) \<Rightarrow> s)"

definition init_wallet :: "dashboard \<Rightarrow> dashboard" where
  "init_wallet s = (case ds_found s of None \<Rightarrow> s | Some w \<Rightarrow> s\<lparr>ds_wallet := Some w\<rparr>)"

datatype dash_event = Request endpoint http | Poll "bytes option" | Init

fun dash_step :: "keylib \<Rightarrow> dash_event \<Rightarrow> dashboard \<Rightarrow> dashboard" where
  "dash_step L (Request ep h) s = snd (serve L ep h s)"
| "dash_step L (Poll typed) s = node_poll L typed s"
| "dash_step L Init s = init_wallet s"

definition dash_run :: "keylib \<Rightarrow> dash_event list \<Rightarrow> dashboard \<Rightarrow> dashboard" where
  "dash_run L evs s = fold (dash_step L) evs s"

section \<open>What each call leaves alone\<close>

lemma GetAccountPassword_frame:
  assumes "GetAccountPassword typed s = (pw, s')"
  shows "\<exists>p. s' = s\<lparr>ds_Passwd := p\<rparr>"
  using assms by (auto simp: GetAccountPassword_def Let_def split: if_splits option.splits intro!: exI [of _ "ds_Passwd s'"])

lemma SavePassword_frame: "\<exists>f. SavePassword b pwd s = s\<lparr>ds_pwfile := f\<rparr>"
  by (auto simp: SavePassword_def intro: exI [of _ "ds_pwfile s"] exI [of _ "Some pwd"])

lemma vault_GetWallet_frame:
  assumes "vault_GetWallet L typed s = (r, s')"
  shows "\<exists>p st. s' = s\<lparr>ds_Passwd := p, ds_Status := st\<rparr>"
proof (cases "FileExisted (ds_file s)")
  case False
  with assms show ?thesis by (auto simp: vault_GetWallet_def intro!: exI [of _ "ds_Passwd s"])
next
  case True
  let ?s = "s\<lparr>ds_Status := and_not (ds_Status s) GO_STATUS_NO_WALLET_FILE\<rparr>"
  obtain pw u where u: "GetAccountPassword typed ?s = (pw, u)" by fastforce
  then obtain p where "u = ?s\<lparr>ds_Passwd := p\<rparr>" using GetAccountPassword_frame by blast
  with True u assms show ?thesis
    by (auto simp: vault_GetWallet_def Let_def split: option.splits if_splits go.splits intro!: exI [of _ p])
qed

lemma cleared_flag [simp]:
  "and_not (and_not st GO_STATUS_NO_WALLET_FILE) GO_STATUS_NO_PASSWORD AND GO_STATUS_NO_WALLET_FILE = 0"
  using no_file_flag [of "and_not (and_not st GO_STATUS_NO_WALLET_FILE) GO_STATUS_NO_PASSWORD"]
  by (auto simp: and_not_def bit_and_iff bit_not_iff)

text \<open>The status that the full \<open>GetWallet\<close> leaves is the one of its outline in \<open>Go_Wallet\<close>.\<close>

lemma vault_GetWallet_abs:
  assumes "vault_GetWallet L typed s = (r, s')" and "r \<noteq> Panic"
  shows "\<exists>havePasswd opens. GetWallet (FileExisted (ds_file s)) havePasswd opens (params (ds_node s)) (ds_Status s) =
    (ds_Status s', \<exists>w. r = Ret w)"
proof (cases "FileExisted (ds_file s)")
  case False
  with assms show ?thesis by (auto simp: vault_GetWallet_def GetWallet_def)
next
  case True
  let ?s = "s\<lparr>ds_Status := and_not (ds_Status s) GO_STATUS_NO_WALLET_FILE\<rparr>"
  obtain pw u where u: "GetAccountPassword typed ?s = (pw, u)" by fastforce
  then obtain p where v: "u = ?s\<lparr>ds_Passwd := p\<rparr>" using GetAccountPassword_frame by blast
  show ?thesis
  proof (cases pw)
    case None
    with True u v assms show ?thesis
      by (auto simp: vault_GetWallet_def GetWallet_def Let_def intro!: exI [of _ False])
  next
    case (Some x)
    define opens where "opens \<longleftrightarrow> (\<exists>w. OpenWallet L (ds_file s) x = Ret w)"
    have "GetWallet True True opens (params (ds_node s)) (ds_Status s) = (ds_Status s', \<exists>w. r = Ret w)"
    proof (cases "OpenWallet L (ds_file s) x")
      case (Ret w)
      show ?thesis
        using Some True u v assms(1) by (auto simp: Ret opens_def vault_GetWallet_def GetWallet_def Let_def)
    next
      case Err
      show ?thesis
        using Some True u v assms(1) by (auto simp: Err opens_def vault_GetWallet_def GetWallet_def Let_def)
    next
      case Panic
      with Some True u v assms show ?thesis by (simp add: vault_GetWallet_def)
    qed
    with True show ?thesis by auto
  qed
qed

lemma vault_GetWallet_opened:
  assumes "vault_GetWallet L typed s = (Ret w, s')"
  shows "\<not> bit (ds_Status s') 1 \<and> \<not> bit (ds_Status s') 2 \<and> bit (ds_Status s') 4"
proof -
  obtain a b where "GetWallet (FileExisted (ds_file s)) a b (params (ds_node s)) (ds_Status s) = (ds_Status s', True)"
    using vault_GetWallet_abs [OF assms] by auto
  from GetWallet_flags [OF this] show ?thesis by blast
qed

lemma go_bind_Err: "go_bind x (\<lambda>a. Err) \<noteq> Ret r"
  by (cases x) simp_all

lemma NewWallet_existing: "FileExisted f \<Longrightarrow> NewWallet L rnd b f pw \<noteq> Ret r"
  by (cases "NewAccount L (en_seed rnd)") (simp_all add: NewWallet_def NewWalletStore_def go_bind_Err)

section \<open>The configuration, its file and the addresses\<close>

text \<open>The file agrees with the parameters, and the beneficiary address is empty or an address.\<close>

definition node_ok :: "keylib \<Rightarrow> node_server \<Rightarrow> bool" where
  "node_ok L nd \<longleftrightarrow> file_agrees nd \<and>
     (\<exists>ps. cfg_file nd = Some (JObj ps) \<and> map_of ps ''BeneficiaryAddr'' = Some (JStr (BeneficiaryAddr (params nd)))) \<and>
     (BeneficiaryAddr (params nd) \<noteq> [] \<longrightarrow> ToScriptHash (kl_Decode L) (BeneficiaryAddr (params nd)) \<noteq> None)"

lemma SetBeneficiaryAddr_ok:
  assumes "SetBeneficiaryAddr L b addr e nd = Ret nd'" and "node_ok L nd"
  shows "node_ok L nd' \<and> BeneficiaryAddr (params nd') = addr"
  using assms
  by (auto simp: SetBeneficiaryAddr_def node_ok_def file_agrees_def map_of_obj_set split: if_splits option.splits jsval.splits)

lemma put_config_ok: "node_ok L nd \<Longrightarrow> node_ok L (snd (put_config b body nd))"
  by (auto simp: put_config_def node_ok_def file_agrees_def config_file_def map_of_obj_set
      split: option.splits jsval.splits if_splits)

lemma node_config_route_ok: "node_ok L nd \<Longrightarrow> node_ok L (snd (node_config_route ctx auth body b nd))"
  using put_config_ok [of L nd b] by (auto simp: node_config_route_def split: option.splits sum.splits)

lemma beneficiary_route_ok: "node_ok L nd \<Longrightarrow> node_ok L (snd (beneficiary_route L ctx auth body b nd))"
  using SetBeneficiaryAddr_ok [of L b _ "AllowEmptyBeneficiaryAddress (params nd)" nd]
  by (auto simp: beneficiary_route_def split: option.splits sum.splits go.splits)

text \<open>The two routes do nothing for a caller without the password.\<close>

lemma unauthorised_routes:
  assumes "WalletAuth ctx auth \<noteq> None"
  shows "snd (node_config_route ctx auth body b nd) = nd" and "snd (beneficiary_route L ctx auth body b nd) = nd"
  using assms by (auto simp: node_config_route_def beneficiary_route_def split: option.splits)

section \<open>One request\<close>

text \<open>How the wallet, its file, the node and the password file come out of the two wallet routes.\<close>

lemma create_route_frame:
  "ds_wallet (snd (create_route L h ctx s)) = ds_wallet s"
  "ds_found (snd (create_route L h ctx s)) = ds_found s"
  "ds_wallet s \<noteq> None \<Longrightarrow> snd (create_route L h ctx s) = s"
  "FileExisted (ds_file s) \<Longrightarrow> ds_file (snd (create_route L h ctx s)) = ds_file s"
  "node_ok L (ds_node s) \<Longrightarrow> node_ok L (ds_node (snd (create_route L h ctx s)))"
  using SetBeneficiaryAddr_ok [of L "h_writable h" _ "AllowEmptyBeneficiaryAddress (params (ds_node s))" "ds_node s"]
    NewWallet_existing [of "ds_file s"]
  by (auto simp: create_route_def SavePassword_def Let_def split: sum.splits option.splits go.splits if_splits)

lemma open_route_frame:
  "\<exists>p st f. snd (open_route L h ctx s) = s\<lparr>ds_Passwd := p, ds_Status := st, ds_pwfile := f\<rparr>"
proof -
  have same: "\<exists>p st f. s = s\<lparr>ds_Passwd := p, ds_Status := st, ds_pwfile := f\<rparr>"
    by (rule exI [of _ "ds_Passwd s"], rule exI [of _ "ds_Status s"], rule exI [of _ "ds_pwfile s"]) simp
  have got: "\<exists>p st f. u = s\<lparr>ds_Passwd := p, ds_Status := st, ds_pwfile := f\<rparr>"
    if run: "vault_GetWallet L (h_typed h) (s\<lparr>ds_Passwd := pw\<rparr>) = (r, u)" for pw r u
  proof -
    obtain p st where "u = s\<lparr>ds_Passwd := p, ds_Status := st\<rparr>"
      using vault_GetWallet_frame [OF run] by auto
    then show ?thesis by (intro exI [of _ p] exI [of _ st] exI [of _ "ds_pwfile s"]) simp
  qed
  have saved: "\<exists>p st f. SavePassword b q u = s\<lparr>ds_Passwd := p, ds_Status := st, ds_pwfile := f\<rparr>"
    if run: "vault_GetWallet L (h_typed h) (s\<lparr>ds_Passwd := pw\<rparr>) = (r, u)" for pw r u b q
  proof -
    obtain p st f where "u = s\<lparr>ds_Passwd := p, ds_Status := st, ds_pwfile := f\<rparr>" using got [OF run] by blast
    moreover obtain f' where "SavePassword b q u = u\<lparr>ds_pwfile := f'\<rparr>" using SavePassword_frame by blast
    ultimately show ?thesis by (intro exI [of _ p] exI [of _ st] exI [of _ f']) simp
  qed
  show ?thesis
    using same got saved
    by (auto simp: open_route_def split: sum.splits option.splits go.splits prod.splits)
qed

lemma open_route_same:
  "ds_wallet (snd (open_route L h ctx s)) = ds_wallet s" "ds_found (snd (open_route L h ctx s)) = ds_found s"
  "ds_file (snd (open_route L h ctx s)) = ds_file s" "ds_node (snd (open_route L h ctx s)) = ds_node s"
  using open_route_frame [of L h ctx s] by auto

lemmas route_frames = create_route_frame open_route_same

lemma handle_same:
  "ds_wallet (snd (handle L ep h ctx s)) = ds_wallet s"
  "FileExisted (ds_file s) \<Longrightarrow> ds_file (snd (handle L ep h ctx s)) = ds_file s"
  by (cases ep; simp add: handle_def on_node_def route_frames)+

lemma handle_node_ok: "node_ok L (ds_node s) \<Longrightarrow> node_ok L (ds_node (snd (handle L ep h ctx s)))"
  by (cases ep) (simp_all add: handle_def on_node_def route_frames node_config_route_ok beneficiary_route_ok)

lemma handle_locked:
  assumes "ds_wallet s \<noteq> None" and "ep \<in> {NodeBeneficiary, NodeConfig} \<longrightarrow> WalletAuth ctx (h_auth h) \<noteq> None"
  shows "ds_node (snd (handle L ep h ctx s)) = ds_node s \<and> ds_file (snd (handle L ep h ctx s)) = ds_file s"
  using assms by (cases ep) (simp_all add: handle_def on_node_def route_frames unauthorised_routes)

text \<open>The session's token as the handler of a request sees it.\<close>

definition request_token :: "endpoint \<Rightarrow> http \<Rightarrow> dashboard \<Rightarrow> string option" where
  "request_token ep h s =
     (if ep = Verification then h_sess h
      else snd (token_middleware (h_now h) (h_fresh h) (ds_service s) (h_sess h)))"

text \<open>A request is refused by a filter, or it is the handler's.\<close>

lemma serve_cases:
  obtains svc where "snd (serve L ep h s) = s\<lparr>ds_service := svc\<rparr>"
  | svc where "serve L ep h s = handle L ep h (request_context h (request_token ep h s) s) (s\<lparr>ds_service := svc\<rparr>)"
proof (cases "ep = Verification")
  case True
  then have "serve L ep h s = handle L ep h (request_context h (request_token ep h s) s) (s\<lparr>ds_service := ds_service s\<rparr>)"
    by (simp add: serve_def request_token_def)
  then show thesis by (rule that(2))
next
  case False
  obtain svc sess where tm: "token_middleware (h_now h) (h_fresh h) (ds_service s) (h_sess h) = (svc, sess)" by fastforce
  show thesis
  proof (cases "UnixRangeAuth (h_now h) (h_unix h)")
    case Nil
    with False tm have "serve L ep h s =
        handle L ep h (request_context h (request_token ep h s) s) (s\<lparr>ds_service := svc\<rparr>)"
      by (simp add: serve_def request_token_def request_context_def)
    then show thesis by (rule that(2))
  next
    case (Cons st rest)
    with False tm have "snd (serve L ep h s) = s\<lparr>ds_service := svc\<rparr>" by (simp add: serve_def)
    then show thesis by (rule that(1))
  qed
qed

section \<open>Runs\<close>

lemma node_poll_same:
  "ds_wallet (node_poll L typed s) = ds_wallet s" "ds_file (node_poll L typed s) = ds_file s"
  "ds_node (node_poll L typed s) = ds_node s"
proof -
  obtain r u where u: "vault_GetWallet L typed s = (r, u)" by fastforce
  from vault_GetWallet_frame [OF u] obtain p st where "u = s\<lparr>ds_Passwd := p, ds_Status := st\<rparr>" by blast
  with u show "ds_wallet (node_poll L typed s) = ds_wallet s" "ds_file (node_poll L typed s) = ds_file s"
    "ds_node (node_poll L typed s) = ds_node s"
    by (simp_all add: node_poll_def split: go.splits)
qed

lemma init_wallet_same:
  "ds_file (init_wallet s) = ds_file s" "ds_node (init_wallet s) = ds_node s"
  by (simp_all add: init_wallet_def split: option.splits)

interpretation config_kept: kept_by_steps "dash_step L" "\<lambda>_. True" "\<lambda>s. node_ok L (ds_node s)" for L
proof
  show "node_ok L (ds_node (dash_step L e s))" if "node_ok L (ds_node s)" for s e
  proof (cases e)
    case (Request ep h)
    with that handle_node_ok show ?thesis by (cases rule: serve_cases [of L ep h s]) auto
  qed (use that in \<open>simp_all add: node_poll_same init_wallet_same\<close>)
qed

interpretation wallet_file_kept: kept_by_steps "dash_step L" "\<lambda>_. True" "\<lambda>s. ds_file s = f \<and> f \<noteq> Absent" for L f
proof
  show "ds_file (dash_step L e s) = f \<and> f \<noteq> Absent" if "ds_file s = f \<and> f \<noteq> Absent" for s e
  proof (cases e)
    case (Request ep h)
    with that handle_same(2) [of _ L ep h] show ?thesis
      by (cases rule: serve_cases [of L ep h s]) (auto simp: FileExisted_def)
  qed (use that in \<open>simp_all add: node_poll_same init_wallet_same\<close>)
qed

text \<open>A request to change the configuration whose caller has the password of the node's wallet.\<close>

definition authorised :: "dash_event \<Rightarrow> dashboard \<Rightarrow> bool" where
  "authorised e s \<longleftrightarrow>
     (case e of
        Request ep h \<Rightarrow> ep \<in> {NodeBeneficiary, NodeConfig} \<and>
          WalletAuth (request_context h (request_token ep h s) s) (h_auth h) = None
      | _ \<Rightarrow> False)"

fun none_authorised :: "keylib \<Rightarrow> dash_event list \<Rightarrow> dashboard \<Rightarrow> bool" where
  "none_authorised L [] s \<longleftrightarrow> True"
| "none_authorised L (e # evs) s \<longleftrightarrow> \<not> authorised e s \<and> none_authorised L evs (dash_step L e s)"

lemma locked_step:
  assumes "ds_wallet s \<noteq> None" and "\<not> authorised e s"
  shows "ds_node (dash_step L e s) = ds_node s \<and> ds_file (dash_step L e s) = ds_file s \<and> ds_wallet (dash_step L e s) \<noteq> None"
proof (cases e)
  case (Request ep h)
  show ?thesis
  proof (cases rule: serve_cases [of L ep h s])
    case (1 svc)
    with Request assms show ?thesis by simp
  next
    case (2 svc)
    have "ep \<in> {NodeBeneficiary, NodeConfig} \<longrightarrow>
        WalletAuth (request_context h (request_token ep h s) s) (h_auth h) \<noteq> None"
      using assms(2) Request by (auto simp: authorised_def)
    with 2 Request assms(1) handle_locked [of "s\<lparr>ds_service := svc\<rparr>" ep _ h L] handle_same(1)
    show ?thesis by simp
  qed
next
  case Init
  with assms show ?thesis by (simp add: init_wallet_def split: option.splits)
qed (use assms in \<open>simp add: node_poll_same\<close>)

section \<open>A wallet that is made or opened\<close>

lemma body_initials: "char_of (112 :: nat) = CHR ''p''" "char_of (98 :: nat) = CHR ''b''"
  by code_simp+

lemma same_field_client:
  "same_field ''password'' ''Password''" "same_field ''beneficiaryAddr'' ''BeneficiaryAddr''"
  "\<not> same_field ''password'' ''BeneficiaryAddr''" "\<not> same_field ''beneficiaryAddr'' ''Password''"
  by (simp_all add: same_field_def lower_def body_initials)

lemma unmarshal_client:
  assumes "json_wf (JStr pw)" and "json_wf (JStr addr)"
  shows "unmarshal_create (json_str (JObj [(''password'', JStr pw), (''beneficiaryAddr'', JStr addr)])) = Some (pw, addr)"
    and "unmarshal_open (json_str (JObj [(''password'', JStr pw)])) = Some pw"
    and "unmarshal_beneficiary (json_str (JObj [(''beneficiaryAddr'', JStr addr)])) = Some addr"
proof -
  have "json_wf (JObj [(''password'', JStr pw), (''beneficiaryAddr'', JStr addr)])"
    "json_wf (JObj [(''password'', JStr pw)])" "json_wf (JObj [(''beneficiaryAddr'', JStr addr)])"
    using assms by simp_all
  from this [THEN json_parse_str] show
    "unmarshal_create (json_str (JObj [(''password'', JStr pw), (''beneficiaryAddr'', JStr addr)])) = Some (pw, addr)"
    "unmarshal_open (json_str (JObj [(''password'', JStr pw)])) = Some pw"
    "unmarshal_beneficiary (json_str (JObj [(''beneficiaryAddr'', JStr addr)])) = Some addr"
    by (simp_all add: unmarshal_create_def unmarshal_open_def unmarshal_beneficiary_def unmarshal_string_def
        same_field_client del: json_str.simps)
qed

text \<open>The node waits for a wallet file that the password at hand opens.\<close>

definition awaits_wallet :: "keylib \<Rightarrow> string \<Rightarrow> dashboard \<Rightarrow> bool" where
  "awaits_wallet L pw s \<longleftrightarrow> ds_Passwd s = pw \<and> pw \<noteq> [] \<and> WebGuiCreateWallet (params (ds_node s)) \<and> ds_found s = None \<and>
     (\<exists>w. OpenWallet L (ds_file s) (bytes_of pw) = Ret w)"

lemma OpenWallet_exists: "OpenWallet L f pw = Ret w \<Longrightarrow> FileExisted f"
  by (cases f) (simp_all add: OpenWallet_def LoadWalletStore_def FileExisted_def)

lemma OpenWallet_hash: "OpenWallet L f pw = Ret w \<Longrightarrow> w_PasswordHash w = PasswordHash pw"
  by (auto simp: OpenWallet_def go_bind_Ret split: if_splits)

lemma vault_GetWallet_opens:
  assumes "ds_Passwd s = pw" and "pw \<noteq> []" and "OpenWallet L (ds_file s) (bytes_of pw) = Ret w"
  shows "\<exists>st. vault_GetWallet L typed s = (Ret w, s\<lparr>ds_Status := st\<rparr>) \<and> \<not> bit st 1 \<and> \<not> bit st 2 \<and> bit st 4"
proof -
  have "vault_GetWallet L typed s = (Ret w, s\<lparr>ds_Status := and_not (and_not (and_not
      (and_not (ds_Status s) GO_STATUS_NO_WALLET_FILE) GO_STATUS_NO_PASSWORD) GO_STATUS_NO_BENEFICIARY)
      GO_STATUS_NO_PASSWORD OR GO_STATUS_RUNNING\<rparr>)"
    using assms OpenWallet_exists [OF assms(3)] by (simp add: vault_GetWallet_def GetAccountPassword_def)
  with vault_GetWallet_opened [OF this] show ?thesis by auto
qed

lemma awaited_wallet:
  assumes "awaits_wallet L pw s"
  shows "\<exists>w. OpenWallet L (ds_file s) (bytes_of pw) = Ret w \<and> ds_wallet (init_wallet (node_poll L typed s)) = Some w \<and>
    w_PasswordHash w = PasswordHash (bytes_of pw) \<and> ds_node (init_wallet (node_poll L typed s)) = ds_node s \<and>
    (let st = ds_Status (init_wallet (node_poll L typed s)) in \<not> bit st 1 \<and> \<not> bit st 2 \<and> bit st 4)"
proof -
  obtain w where w: "OpenWallet L (ds_file s) (bytes_of pw) = Ret w" using assms by (auto simp: awaits_wallet_def)
  obtain st where st: "vault_GetWallet L typed s = (Ret w, s\<lparr>ds_Status := st\<rparr>)" "\<not> bit st 1" "\<not> bit st 2" "bit st 4"
    using vault_GetWallet_opens [OF _ _ w] assms by (auto simp: awaits_wallet_def)
  then show ?thesis using assms w OpenWallet_hash [OF w] by (simp add: awaits_wallet_def node_poll_def init_wallet_def)
qed

lemma created_waits:
  assumes "keylib_std L" and "drawn (h_entropy h)" and "h_saved h"
    and "ds_wallet s = None" and "ds_found s = None" and "ds_file s = Absent"
    and "WebGuiCreateWallet (params (ds_node s))"
    and "SetBeneficiaryAddr L (h_writable h) addr (AllowEmptyBeneficiaryAddress (params (ds_node s))) (ds_node s) = Ret nd"
    and "DecryptData ctx False (h_body h) = Inr bodyData" and "unmarshal_create bodyData = Some (pw, addr)" and "pw \<noteq> []"
  shows "\<exists>s'. create_route L h ctx s = (200, s') \<and> awaits_wallet L pw s' \<and> ds_node s' = nd"
proof -
  obtain w wd where w: "NewWallet L (h_entropy h) True Absent (bytes_of pw) = Ret (w, Holds wd)"
      "OpenWallet L (Holds wd) (bytes_of pw) = Ret w"
    using new_wallet_opens_lemma [OF assms(1,2)] by blast
  have nd: "WebGuiCreateWallet (params nd)"
    using assms(7,8) by (auto simp: SetBeneficiaryAddr_def split: if_splits option.splits jsval.splits)
  obtain f where "SavePassword (h_pwsaved h) pw (s\<lparr>ds_node := nd, ds_file := Holds wd, ds_Passwd := pw\<rparr>) =
      s\<lparr>ds_node := nd, ds_file := Holds wd, ds_Passwd := pw, ds_pwfile := f\<rparr>"
    using SavePassword_frame by fastforce
  then show ?thesis
    using assms w nd by (simp add: create_route_def awaits_wallet_def)
qed

section \<open>Samples\<close>

text \<open>A node that waits for its wallet, and a request in the session with the token \<open>t\<close>.\<close>

definition sample_node :: node_server where
  "sample_node = \<lparr>params = (params sample_server)\<lparr>WebGuiCreateWallet := True\<rparr>,
     cfg_file = Some (JObj [(''RegisterIDTxnFee'', JInt 0), (''NumLowFeeTxnPerBlock'', JInt 0),
       (''LowFeeTxnSizePerBlock'', JInt 8192), (''LowTxnFee'', JInt 10000000), (''LowTxnFeePerSize'', JInt 50000),
       (''BeneficiaryAddr'', JStr [])])\<rparr>"

definition sample_dashboard :: "wallet option \<Rightarrow> wallet_file \<Rightarrow> dashboard" where
  "sample_dashboard w f = \<lparr>ds_node = sample_node, ds_service = \<lparr>svc_Token = ''t'', svc_TokenExp = 1000\<rparr>,
     ds_Status = 0, ds_wallet = w, ds_found = None, ds_file = f, ds_Passwd = [], ds_PasswordFile = [],
     ds_pwfile = None, ds_env = []\<rparr>"

definition sample_http :: "string option \<Rightarrow> http" where
  "sample_http body = \<lparr>h_now = 1000, h_fresh = ''f'', h_sess = Some ''t'', h_unix = ''1000'', h_auth = [],
     h_body = body, h_writable = True, h_saved = True, h_pwsaved = True, h_entropy = sample_entropy,
     h_typed = None, h_balance = None\<rparr>"

definition sample_wallet :: wallet where
  "sample_wallet = \<lparr>w_data = \<lparr>wd_Version = 2, wd_IV = [], wd_MasterKey = [], wd_SeedEncrypted = [],
       wd_Address = [], wd_Scrypt = None\<rparr>,
     w_PasswordHash = PasswordHash (bytes_of ''pw''), w_account = key_account std_keylib (en_seed sample_entropy),
     w_contract = key_contract std_keylib (ac_PublicKey (key_account std_keylib (en_seed sample_entropy)))\<rparr>"

lemma sample_node_ok: "node_ok L sample_node"
  by (simp add: node_ok_def file_agrees_def sample_node_def sample_server_def)

text \<open>A text sealed for the first second of the window is opened.\<close>

lemma sealed_first:
  assumes "unmarshals_to_map m" and "ctx_token ctx = Some tok"
  shows "DecryptData ctx b (Some (hex_encode (box_bytes (slot_seedHash (context_seed ctx b) tok (ctx_now ctx - 20)) m))) =
    Inr m"
proof -
  let ?c = "hex_encode (box_bytes (slot_seedHash (context_seed ctx b) tok (ctx_now ctx - 20)) m)"
  have "decrypt_slot (context_seed ctx b) tok ?c (ctx_now ctx - 20) = Some m"
    using assms(1) by (simp add: decrypt_slot_def AesDecrypt_eq)
  then have "first_hit (decrypt_slot (context_seed ctx b) tok ?c) (window (ctx_now ctx) UnixRange) = Some m"
    using first_hit_at [of "decrypt_slot (context_seed ctx b) tok ?c" "ctx_now ctx - 20" m "[]"]
      window_split [of "ctx_now ctx" 20 "ctx_now ctx - 20"] by (simp add: UnixRange_def)
  then show ?thesis using assms(2) by (simp add: DecryptData_def)
qed

lemma readable_address: "\<exists>a. a \<noteq> [] \<and> ToScriptHash (kl_Decode std_keylib) a \<noteq> None"
proof -
  obtain a where "ToScriptHash std_decode58 a = Some (replicate 20 0)" "length a = 36"
    using address_text_of [OF std_base58_ok, of "replicate 20 0"] by (auto simp: UINT160SIZE_def)
  then show ?thesis by (intro exI [of _ a]) (auto simp: std_keylib_def)
qed

section \<open>Properties\<close>

text \<open>
  C7: only who has the password changes the node. As long as the dashboard has a wallet, no sequence
  of requests of any callers, of polls and of initialisations changes the parameters, the
  configuration file or the wallet file, unless one of the requests carries an authorization that
  passes the wallet's filter.
\<close>

theorem only_password_holders_configure:
  assumes "ds_wallet s \<noteq> None" and "none_authorised L evs s"
  shows "ds_node (dash_run L evs s) = ds_node s \<and> ds_file (dash_run L evs s) = ds_file s"
  using assms
proof (induction evs arbitrary: s)
  case (Cons e evs)
  from locked_step [of s e L] Cons.prems
  have "ds_node (dash_step L e s) = ds_node s" "ds_file (dash_step L e s) = ds_file s" "ds_wallet (dash_step L e s) \<noteq> None"
    by auto
  with Cons.IH [of "dash_step L e s"] Cons.prems(2) show ?case by (simp add: dash_run_def)
qed (simp add: dash_run_def)

theorem only_password_holders_configure_witness:
  "ds_node (dash_run std_keylib [Request NodeConfig (sample_http None), Request WalletCreate (sample_http (Some [])), Poll None, Init]
     (sample_dashboard (Some sample_wallet) Garbled)) = sample_node"
  using only_password_holders_configure [of "sample_dashboard (Some sample_wallet) Garbled" std_keylib
      "[Request NodeConfig (sample_http None), Request WalletCreate (sample_http (Some [])), Poll None, Init]"]
  by (simp add: authorised_def WalletAuth_def sample_http_def) (simp add: sample_dashboard_def)



text \<open>
  C14: a wallet file is never replaced: whatever requests and polls there are, a file that exists
  stays as it is.
\<close>

theorem wallet_file_is_never_replaced:
  assumes "FileExisted (ds_file s)"
  shows "ds_file (dash_run L evs s) = ds_file s"
  using wallet_file_kept.kept_by_run [OF any_event, of s "ds_file s"] assms by (simp add: dash_run_def FileExisted_def)

theorem wallet_file_is_never_replaced_witness:
  "ds_file (dash_run std_keylib [Request WalletCreate (sample_http None), Poll None] (sample_dashboard None Garbled)) = Garbled"
  using wallet_file_is_never_replaced [of "sample_dashboard None Garbled" std_keylib
      "[Request WalletCreate (sample_http None), Poll None]"]
  by (simp add: FileExisted_def sample_dashboard_def)

text \<open>
  C29: a refused request to create a wallet can still change the beneficiary address. While a wallet
  file exists that has not been opened yet, the route sets the address first and fails on the
  file afterwards; it answers 500, and it asks for no password.
\<close>

theorem refused_create_changes_beneficiary:
  assumes "ds_wallet s = None" and "FileExisted (ds_file s)" and "WebGuiCreateWallet (params (ds_node s))"
    and "DecryptData ctx False (h_body h) = Inr bodyData" and "unmarshal_create bodyData = Some (pw, addr)"
    and "addr \<noteq> []" and "ToScriptHash (kl_Decode L) addr \<noteq> None"
    and "cfg_file (ds_node s) = Some (JObj ps)" and "h_writable h"
  shows "\<exists>s'. create_route L h ctx s = (500, s') \<and> BeneficiaryAddr (params (ds_node s')) = addr \<and> ds_file s' = ds_file s"
proof -
  have "NewWallet L (h_entropy h) (h_saved h) (ds_file s) (bytes_of pw) \<in> {Err, Panic}"
    using NewWallet_existing [OF assms(2)] by (cases "NewWallet L (h_entropy h) (h_saved h) (ds_file s) (bytes_of pw)") auto
  with assms show ?thesis by (auto simp: create_route_def SetBeneficiaryAddr_def)
qed

theorem refused_create_changes_beneficiary_witness:
  "\<exists>addr body s'. addr \<noteq> [] \<and>
     create_route std_keylib (sample_http (Some body)) (request_context (sample_http None) (Some ''t'') (sample_dashboard None Garbled))
       (sample_dashboard None Garbled) = (500, s') \<and>
     BeneficiaryAddr (params (ds_node s')) = addr"
proof -
  obtain a where a: "a \<noteq> []" "ToScriptHash (kl_Decode std_keylib) a \<noteq> None" using readable_address by blast
  let ?ps = "[(''password'', JStr ''x''), (''beneficiaryAddr'', JStr a)]"
  let ?m = "json_str (JObj ?ps)"
  let ?ctx = "request_context (sample_http None) (Some ''t'') (sample_dashboard None Garbled)"
  have parse: "json_parse ?m = Some (JObj ?ps)" by (rule json_parse_str) simp
  then have "unmarshals_to_map ?m" by (simp only: unmarshals_to_map_def) simp
  moreover have "ctx_token ?ctx = Some ''t''" by (simp add: request_context_def)
  ultimately obtain c where c: "DecryptData ?ctx False (Some c) = Inr ?m"
    using sealed_first by blast
  have "unmarshal_create ?m = Some (''x'', a)" by (rule unmarshal_client) simp_all
  moreover have "DecryptData ?ctx False (h_body (sample_http (Some c))) = Inr ?m" using c by (simp add: sample_http_def)
  ultimately have "\<exists>s'. create_route std_keylib (sample_http (Some c)) ?ctx (sample_dashboard None Garbled) = (500, s') \<and>
      BeneficiaryAddr (params (ds_node s')) = a \<and> ds_file s' = ds_file (sample_dashboard None Garbled)"
    by (intro refused_create_changes_beneficiary [OF _ _ _ _ _ a])
      (simp_all add: sample_dashboard_def FileExisted_def sample_node_def sample_http_def)
  with a show ?thesis by blast
qed

end
