(* ===== verification/Wallet_Flows.thy ===== *)
theory Wallet_Flows
  imports Web_Pages Web_Task Go_Server
begin

text \<open>
  The browser and the server together, from a click to the state of the node and back: the page
  that creates a wallet, the page that opens one, the dialog that sets the beneficiary address,
  the dialog that shows the secret seed, and a session that lasts. Each theorem composes the page's handler,
  the request interceptor, the server's filters and route, and, where there is one, the node's loop.
  Opening a sealed body has the proviso of the sealed messages throughout: no earlier second of the
  window may open the text as well.
\<close>

section \<open>Requests on their way\<close>

text \<open>The session before a wallet is open: the pages empty the seed, the server uses none.\<close>

lemma no_seed: "context_seed ctx False = []" "seed_text (st\<lparr>seed := Some []\<rparr>) = []"
  by (simp_all add: context_seed_def seed_text_def split: option.splits)

lemma synced_seed: "synced st tok n \<Longrightarrow> synced (st\<lparr>seed := x\<rparr>) tok n"
  by (simp add: synced_def del: synced_simps)

lemma serve_route:
  assumes "ep \<noteq> Verification" and "request_token ep h s = Some tok" and "UnixRangeAuth (h_now h) (h_unix h) = []"
  shows "\<exists>svc. serve L ep h s = handle L ep h (request_context h (Some tok) s) (s\<lparr>ds_service := svc\<rparr>)"
  using assms
  by (cases "token_middleware (h_now h) (h_fresh h) (ds_service s) (h_sess h)")
    (auto simp: serve_def request_token_def request_context_def)

lemma request_context_simps [simp]:
  "ctx_now (request_context h tok s) = h_now h" "ctx_token (request_context h tok s) = tok"
  "ctx_wallet (request_context h tok s) = map_option w_PasswordHash (ds_wallet s)"
  by (simp_all add: request_context_def)

text \<open>The sealed body of a page without a session arrives.\<close>

lemma sealed_without_seed:
  assumes "cryptojs_std cj" and "synced st tok n" and "0 \<le> n" and "n < 10 ^ 15"
    and "ctx_token ctx = Some tok" and "ctx_now ctx - 20 \<le> n" and "n < ctx_now ctx + 20"
    and "req_body rq = JObj ps" and "json_wf (JObj ps)"
  shows "\<exists>w c. onRequest cj now_ms (st\<lparr>seed := Some []\<rparr>) rq = Some w \<and> w_body w = JObj [(''data'', JStr c)] \<and>
    ((\<forall>i. ctx_now ctx - 20 \<le> i \<and> i < n \<longrightarrow> decrypt_slot [] tok c i = None) \<longrightarrow>
       DecryptData ctx False (Some c) = Inr (json_str (JObj ps)))"
proof -
  have "context_seed ctx False = seed_text (st\<lparr>seed := Some []\<rparr>)" by (simp only: no_seed)
  from sealed_request [OF assms(1) synced_seed [OF assms(2)] assms(3-5) this assms(6-9), of now_ms] show ?thesis
    by (auto simp: no_seed)
qed

section \<open>The server's end\<close>

lemma SetBeneficiaryAddr_sets:
  assumes "addr \<noteq> []" and "ToScriptHash (kl_Decode L) addr \<noteq> None" and "cfg_file nd = Some (JObj ps)"
  shows "SetBeneficiaryAddr L True addr e nd = Ret (nd\<lparr>cfg_file := Some (JObj (obj_set ''BeneficiaryAddr'' (JStr addr) ps)),
    params := (params nd)\<lparr>BeneficiaryAddr := addr\<rparr>\<rparr>)"
  using assms by (simp add: SetBeneficiaryAddr_def)

text \<open>The seed of a session that was opened with the password of the node's wallet.\<close>

lemma session_seed:
  assumes "cryptojs_std cj" and "ds_wallet s = Some w" and "w_PasswordHash w = PasswordHash (bytes_of pw)"
    and "seed st = Some (seedHash cj pw)"
  shows "context_seed (request_context h tok s) True = seed_text st"
  using cryptojs_std.seedHash_context [OF assms(1), of "request_context h tok s" pw] assms(2-4)
  by (simp add: seed_text_def)

text \<open>What has to hold of a node that runs with the wallet of the password.\<close>

definition runs_with :: "string \<Rightarrow> dashboard \<Rightarrow> bool" where
  "runs_with pw s \<longleftrightarrow> (\<exists>w. ds_wallet s = Some w \<and> w_PasswordHash w = PasswordHash (bytes_of pw)) \<and>
     \<not> bit (ds_Status s) 1 \<and> \<not> bit (ds_Status s) 2 \<and> bit (ds_Status s) 4"

lemma awaited_runs: "awaits_wallet L pw s \<Longrightarrow> runs_with pw (init_wallet (node_poll L typed s))"
  using awaited_wallet [of L pw s typed] by (auto simp: runs_with_def Let_def)

lemma open_route_awaits:
  assumes "ds_wallet s = None" and "ds_found s = None" and "WebGuiCreateWallet (params (ds_node s))"
    and "OpenWallet L (ds_file s) (bytes_of pw) = Ret w" and "pw \<noteq> []"
    and "DecryptData ctx False (h_body h) = Inr bodyData" and "unmarshal_open bodyData = Some pw"
  shows "\<exists>s'. open_route L h ctx s = (200, s') \<and> awaits_wallet L pw s' \<and> ds_node s' = ds_node s"
proof -
  obtain st where got: "vault_GetWallet L (h_typed h) (s\<lparr>ds_Passwd := pw\<rparr>) = (Ret w, s\<lparr>ds_Passwd := pw, ds_Status := st\<rparr>)"
    using vault_GetWallet_opens [of "s\<lparr>ds_Passwd := pw\<rparr>" pw L w "h_typed h"] assms(4,5) by auto
  obtain f where "SavePassword (h_pwsaved h) pw (s\<lparr>ds_Passwd := pw, ds_Status := st\<rparr>) =
      s\<lparr>ds_Passwd := pw, ds_Status := st, ds_pwfile := f\<rparr>"
    using SavePassword_frame by fastforce
  then show ?thesis using assms got by (simp add: open_route_def awaits_wallet_def)
qed

text \<open>A route that opens or makes a wallet, after its filters.\<close>

lemma create_served:
  assumes "keylib_std L" and "addr \<noteq> []" and "ToScriptHash (kl_Decode L) addr \<noteq> None" and "pw \<noteq> []"
    and "ds_wallet s = None" and "ds_found s = None" and "ds_file s = Absent"
    and "WebGuiCreateWallet (params (ds_node s))" and "cfg_file (ds_node s) = Some (JObj ps)"
    and "request_token WalletCreate h s = Some tok" and "UnixRangeAuth (h_now h) (h_unix h) = []"
    and "drawn (h_entropy h)" and "h_saved h" and "h_writable h"
    and "DecryptData (request_context h (Some tok) s) False (h_body h) =
      Inr (json_str (JObj [(''password'', JStr pw), (''beneficiaryAddr'', JStr addr)]))"
  shows "\<exists>s'. serve L WalletCreate h s = (200, s') \<and> awaits_wallet L pw s' \<and> BeneficiaryAddr (params (ds_node s')) = addr"
proof -
  obtain svc where served: "serve L WalletCreate h s =
      create_route L h (request_context h (Some tok) s) (s\<lparr>ds_service := svc\<rparr>)"
    using serve_route [OF _ assms(10,11)] by (auto simp: handle_def)
  show ?thesis
    using created_waits [OF assms(1,12,13), of "s\<lparr>ds_service := svc\<rparr>" addr _ "request_context h (Some tok) s" _ pw,
        OF _ _ _ _ _ _ unmarshal_client(1)] assms(4-9,14,15)
      SetBeneficiaryAddr_sets [OF assms(2,3,9), of "AllowEmptyBeneficiaryAddress (params (ds_node s))"]
    by (auto simp: served)
qed

lemma open_served:
  assumes "pw \<noteq> []" and "ds_wallet s = None" and "ds_found s = None" and "WebGuiCreateWallet (params (ds_node s))"
    and "OpenWallet L (ds_file s) (bytes_of pw) = Ret w"
    and "request_token WalletOpen h s = Some tok" and "UnixRangeAuth (h_now h) (h_unix h) = []"
    and "DecryptData (request_context h (Some tok) s) False (h_body h) = Inr (json_str (JObj [(''password'', JStr pw)]))"
  shows "\<exists>s'. serve L WalletOpen h s = (200, s') \<and> awaits_wallet L pw s'"
proof -
  obtain svc where served: "serve L WalletOpen h s =
      open_route L h (request_context h (Some tok) s) (s\<lparr>ds_service := svc\<rparr>)"
    using serve_route [OF _ assms(6,7)] by (auto simp: handle_def)
  show ?thesis
    using open_route_awaits [of "s\<lparr>ds_service := svc\<rparr>" L pw w "request_context h (Some tok) s" h,
        OF _ _ _ _ _ _ unmarshal_client(2)] assms
    by (auto simp: served)
qed

section \<open>The browser's end\<close>

lemma create_submitted:
  assumes "form_std validate" and "cr_password pg = pw" and "cr_passwordConfirm pg = pw" and "pw \<noteq> []"
    and "cr_beneficiaryAddr pg = JStr addr" and "addr \<noteq> []"
  shows "cr_submit cj validate pg st = (st\<lparr>seed := Some []\<rparr>, Some (createWallet cj pw (JStr addr)))"
    and "\<exists>st'. cr_click cj validate localePath (\<lambda>_. http_outcome 200 (JStr [])) pg st =
      ((pg, Some (localePath ''loading'')), st') \<and> seed st' = Some (seedHash cj pw)"
proof -
  show submit: "cr_submit cj validate pg st = (st\<lparr>seed := Some []\<rparr>, Some (createWallet cj pw (JStr addr)))"
    using assms form_std.validate_iff [OF assms(1)] by (simp add: cr_submit_def cr_rules_def password_rule_def)
  show "\<exists>st'. cr_click cj validate localePath (\<lambda>_. http_outcome 200 (JStr [])) pg st =
      ((pg, Some (localePath ''loading'')), st') \<and> seed st' = Some (seedHash cj pw)"
    by (simp add: submit cr_click_def run_action_def createWallet_def http_outcome_def wallet_opened_def
        syncServiceStatus_def cr_submit_done_def)
qed

lemma open_submitted:
  assumes "form_std validate" and "op_password pg = pw" and "pw \<noteq> []"
  shows "op_submit cj validate pg st = (st\<lparr>seed := Some []\<rparr>, Some (openWallet cj pw))"
    and "\<exists>st'. op_click cj validate localePath (\<lambda>_. http_outcome 200 (JStr [])) pg st =
      ((pg, Some (localePath ''loading'')), st') \<and> seed st' = Some (seedHash cj pw)"
proof -
  show submit: "op_submit cj validate pg st = (st\<lparr>seed := Some []\<rparr>, Some (openWallet cj pw))"
    using assms form_std.validate_iff [OF assms(1)] by (simp add: op_submit_def password_rule_def)
  show "\<exists>st'. op_click cj validate localePath (\<lambda>_. http_outcome 200 (JStr [])) pg st =
      ((pg, Some (localePath ''loading'')), st') \<and> seed st' = Some (seedHash cj pw)"
    by (simp add: submit op_click_def run_action_def openWallet_def http_outcome_def wallet_opened_def
        syncServiceStatus_def op_submit_done_def)
qed

lemma awaited_session:
  assumes "cryptojs_std cj" and "awaits_wallet L pw s" and "seed st = Some (seedHash cj pw)"
  shows "runs_with pw (init_wallet (node_poll L typed s)) \<and>
    context_seed (request_context h tok (init_wallet (node_poll L typed s))) True = seed_text st"
  using awaited_runs [OF assms(2), of typed] session_seed [OF assms(1) _ _ assms(3)] by (auto simp: runs_with_def)

section \<open>With a password\<close>

text \<open>The header and the sealed body of a request that an action sends with the right password.\<close>

lemma authorised_request:
  assumes "cryptojs_std cj" and "synced st tok n" and "0 \<le> n" and "n < 10 ^ 15"
    and "ctx_wallet ctx = Some (PasswordHash (bytes_of pw))" and "ctx_token ctx = Some tok"
    and "ctx_now ctx - 20 \<le> n" and "n < ctx_now ctx + 20" and "context_seed ctx True = seed_text st"
    and "req_body rq = JObj ps" and "json_wf (JObj ps)"
  shows "\<exists>hdr w x. auth_value cj (common st) pw = Some hdr \<and> WalletAuth ctx hdr = None \<and>
    onRequest cj now_ms (st\<lparr>authorization := Some hdr\<rparr>) rq = Some w \<and> w_authorization w = Some hdr \<and>
    w_body w = JObj [(''data'', JStr x)] \<and>
    ((\<forall>i. ctx_now ctx - 20 \<le> i \<and> i < n \<longrightarrow> decrypt_slot (seed_text st) tok x i = None) \<longrightarrow>
       DecryptData ctx True (Some x) = Inr (json_str (JObj ps)))"
proof -
  obtain hdr where hdr: "auth_value cj (common st) pw = Some hdr" "WalletAuth ctx hdr = None"
    using auth_accepted [OF assms(1-8)] by blast
  let ?st = "st\<lparr>authorization := Some hdr\<rparr>"
  have sync: "synced ?st tok n" and sd: "context_seed ctx True = seed_text ?st"
    using assms(2,9) by (simp_all add: synced_def seed_text_def del: synced_simps)
  obtain w x where w: "onRequest cj now_ms ?st rq = Some w" "w_body w = JObj [(''data'', JStr x)]"
    and opens: "(\<forall>i. ctx_now ctx - 20 \<le> i \<and> i < n \<longrightarrow> decrypt_slot (seed_text ?st) tok x i = None) \<longrightarrow>
       DecryptData ctx True (Some x) = Inr (json_str (JObj ps))"
    using sealed_request [OF assms(1) sync assms(3,4,6) sd assms(7,8,10,11), of now_ms] by auto
  have "w_authorization w = Some hdr"
    using cryptojs_std.onRequest_seal [OF assms(1) sync assms(3,4), of rq now_ms] w(1) assms(10) by auto
  with hdr w opens show ?thesis by (auto simp: seed_text_def)
qed

text \<open>The route for the beneficiary address, by the address it is given.\<close>

lemma beneficiary_served:
  assumes "request_token NodeBeneficiary h s = Some tok" and "UnixRangeAuth (h_now h) (h_unix h) = []"
    and "WalletAuth (request_context h (Some tok) s) (h_auth h) = None"
    and "DecryptData (request_context h (Some tok) s) True (h_body h) = Inr (json_str (JObj [(''beneficiaryAddr'', JStr addr)]))"
    and "cfg_file (ds_node s) = Some (JObj ps)" and "h_writable h" and "addr \<noteq> []"
  shows "\<exists>s'. if ToScriptHash (kl_Decode L) addr \<noteq> None
    then serve L NodeBeneficiary h s = (200, s') \<and> BeneficiaryAddr (params (ds_node s')) = addr \<and>
      cfg_file (ds_node s') = Some (JObj (obj_set ''BeneficiaryAddr'' (JStr addr) ps))
    else serve L NodeBeneficiary h s = (400, s') \<and> ds_node s' = ds_node s"
proof -
  obtain svc where served: "serve L NodeBeneficiary h s =
      on_node (s\<lparr>ds_service := svc\<rparr>) (beneficiary_route L (request_context h (Some tok) s) (h_auth h) (h_body h) (h_writable h) (ds_node s))"
    using serve_route [OF _ assms(1,2)] by (auto simp: handle_def)
  show ?thesis
    using assms(3-7)
    by (cases "ToScriptHash (kl_Decode L) addr")
      (simp_all add: served on_node_def beneficiary_route_def unmarshal_client SetBeneficiaryAddr_def del: json_str.simps)
qed

text \<open>What the dialog for the address shows when the server has answered.\<close>

lemma beneficiary_clicked:
  assumes "form_std validate" and "ba_step d = 2" and "auth_value cj (common st) (ba_password d) = Some hdr"
  shows "ba_next cj validate d = Some (setBeneficiaryAddr cj (ba_password d) (JStr (ba_beneficiaryAddr d)))"
    and "callback_ok v \<Longrightarrow> \<not> ba_visible (fst (ba_click cj validate callback_ok (\<lambda>_. http_outcome 200 v) (d, st)))"
    and "ba_beneficiaryAddrErrorMessage (fst (ba_click cj validate callback_ok (\<lambda>_. http_outcome 400 v) (d, st))) =
      ''settings.BENEFICIARY_ERROR''"
proof -
  show next_step: "ba_next cj validate d = Some (setBeneficiaryAddr cj (ba_password d) (JStr (ba_beneficiaryAddr d)))"
    using assms(2) form_std.validate_iff [OF assms(1)] by (simp add: ba_next_def)
  show "callback_ok v \<Longrightarrow> \<not> ba_visible (fst (ba_click cj validate callback_ok (\<lambda>_. http_outcome 200 v) (d, st)))"
    "ba_beneficiaryAddrErrorMessage (fst (ba_click cj validate callback_ok (\<lambda>_. http_outcome 400 v) (d, st))) =
      ''settings.BENEFICIARY_ERROR''"
    using assms(2,3)
    by (simp_all add: ba_click_def next_step setBeneficiaryAddr_def run_with_auth http_outcome_def ba_next_done_def
        ba_cancel_def)
qed

lemma seed_clicked:
  assumes "form_std validate" and "sd_password d \<noteq> []" and "auth_value cj (common st) (sd_password d) = Some hdr"
    and "js_get v ''secretSeed'' = Some x"
  shows "sd_secretSeed (fst (sd_click cj validate (\<lambda>_. Resp v JUndef) (d, st))) = x"
  using assms form_std.validate_iff [OF assms(1)]
  by (simp add: sd_click_def sd_next_def password_rule_def details_run [OF assms(3)] sd_next_done_def)

section \<open>Samples\<close>

lemma sample_unix: "UnixRangeAuth (h_now (sample_http b)) (h_unix (sample_http b)) = []"
proof -
  have "ParseInt ''1000'' = (1000, False)" by code_simp
  then show ?thesis by (simp add: UnixRangeAuth_def sample_http_def verifyUnix_def UnixRange_def)
qed

lemma sample_token: "ep \<noteq> Verification \<Longrightarrow> request_token ep (sample_http b) (sample_dashboard w f) = Some ''t''"
  by (simp add: request_token_def sample_http_def sample_dashboard_def token_middleware_def TokenExpSec_def)

lemma sample_http_simps [simp]:
  "h_now (sample_http b) = 1000" "h_body (sample_http b) = b" "h_writable (sample_http b)" "h_saved (sample_http b)"
  "h_entropy (sample_http b) = sample_entropy"
  by (simp_all add: sample_http_def)

lemma sample_dashboard_simps [simp]:
  "ds_wallet (sample_dashboard w f) = w" "ds_found (sample_dashboard w f) = None" "ds_file (sample_dashboard w f) = f"
  "ds_node (sample_dashboard w f) = sample_node" "WebGuiCreateWallet (params sample_node)"
  by (simp_all add: sample_dashboard_def sample_node_def)

lemma sample_drawn: "drawn sample_entropy"
  by (simp add: drawn_def sample_entropy_def)

text \<open>The text that a page without a session sends at the time 980.\<close>

lemma sample_sealed:
  assumes "onRequest std_cryptojs 0 (sample_client None 980\<lparr>seed := Some []\<rparr>) rq = Some w"
    and "w_body w = JObj [(''data'', JStr x)]" and "req_body rq = JObj ps"
  shows "x = seal_text [] ''t'' 980 (json_str (JObj ps))"
  using std_cj.onRequest_seal [OF synced_seed [OF sample_synced], of 980 rq 0 "Some []" None] assms
  by (auto simp: no_seed)

section \<open>Properties\<close>

text \<open>
  C3: from the page that creates a wallet to a running node. The page sends the password and the
  beneficiary address; the server, which has no wallet and no wallet file, makes one, and the node
  that waits for it finds it, opens it with this password and runs with it, and with this
  address in its configuration; the page goes on to \<open>loading\<close> with a session whose seed is the one
  the server derives from the new wallet.
\<close>

theorem create_page_starts_node:
  assumes "cryptojs_std cj" and "form_std validate" and "keylib_std L"
    and "cr_password pg = pw" and "cr_passwordConfirm pg = pw" and "pw \<noteq> []"
    and "cr_beneficiaryAddr pg = JStr addr" and "addr \<noteq> []" and "ToScriptHash (kl_Decode L) addr \<noteq> None"
    and "synced st tok n" and "0 \<le> n" and "n < 10 ^ 15" and "h_now h - 20 \<le> n" and "n < h_now h + 20"
    and "ds_wallet s = None" and "ds_found s = None" and "ds_file s = Absent"
    and "WebGuiCreateWallet (params (ds_node s))" and "cfg_file (ds_node s) = Some (JObj ps)"
    and "request_token WalletCreate h s = Some tok" and "UnixRangeAuth (h_now h) (h_unix h) = []"
    and "drawn (h_entropy h)" and "h_saved h" and "h_writable h"
  shows "\<exists>act st1 rq k w c. cr_submit cj validate pg st = (st1, Some act) \<and> act st1 = (st1, Await rq k) \<and>
    onRequest cj now_ms st1 rq = Some w \<and> w_body w = JObj [(''data'', JStr c)] \<and>
    (h_body h = Some c \<and> (\<forall>i. h_now h - 20 \<le> i \<and> i < n \<longrightarrow> decrypt_slot [] tok c i = None) \<longrightarrow>
      (\<exists>s' st'. serve L WalletCreate h s = (200, s') \<and>
         runs_with pw (init_wallet (node_poll L typed s')) \<and>
         BeneficiaryAddr (params (ds_node (init_wallet (node_poll L typed s')))) = addr \<and>
         cr_click cj validate localePath (\<lambda>_. http_outcome 200 (JStr [])) pg st = ((pg, Some (localePath ''loading'')), st') \<and>
         context_seed (request_context h' tok' (init_wallet (node_poll L typed s'))) True = seed_text st'))"
proof -
  let ?st = "st\<lparr>seed := Some []\<rparr>" and ?ps = "[(''password'', JStr pw), (''beneficiaryAddr'', JStr addr)]"
  let ?rq = "\<lparr>req_method = POST, req_url = ''/api/wallet/create'', req_body = JObj ?ps\<rparr>"
  note submitted = create_submitted [OF assms(2,4-8), where cj = cj and st = st]
  obtain st' where click: "cr_click cj validate localePath (\<lambda>_. http_outcome 200 (JStr [])) pg st =
      ((pg, Some (localePath ''loading'')), st')" "seed st' = Some (seedHash cj pw)"
    using submitted(2) by blast
  obtain w c where w: "onRequest cj now_ms ?st ?rq = Some w" "w_body w = JObj [(''data'', JStr c)]"
    and opens: "(\<forall>i. h_now h - 20 \<le> i \<and> i < n \<longrightarrow> decrypt_slot [] tok c i = None) \<longrightarrow>
       DecryptData (request_context h (Some tok) s) False (Some c) = Inr (json_str (JObj ?ps))"
    using sealed_without_seed [OF assms(1,10-12), of "request_context h (Some tok) s" ?rq ?ps now_ms] assms(13,14) by auto
  have "\<exists>s' st'. serve L WalletCreate h s = (200, s') \<and> runs_with pw (init_wallet (node_poll L typed s')) \<and>
         BeneficiaryAddr (params (ds_node (init_wallet (node_poll L typed s')))) = addr \<and>
         cr_click cj validate localePath (\<lambda>_. http_outcome 200 (JStr [])) pg st = ((pg, Some (localePath ''loading'')), st') \<and>
         context_seed (request_context h' tok' (init_wallet (node_poll L typed s'))) True = seed_text st'"
    if sent: "h_body h = Some c" "\<forall>i. h_now h - 20 \<le> i \<and> i < n \<longrightarrow> decrypt_slot [] tok c i = None"
    using create_served [OF assms(3,8,9,6,15-24)] sent opens awaited_session [OF assms(1) _ click(2)] click(1)
    by (fastforce simp: node_poll_same init_wallet_same)
  with submitted(1) w show ?thesis by (simp add: createWallet_def)
qed

theorem create_page_starts_node_witness:
  "\<exists>addr c s'. addr \<noteq> [] \<and> serve std_keylib WalletCreate (sample_http (Some c)) (sample_dashboard None Absent) = (200, s') \<and>
     runs_with ''pw'' (init_wallet (node_poll std_keylib None s')) \<and>
     BeneficiaryAddr (params (ds_node (init_wallet (node_poll std_keylib None s')))) = addr"
proof -
  obtain a where a: "a \<noteq> []" "ToScriptHash (kl_Decode std_keylib) a \<noteq> None" using readable_address by blast
  let ?ps = "[(''password'', JStr ''pw''), (''beneficiaryAddr'', JStr a)]"
  let ?pg = "cr_init\<lparr>cr_password := ''pw'', cr_passwordConfirm := ''pw'', cr_beneficiaryAddr := JStr a\<rparr>"
  define c where "c = seal_text [] ''t'' 980 (json_str (JObj ?ps))"
  let ?h = "sample_http (Some c)" and ?s = "sample_dashboard None Absent"
  have page: "cr_password ?pg = ''pw''" "cr_passwordConfirm ?pg = ''pw''" "''pw'' \<noteq> []" "cr_beneficiaryAddr ?pg = JStr a"
    by simp_all
  have clock: "(0 :: int) \<le> 980" "980 < (10 ^ 15 :: int)" "h_now ?h - 20 \<le> 980" "980 < h_now ?h + 20" by simp_all
  have server: "ds_wallet ?s = None" "ds_found ?s = None" "ds_file ?s = Absent" "WebGuiCreateWallet (params (ds_node ?s))"
    by simp_all
  obtain ps where ps: "cfg_file (ds_node ?s) = Some (JObj ps)" by (simp add: sample_node_def)
  have tok: "request_token WalletCreate ?h ?s = Some ''t''" by (rule sample_token) simp
  have env: "drawn (h_entropy ?h)" "h_saved ?h" "h_writable ?h" by (simp_all add: sample_drawn)
  note flow = create_page_starts_node [OF std_cryptojs_ok all_rules_ok std_keylib_ok page a sample_synced [of None 980]
      clock server ps tok sample_unix env, of 0 None default_path ?h None]
  have sub: "cr_submit std_cryptojs all_rules ?pg (sample_client None 980) =
      (sample_client None 980\<lparr>seed := Some []\<rparr>, Some (createWallet std_cryptojs ''pw'' (JStr a)))"
    by (rule create_submitted(1) [OF all_rules_ok page a(1)])
  from flow show ?thesis
  proof (elim exE conjE)
    fix act st1 rq k w x
    assume "cr_submit std_cryptojs all_rules ?pg (sample_client None 980) = (st1, Some act)" "act st1 = (st1, Await rq k)"
      and w: "onRequest std_cryptojs 0 st1 rq = Some w" "w_body w = JObj [(''data'', JStr x)]"
      and served: "h_body ?h = Some x \<and> (\<forall>i. h_now ?h - 20 \<le> i \<and> i < 980 \<longrightarrow> decrypt_slot [] ''t'' x i = None) \<longrightarrow>
        (\<exists>s' st'. serve std_keylib WalletCreate ?h ?s = (200, s') \<and> runs_with ''pw'' (init_wallet (node_poll std_keylib None s')) \<and>
         BeneficiaryAddr (params (ds_node (init_wallet (node_poll std_keylib None s')))) = a \<and>
         cr_click std_cryptojs all_rules default_path (\<lambda>_. http_outcome 200 (JStr [])) ?pg (sample_client None 980) =
           ((?pg, Some (default_path ''loading'')), st') \<and>
         context_seed (request_context ?h None (init_wallet (node_poll std_keylib None s'))) True = seed_text st')"
    then have "st1 = sample_client None 980\<lparr>seed := Some []\<rparr>" "req_body rq = JObj ?ps" using sub by (auto simp: createWallet_def)
    with w have "x = c" unfolding c_def by (intro sample_sealed) auto
    with served a(1) show ?thesis by auto
  qed
qed

text \<open>
  C4: from the page that opens a wallet to a running node: with a wallet file that the password
  opens, the server takes the password, the waiting node opens the wallet with it and runs, and
  the page goes on to \<open>loading\<close> with the seed that the server derives from the wallet.
\<close>

theorem open_page_starts_node:
  assumes "cryptojs_std cj" and "form_std validate" and "op_password pg = pw" and "pw \<noteq> []"
    and "synced st tok n" and "0 \<le> n" and "n < 10 ^ 15" and "h_now h - 20 \<le> n" and "n < h_now h + 20"
    and "ds_wallet s = None" and "ds_found s = None" and "WebGuiCreateWallet (params (ds_node s))"
    and "OpenWallet L (ds_file s) (bytes_of pw) = Ret wal"
    and "request_token WalletOpen h s = Some tok" and "UnixRangeAuth (h_now h) (h_unix h) = []"
  shows "\<exists>act st1 rq k w c. op_submit cj validate pg st = (st1, Some act) \<and> act st1 = (st1, Await rq k) \<and>
    onRequest cj now_ms st1 rq = Some w \<and> w_body w = JObj [(''data'', JStr c)] \<and>
    (h_body h = Some c \<and> (\<forall>i. h_now h - 20 \<le> i \<and> i < n \<longrightarrow> decrypt_slot [] tok c i = None) \<longrightarrow>
      (\<exists>s' st'. serve L WalletOpen h s = (200, s') \<and> runs_with pw (init_wallet (node_poll L typed s')) \<and>
         op_click cj validate localePath (\<lambda>_. http_outcome 200 (JStr [])) pg st = ((pg, Some (localePath ''loading'')), st') \<and>
         context_seed (request_context h' tok' (init_wallet (node_poll L typed s'))) True = seed_text st'))"
proof -
  let ?st = "st\<lparr>seed := Some []\<rparr>" and ?ps = "[(''password'', JStr pw)]"
  let ?rq = "\<lparr>req_method = POST, req_url = ''/api/wallet/open'', req_body = JObj ?ps\<rparr>"
  note submitted = open_submitted [OF assms(2-4), where cj = cj and st = st]
  obtain st' where click: "op_click cj validate localePath (\<lambda>_. http_outcome 200 (JStr [])) pg st =
      ((pg, Some (localePath ''loading'')), st')" "seed st' = Some (seedHash cj pw)"
    using submitted(2) by blast
  obtain w c where w: "onRequest cj now_ms ?st ?rq = Some w" "w_body w = JObj [(''data'', JStr c)]"
    and opens: "(\<forall>i. h_now h - 20 \<le> i \<and> i < n \<longrightarrow> decrypt_slot [] tok c i = None) \<longrightarrow>
       DecryptData (request_context h (Some tok) s) False (Some c) = Inr (json_str (JObj ?ps))"
    using sealed_without_seed [OF assms(1,5-7), of "request_context h (Some tok) s" ?rq ?ps now_ms] assms(8,9) by auto
  have "\<exists>s' st'. serve L WalletOpen h s = (200, s') \<and> runs_with pw (init_wallet (node_poll L typed s')) \<and>
         op_click cj validate localePath (\<lambda>_. http_outcome 200 (JStr [])) pg st = ((pg, Some (localePath ''loading'')), st') \<and>
         context_seed (request_context h' tok' (init_wallet (node_poll L typed s'))) True = seed_text st'"
    if sent: "h_body h = Some c" "\<forall>i. h_now h - 20 \<le> i \<and> i < n \<longrightarrow> decrypt_slot [] tok c i = None"
    using open_served [OF assms(4,10-15)] sent opens awaited_session [OF assms(1) _ click(2)] click(1) by fastforce
  with submitted(1) w show ?thesis by (simp add: openWallet_def)
qed

theorem open_page_starts_node_witness:
  "\<exists>f c s'. serve std_keylib WalletOpen (sample_http (Some c)) (sample_dashboard None f) = (200, s') \<and>
     runs_with ''pw'' (init_wallet (node_poll std_keylib None s'))"
proof -
  obtain wal wd where "OpenWallet std_keylib (Holds wd) (bytes_of ''pw'') = Ret wal"
    using new_wallet_opens_lemma [OF std_keylib_ok sample_drawn] by blast
  let ?ps = "[(''password'', JStr ''pw'')]" and ?pg = "op_init\<lparr>op_password := ''pw''\<rparr>"
  define c where "c = seal_text [] ''t'' 980 (json_str (JObj ?ps))"
  let ?h = "sample_http (Some c)" and ?s = "sample_dashboard None (Holds wd)"
  have page: "op_password ?pg = ''pw''" "''pw'' \<noteq> []" by simp_all
  have clock: "(0 :: int) \<le> 980" "980 < (10 ^ 15 :: int)" "h_now ?h - 20 \<le> 980" "980 < h_now ?h + 20" by simp_all
  have server: "ds_wallet ?s = None" "ds_found ?s = None" "WebGuiCreateWallet (params (ds_node ?s))"
      "OpenWallet std_keylib (ds_file ?s) (bytes_of ''pw'') = Ret wal"
    using \<open>OpenWallet std_keylib (Holds wd) (bytes_of ''pw'') = Ret wal\<close> by simp_all
  have tok: "request_token WalletOpen ?h ?s = Some ''t''" by (rule sample_token) simp
  note flow = open_page_starts_node [OF std_cryptojs_ok all_rules_ok page sample_synced [of None 980]
      clock server tok sample_unix, of 0 None default_path ?h None]
  have sub: "op_submit std_cryptojs all_rules ?pg (sample_client None 980) =
      (sample_client None 980\<lparr>seed := Some []\<rparr>, Some (openWallet std_cryptojs ''pw''))"
    by (rule open_submitted(1) [OF all_rules_ok page])
  from flow show ?thesis
  proof (elim exE conjE)
    fix act st1 rq k w x
    assume "op_submit std_cryptojs all_rules ?pg (sample_client None 980) = (st1, Some act)" "act st1 = (st1, Await rq k)"
      and w: "onRequest std_cryptojs 0 st1 rq = Some w" "w_body w = JObj [(''data'', JStr x)]"
      and served: "h_body ?h = Some x \<and> (\<forall>i. h_now ?h - 20 \<le> i \<and> i < 980 \<longrightarrow> decrypt_slot [] ''t'' x i = None) \<longrightarrow>
        (\<exists>s' st'. serve std_keylib WalletOpen ?h ?s = (200, s') \<and> runs_with ''pw'' (init_wallet (node_poll std_keylib None s')) \<and>
         op_click std_cryptojs all_rules default_path (\<lambda>_. http_outcome 200 (JStr [])) ?pg (sample_client None 980) =
           ((?pg, Some (default_path ''loading'')), st') \<and>
         context_seed (request_context ?h None (init_wallet (node_poll std_keylib None s'))) True = seed_text st')"
    then have "st1 = sample_client None 980\<lparr>seed := Some []\<rparr>" "req_body rq = JObj ?ps" using sub by (auto simp: openWallet_def)
    with w have "x = c" unfolding c_def by (intro sample_sealed) auto
    with served show ?thesis by auto
  qed
qed

text \<open>
  C6: the beneficiary address that the dialog sends with the right password is the one the node
  uses: an address that can be read is written to the file and to the running node, the answer is 200
  and the dialog closes; for a text that is no address the answer is 400, nothing changes, and
  the dialog says so.
\<close>

theorem beneficiary_reaches_node:
  assumes "cryptojs_std cj" and "form_std validate" and "ba_step d = 2" and "ba_password d = pw"
    and "ba_beneficiaryAddr d = addr" and "addr \<noteq> []"
    and "synced st tok n" and "0 \<le> n" and "n < 10 ^ 15" and "h_now h - 20 \<le> n" and "n < h_now h + 20"
    and "ds_wallet s = Some wal" and "w_PasswordHash wal = PasswordHash (bytes_of pw)" and "seed st = Some (seedHash cj pw)"
    and "request_token NodeBeneficiary h s = Some tok" and "UnixRangeAuth (h_now h) (h_unix h) = []"
    and "cfg_file (ds_node s) = Some (JObj ps)" and "h_writable h" and "callback_ok (beneficiary_reply addr nd)"
  shows "\<exists>act st1 rq k w hdr x. ba_next cj validate d = Some act \<and> act st = (st1, Await rq k) \<and>
    onRequest cj now_ms st1 rq = Some w \<and> w_authorization w = Some hdr \<and> w_body w = JObj [(''data'', JStr x)] \<and>
    (h_auth h = hdr \<and> h_body h = Some x \<and> (\<forall>i. h_now h - 20 \<le> i \<and> i < n \<longrightarrow> decrypt_slot (seed_text st) tok x i = None) \<longrightarrow>
      (\<exists>s'. if ToScriptHash (kl_Decode L) addr \<noteq> None
        then serve L NodeBeneficiary h s = (200, s') \<and> BeneficiaryAddr (params (ds_node s')) = addr \<and>
          cfg_file (ds_node s') = Some (JObj (obj_set ''BeneficiaryAddr'' (JStr addr) ps)) \<and>
          \<not> ba_visible (fst (ba_click cj validate callback_ok (\<lambda>_. http_outcome 200 (beneficiary_reply addr nd)) (d, st)))
        else serve L NodeBeneficiary h s = (400, s') \<and> ds_node s' = ds_node s \<and>
          ba_beneficiaryAddrErrorMessage (fst (ba_click cj validate callback_ok (\<lambda>_. http_outcome 400 JUndef) (d, st))) =
            ''settings.BENEFICIARY_ERROR''))"
proof -
  let ?ctx = "request_context h (Some tok) s"
  let ?rq = "\<lparr>req_method = PUT, req_url = ''/api/node/beneficiary'', req_body = JObj [(''beneficiaryAddr'', JStr addr)]\<rparr>"
  obtain hdr w x where auth: "auth_value cj (common st) pw = Some hdr" "WalletAuth ?ctx hdr = None"
    and w: "onRequest cj now_ms (st\<lparr>authorization := Some hdr\<rparr>) ?rq = Some w" "w_authorization w = Some hdr"
      "w_body w = JObj [(''data'', JStr x)]"
    and opens: "(\<forall>i. h_now h - 20 \<le> i \<and> i < n \<longrightarrow> decrypt_slot (seed_text st) tok x i = None) \<longrightarrow>
       DecryptData ?ctx True (Some x) = Inr (json_str (JObj [(''beneficiaryAddr'', JStr addr)]))"
    using authorised_request [OF assms(1,7-9), of ?ctx pw ?rq _ now_ms] session_seed [OF assms(1,12-14), of h "Some tok"]
      assms(10-13) by auto
  note clicked = beneficiary_clicked [OF assms(2,3), of cj st hdr, unfolded assms(4,5), OF auth(1)]
  have "\<exists>s'. if ToScriptHash (kl_Decode L) addr \<noteq> None
      then serve L NodeBeneficiary h s = (200, s') \<and> BeneficiaryAddr (params (ds_node s')) = addr \<and>
        cfg_file (ds_node s') = Some (JObj (obj_set ''BeneficiaryAddr'' (JStr addr) ps))
      else serve L NodeBeneficiary h s = (400, s') \<and> ds_node s' = ds_node s"
    if "h_auth h = hdr" "h_body h = Some x" "\<forall>i. h_now h - 20 \<le> i \<and> i < n \<longrightarrow> decrypt_slot (seed_text st) tok x i = None"
    using beneficiary_served [OF assms(15,16) _ _ assms(17,18,6)] auth(2) opens that by simp
  with clicked w auth(1) assms(19) show ?thesis
    by (auto simp: setBeneficiaryAddr_def with_auth_def split: if_splits)
qed

theorem beneficiary_reaches_node_witness:
  "\<exists>addr hdr c s'. addr \<noteq> [] \<and>
     serve std_keylib NodeBeneficiary ((sample_http (Some c))\<lparr>h_auth := hdr\<rparr>) (sample_dashboard (Some sample_wallet) Garbled) = (200, s') \<and>
     BeneficiaryAddr (params (ds_node s')) = addr"
proof -
  obtain a where a: "a \<noteq> []" "ToScriptHash (kl_Decode std_keylib) a \<noteq> None" using readable_address by blast
  let ?d = "(ba_init True)\<lparr>ba_step := 2, ba_password := ''pw'', ba_beneficiaryAddr := a\<rparr>"
  let ?st = "sample_client (Some (seedHash std_cryptojs ''pw'')) 980" and ?s = "sample_dashboard (Some sample_wallet) Garbled"
  let ?rq = "\<lparr>req_method = PUT, req_url = ''/api/node/beneficiary'', req_body = JObj [(''beneficiaryAddr'', JStr a)]\<rparr>"
  obtain hdr where hdr: "auth_value std_cryptojs (common ?st) ''pw'' = Some hdr"
    using auth_value_shape [OF std_cryptojs_ok sample_synced [of "Some (seedHash std_cryptojs ''pw'')" 980]] by auto
  obtain w where w: "onRequest std_cryptojs 0 (?st\<lparr>authorization := Some hdr\<rparr>) ?rq = Some w" "w_authorization w = Some hdr"
    and body: "\<exists>c. w_body w = JObj [(''data'', JStr c)]"
    using std_cj.onRequest_seal [of "?st\<lparr>authorization := Some hdr\<rparr>" "''t''" 980 ?rq 0] sample_synced [of "Some (seedHash std_cryptojs ''pw'')" 980]
    by (auto simp: synced_def simp del: synced_simps)
  then obtain c where c: "w_body w = JObj [(''data'', JStr c)]" by blast
  let ?h = "(sample_http (Some c))\<lparr>h_auth := hdr\<rparr>"
  have tok: "request_token NodeBeneficiary ?h ?s = Some ''t''"
    using sample_token [of NodeBeneficiary "Some c" "Some sample_wallet" Garbled] by (simp add: request_token_def)
  have unix: "UnixRangeAuth (h_now ?h) (h_unix ?h) = []" using sample_unix [of "Some c"] by simp
  have hash: "w_PasswordHash sample_wallet = PasswordHash (bytes_of ''pw'')" by (simp add: sample_wallet_def)
  have seed: "seed ?st = Some (seedHash std_cryptojs ''pw'')" by (simp add: sample_client_def)
  obtain ps where ps: "cfg_file (ds_node ?s) = Some (JObj ps)" by (simp add: sample_node_def)
  have act: "ba_next std_cryptojs all_rules ?d = Some (setBeneficiaryAddr std_cryptojs ''pw'' (JStr a))"
    using beneficiary_clicked(1) [OF all_rules_ok _ , of ?d std_cryptojs ?st hdr] hdr by simp
  have dlg: "ba_step ?d = 2" "ba_password ?d = ''pw''" "ba_beneficiaryAddr ?d = a" by simp_all
  have clock: "(0 :: int) \<le> 980" "980 < (10 ^ 15 :: int)" "h_now ?h - 20 \<le> 980" "980 < h_now ?h + 20" by simp_all
  have srv: "ds_wallet ?s = Some sample_wallet" "h_writable ?h" "(\<lambda>_. True) (beneficiary_reply a sample_node)" by simp_all
  note flow = beneficiary_reaches_node [where nd = sample_node and callback_ok = "\<lambda>_. True", OF std_cryptojs_ok all_rules_ok dlg a(1)
      sample_synced [of "Some (seedHash std_cryptojs ''pw'')" 980] clock srv(1) hash seed tok unix ps srv(2,3), of 0 std_keylib]
  from flow show ?thesis
  proof (elim exE conjE)
    fix act st1 rq k w' hdr' x
    assume "ba_next std_cryptojs all_rules ?d = Some act" "act ?st = (st1, Await rq k)"
      and w': "onRequest std_cryptojs 0 st1 rq = Some w'" "w_authorization w' = Some hdr'" "w_body w' = JObj [(''data'', JStr x)]"
      and served: "h_auth ?h = hdr' \<and> h_body ?h = Some x \<and>
          (\<forall>i. h_now ?h - 20 \<le> i \<and> i < 980 \<longrightarrow> decrypt_slot (seed_text ?st) ''t'' x i = None) \<longrightarrow>
        (\<exists>s'. if ToScriptHash (kl_Decode std_keylib) a \<noteq> None
          then serve std_keylib NodeBeneficiary ?h ?s = (200, s') \<and> BeneficiaryAddr (params (ds_node s')) = a \<and>
            cfg_file (ds_node s') = Some (JObj (obj_set ''BeneficiaryAddr'' (JStr a) ps)) \<and>
            \<not> ba_visible (fst (ba_click std_cryptojs all_rules (\<lambda>_. True) (\<lambda>_. http_outcome 200 (beneficiary_reply a sample_node)) (?d, ?st)))
          else serve std_keylib NodeBeneficiary ?h ?s = (400, s') \<and> ds_node s' = ds_node ?s \<and>
            ba_beneficiaryAddrErrorMessage (fst (ba_click std_cryptojs all_rules (\<lambda>_. True) (\<lambda>_. http_outcome 400 JUndef) (?d, ?st))) =
              ''settings.BENEFICIARY_ERROR'')"
    then have "st1 = ?st\<lparr>authorization := Some hdr\<rparr>" "rq = ?rq"
      using act hdr by (auto simp: setBeneficiaryAddr_def with_auth_def)
    with w w' c have "hdr' = hdr" "x = c" by auto
    with served a show ?thesis by auto
  qed
qed

text \<open>
  C15: the secret seed that the dialog shows is the wallet's. With the right password and in a session of this
  wallet, the server hands out the seed of the wallet's account, sealed; the browser opens the answer
  to just this value, and the dialog shows it.
\<close>

theorem secret_seed_reaches_dialog:
  assumes "cryptojs_std cj" and "form_std validate" and "sd_password d = pw" and "pw \<noteq> []"
    and "synced st tok n" and "20 \<le> n" and "n < 10 ^ 14" and "h_now h - 20 < n" and "n < h_now h + 20"
    and "ds_wallet s = Some wal" and "w_PasswordHash wal = PasswordHash (bytes_of pw)" and "seed st = Some (seedHash cj pw)"
    and "data = JObj [(''secretSeed'', JStr (hex_encode (GetSeedFromPrivateKey (ac_PrivateKey (w_account wal)))))]"
    and "json_parse buf = Some data" and "utf8_ok (bytes_of buf)"
  shows "\<exists>hdr c. auth_value cj (common st) pw = Some hdr \<and>
    wallet_details_data (request_context h (Some tok) s) hdr s = Inr data \<and>
    EncryptData (request_context h (Some tok) s) True (Some buf) = Some c \<and>
    (\<not> salted (box_bytes (slot_seedHash (seed_text st) tok (h_now h)) buf) \<and>
     (\<forall>i. n - 20 \<le> i \<and> i < h_now h \<longrightarrow> open_at cj st (JStr c) i = None) \<longrightarrow>
       onResponse cj st (JObj [(''data'', JStr c)]) = Some (Some data)) \<and>
    sd_secretSeed (fst (sd_click cj validate (\<lambda>_. Resp data JUndef) (d, st))) =
      JStr (hex_encode (GetSeedFromPrivateKey (ac_PrivateKey (w_account wal))))"
proof -
  let ?ctx = "request_context h (Some tok) s"
  have sd: "context_seed ?ctx True = seed_text st" by (rule session_seed [OF assms(1,10-12)])
  obtain hdr where hdr: "auth_value cj (common st) pw = Some hdr" "WalletAuth ?ctx hdr = None"
    using auth_accepted [OF assms(1,5), of ?ctx pw] assms(6-11) by auto
  have "wallet_details_data ?ctx hdr s = Inr data" using hdr(2) assms(10,13) by (simp add: wallet_details_data_def)
  moreover obtain c where c: "EncryptData ?ctx True (Some buf) = Some c"
    using EncryptData_seal [of ?ctx tok True buf] by simp
  moreover have "onResponse cj st (JObj [(''data'', JStr c)]) = Some (Some data)"
    if "\<not> salted (box_bytes (slot_seedHash (seed_text st) tok (h_now h)) buf)"
      "\<forall>i. n - 20 \<le> i \<and> i < h_now h \<longrightarrow> open_at cj st (JStr c) i = None"
    using sealed_response [OF assms(1,5-7) _ sd _ _ assms(14,15)] c that assms(8,9) by simp
  moreover have "sd_secretSeed (fst (sd_click cj validate (\<lambda>_. Resp data JUndef) (d, st))) =
      JStr (hex_encode (GetSeedFromPrivateKey (ac_PrivateKey (w_account wal))))"
    using seed_clicked [OF assms(2), of d cj st hdr data] assms(3,4,13) hdr(1) by simp
  ultimately show ?thesis using hdr(1) by blast
qed

theorem secret_seed_reaches_dialog_witness:
  "\<exists>hdr. wallet_details_data (request_context (sample_http None) (Some ''t'') (sample_dashboard (Some sample_wallet) Absent)) hdr
     (sample_dashboard (Some sample_wallet) Absent) = Inr (JObj [(''secretSeed'', JStr (hex_encode (replicate 32 7)))])"
proof -
  let ?data = "JObj [(''secretSeed'', JStr (hex_encode (replicate 32 (7 :: byte))))]"
  have key: "GetSeedFromPrivateKey (ac_PrivateKey (w_account sample_wallet)) = replicate 32 7"
    by (simp add: sample_wallet_def key_account_def GetSeedFromPrivateKey_def SeedSize_def sample_entropy_def)
  have parse: "json_parse (json_str ?data) = Some ?data" by (rule json_parse_str) simp
  have utf8: "utf8_ok (bytes_of (json_str ?data))" by code_simp
  have hash: "w_PasswordHash sample_wallet = PasswordHash (bytes_of ''pw'')" by (simp add: sample_wallet_def)
  from secret_seed_reaches_dialog [where d = "(sd_init True)\<lparr>sd_password := ''pw''\<rparr>" and h = "sample_http None"
      and s = "sample_dashboard (Some sample_wallet) Absent" and pw = "''pw''" and data = ?data,
      OF std_cryptojs_ok all_rules_ok _ _ sample_synced [of "Some (seedHash std_cryptojs ''pw'')" 1000] _ _ _ _ _ hash _ _ parse utf8]
  show ?thesis using key by (auto simp: sample_client_def)
qed

text \<open>
  C17: a session lasts while the page is open. Starting from a state in which both ends hold the same token
  and seed, however the background tasks interleave and whatever they are answered, as long as the
  token is not exchanged: if the ticks of the browser's timer keep within the server's window,
  the next sealed request is accepted.
\<close>

theorem session_lasts:
  assumes "cryptojs_std cj" and "bg_run v ls v'" and "pending_ok v" and "store_ok (w_client v)" and "list_all no_token_answer ls"
    and "synced (w_client v) tok n" and "0 \<le> n" and "n + ticks ls < 10 ^ 15"
    and "ctx_token ctx = Some tok" and "context_seed ctx True = seed_text (w_client v)"
    and "ctx_now ctx - 20 \<le> n + ticks ls" and "n + ticks ls < ctx_now ctx + 20"
    and "req_body rq = JObj ps" and "json_wf (JObj ps)"
  shows "\<exists>w c m. onRequest cj now_ms (w_client v') rq = Some w \<and> w_body w = JObj [(''data'', JStr c)] \<and>
    DecryptData ctx True (Some c) = Inr m"
proof -
  have "synced (w_client v') tok (n + ticks ls)"
    using bg_run_clock [OF assms(2,3,5-7)] assms(8) by simp
  moreover have "context_seed ctx True = seed_text (w_client v')"
    using bg_run_keeps [OF assms(2-4)] assms(10) by (simp add: same_session_def seed_text_def)
  moreover have "0 \<le> n + ticks ls" using assms(7) ticks_nonneg [of ls] by simp
  ultimately show ?thesis
    using sealed_request [OF assms(1) _ _ assms(8,9) _ assms(11-14), of "w_client v'" True now_ms] by blast
qed

theorem session_lasts_witness:
  "\<exists>w c m. onRequest std_cryptojs 0 (w_client (tickTask \<lparr>w_client = sample_client (Some (seedHash std_cryptojs ''pw'')) 980, w_pending = []\<rparr>))
      \<lparr>req_method = PUT, req_url = ''/api/node/config'', req_body = JObj []\<rparr> = Some w \<and>
    w_body w = JObj [(''data'', JStr c)] \<and> DecryptData (sample_context ''pw'' 1000) True (Some c) = Inr m"
proof (rule session_lasts [where ps = "[]", OF std_cryptojs_ok])
  let ?w = "\<lparr>w_client = sample_client (Some (seedHash std_cryptojs ''pw'')) 980, w_pending = []\<rparr> :: world"
  have "bg_step ?w (Fired 2) (snd (timers ! 2) ?w)" by (rule bg_step.fire) (simp add: timers_def)
  then show "bg_run ?w ([] @ [Fired 2]) (tickTask ?w)"
    by (intro bg_run.more [OF bg_run.idle]) (simp add: timers_def)
  show "synced (w_client ?w) ''t'' 980" by simp
  show "context_seed (sample_context ''pw'' 1000) True = seed_text (w_client ?w)" 
    using sample_seed [of "''pw''" 980 1000] by simp
  show "store_ok (w_client ?w)"
    by (simp add: store_ok_def sample_client_def client_init_def Web_Store.node_init_def wallet_init_def)
qed (simp_all add: pending_ok_def no_token_answer_def ticks_def)

end
