(* ===== verification/Go_Signing.thy ===== *)
theory Go_Signing
  imports Go_Vault
begin

text \<open>
  Signatures, in Go: \<open>signature/signature.go\<close> and \<open>signature/validation.go\<close>, over \<open>crypto/crypto.go\<close> and \<open>crypto/ed25519/ed25519.go\<close>. The standard library's \<open>ed25519.Sign\<close> and \<open>ed25519.Verify\<close>
  are the parameter \<open>edlib\<close>, with the contract \<open>ed25519_std\<close>.
\<close>

section \<open>ed25519.go, crypto.go\<close>

record edlib =
  ed_Sign :: "bytes \<Rightarrow> bytes \<Rightarrow> bytes"
  ed_Verify :: "bytes \<Rightarrow> bytes \<Rightarrow> bytes \<Rightarrow> bool"

definition PublicKeySize :: nat where
  "PublicKeySize = 32"

definition PrivateKeySize :: nat where
  "PrivateKeySize = 64"

definition crypto_Sign :: "edlib \<Rightarrow> bytes \<Rightarrow> bytes \<Rightarrow> bytes go" where
  "crypto_Sign E privateKey dat = (if length privateKey \<noteq> PrivateKeySize then Err else Ret (ed_Sign E privateKey dat))"

definition crypto_Verify :: "edlib \<Rightarrow> bytes \<Rightarrow> bytes \<Rightarrow> bytes \<Rightarrow> unit go" where
  "crypto_Verify E publicKey dat signature =
     (if length publicKey \<noteq> PublicKeySize then Err
      else if \<not> ed_Verify E publicKey dat signature then Err
      else Ret ())"

definition CheckPublicKey :: "bytes \<Rightarrow> unit go" where
  "CheckPublicKey publicKey = (if length publicKey \<noteq> PublicKeySize then Err else Ret ())"

definition CheckPrivateKey :: "bytes \<Rightarrow> unit go" where
  "CheckPrivateKey privateKey = (if length privateKey \<noteq> PrivateKeySize then Err else Ret ())"

section \<open>signature.go\<close>

text \<open>
  \<open>SignableData\<close>, by what its methods give: the hashes it must be signed for, its programs, and what
  \<open>SerializeUnsigned\<close> writes, in which the programs are not.
\<close>

record SignableData =
  sg_ProgramHashes :: "bytes list option"
  sg_Programs :: "Program list"
  sg_Unsigned :: bytes

definition GetHashData :: "SignableData \<Rightarrow> bytes" where
  "GetHashData d = sg_Unsigned d"

definition GetHashForSigning :: "SignableData \<Rightarrow> bytes" where
  "GetHashForSigning d = sha256 (GetHashData d)"

definition signature_Sign :: "edlib \<Rightarrow> SignableData \<Rightarrow> bytes \<Rightarrow> bytes go" where
  "signature_Sign E d prikey = crypto_Sign E prikey (GetHashForSigning d)"

definition SignBySigner :: "edlib \<Rightarrow> SignableData \<Rightarrow> account \<Rightarrow> bytes go" where
  "SignBySigner E d signer = signature_Sign E d (ac_PrivateKey signer)"

section \<open>validation.go\<close>

definition VerifySignature :: "edlib \<Rightarrow> SignableData \<Rightarrow> bytes \<Rightarrow> bytes \<Rightarrow> bool go" where
  "VerifySignature E d pubKey signature =
     go_bind (crypto_Verify E pubKey (GetHashForSigning d) signature) (\<lambda>_. Ret True)"

text \<open>The body of the loop for one hash and its program; an error of \<open>ToCodeHash\<close> is not looked at, the hash is then zero.\<close>

definition verify_program :: "keylib \<Rightarrow> edlib \<Rightarrow> SignableData \<Rightarrow> bytes \<Rightarrow> Program \<Rightarrow> unit go" where
  "verify_program L E d hash p =
     (let temp = (case ToCodeHash L (pr_Code p) of None \<Rightarrow> replicate UINT160SIZE 0 | Some h \<Rightarrow> h) in
      if hash \<noteq> temp then Err
      else go_bind (go_of (GetPublicKeyFromCode (pr_Code p))) (\<lambda>pk.
           go_bind (CheckPublicKey pk) (\<lambda>_.
           go_bind (go_of (GetSignatureFromParameter (pr_Parameter p))) (\<lambda>signature.
           go_bind (VerifySignature E d pk signature) (\<lambda>_. Ret ())))))"

fun verify_programs :: "keylib \<Rightarrow> edlib \<Rightarrow> SignableData \<Rightarrow> (bytes \<times> Program) list \<Rightarrow> unit go" where
  "verify_programs L E d [] = Ret ()"
| "verify_programs L E d ((hash, p) # rest) =
     go_bind (verify_program L E d hash p) (\<lambda>_. verify_programs L E d rest)"

definition VerifySignableData :: "keylib \<Rightarrow> edlib \<Rightarrow> SignableData \<Rightarrow> unit go" where
  "VerifySignableData L E d =
     go_bind (go_of (sg_ProgramHashes d)) (\<lambda>hashes.
       if length hashes \<noteq> length (sg_Programs d) then Err
       else verify_programs L E d (zip hashes (sg_Programs d)))"

section \<open>The contract of the signatures\<close>

lemma key_account_public [simp]: "ac_PublicKey (key_account L s) = kl_public L s"
  by (simp add: key_account_def)

locale ed25519_std =
  fixes L :: keylib and E :: edlib
  assumes public_length: "length s = SeedSize \<Longrightarrow> length (kl_public L s) = PublicKeySize"
    and sign_length: "length k = PrivateKeySize \<Longrightarrow> length (ed_Sign E k m) = 64"
    and verify: "length s = SeedSize \<Longrightarrow> ed_Verify E (kl_public L s) m (ed_Sign E (s @ kl_public L s) m)"
begin

lemma account_keys:
  assumes "length s = SeedSize"
  shows "length (ac_PrivateKey (key_account L s)) = PrivateKeySize" "length (kl_public L s) = 32"
    "CheckPublicKey (kl_public L s) = Ret ()"
  using public_length [OF assms] assms
  by (simp_all add: key_account_def SeedSize_def PublicKeySize_def PrivateKeySize_def CheckPublicKey_def)

lemma signature_verifies:
  assumes "length s = SeedSize"
  shows "\<exists>sig. SignBySigner E d (key_account L s) = Ret sig \<and> length sig = 64 \<and>
    (\<forall>ps. VerifySignature E (d\<lparr>sg_Programs := ps\<rparr>) (kl_public L s) sig = Ret True)"
  using verify [OF assms, of "GetHashForSigning d"] sign_length [OF account_keys(1) [OF assms]] account_keys [OF assms]
  by (simp add: SignBySigner_def signature_Sign_def crypto_Sign_def VerifySignature_def crypto_Verify_def
      GetHashForSigning_def GetHashData_def key_account_def PublicKeySize_def)

end

text \<open>One instance of the signatures, for the keys of \<open>std_keylib\<close>.\<close>

definition std_edlib :: edlib where
  "std_edlib = \<lparr>ed_Sign = (\<lambda>k m. sha256 (drop 32 k @ m) @ sha256 m),
     ed_Verify = (\<lambda>pub m sig. sig = sha256 (pub @ m) @ sha256 m)\<rparr>"

interpretation std_ed: ed25519_std std_keylib std_edlib
  by unfold_locales (simp_all add: std_keylib_def std_edlib_def SeedSize_def PublicKeySize_def)

lemmas std_edlib_ok = std_ed.ed25519_std_axioms

section \<open>Wallets that can sign\<close>

text \<open>The wallet holds the account and the contract of one seed.\<close>

definition wallet_of_seed :: "keylib \<Rightarrow> wallet \<Rightarrow> bytes \<Rightarrow> bool" where
  "wallet_of_seed L w s \<longleftrightarrow> length s = SeedSize \<and> w_account w = key_account L s \<and>
     w_contract w = key_contract L (kl_public L s)"

lemma account_with_seed_inv:
  assumes "keylib_std L" and "NewAccountWithSeed L s = Ret acc"
  shows "length s = SeedSize \<and> acc = key_account L s"
proof -
  have "length s = SeedSize" using assms(2) by (simp add: NewAccountWithSeed_def CheckSeed_def split: if_splits)
  with keylib_std.account_with_seed [OF assms(1)] assms(2) show ?thesis by (simp add: SeedSize_def)
qed

lemma opened_wallet:
  assumes "keylib_std L" and "OpenWallet L f pw = Ret w"
  shows "\<exists>s. wallet_of_seed L w s"
proof -
  from assms(2) obtain wd acc where w: "DecryptAccount L wd pw = Ret acc" "w_account w = acc"
      "CreateSignatureProgramContext L (ac_PublicKey acc) = Ret (w_contract w)"
    by (auto simp: OpenWallet_def go_bind_Ret split: if_splits)
  from w(1) obtain s where "NewAccountWithSeed L s = Ret acc" by (auto simp: DecryptAccount_def go_bind_Ret)
  from account_with_seed_inv [OF assms(1) this] w(2,3) keylib_std.contexts [OF assms(1)] show ?thesis
    by (auto simp: wallet_of_seed_def)
qed

lemma restored_wallet:
  assumes "keylib_std L" and "RestoreWallet L rnd saved f pw s = Ret (w, f')"
  shows "wallet_of_seed L w s"
proof -
  from assms(2) obtain acc where w: "NewAccountWithSeed L s = Ret acc" "w_account w = acc"
      "CreateSignatureProgramContext L (ac_PublicKey acc) = Ret (w_contract w)"
    by (auto simp: RestoreWallet_def go_bind_Ret split: if_splits)
  from account_with_seed_inv [OF assms(1) w(1)] w(2,3) keylib_std.contexts [OF assms(1)] show ?thesis
    by (auto simp: wallet_of_seed_def)
qed

lemma created_wallet:
  assumes "keylib_std L" and "length (en_seed rnd) = SeedSize" and "NewWallet L rnd saved f pw = Ret (w, f')"
  shows "wallet_of_seed L w (en_seed rnd)"
  using assms(2,3) keylib_std.contexts [OF assms(1)] keylib_std.new_account [OF assms(1)]
  by (auto simp: NewWallet_def go_bind_Ret wallet_of_seed_def split: if_splits)

lemma signature_of_wallet:
  assumes "keylib_std L" and "ed25519_std L E" and "wallet_of_seed L w s"
    and "sg_ProgramHashes d = Some [ac_ProgramHash (w_account w)]"
  shows "\<exists>sig. SignBySigner E d (w_account w) = Ret sig \<and>
    VerifySignableData L E (d\<lparr>sg_Programs := [NewProgram (w_contract w) sig]\<rparr>) = Ret ()"
proof -
  have s: "length s = SeedSize" "w_account w = key_account L s" "w_contract w = key_contract L (kl_public L s)"
    using assms(3) by (simp_all add: wallet_of_seed_def)
  obtain sig where sig: "SignBySigner E d (key_account L s) = Ret sig" "length sig = 64"
      "\<And>ps. VerifySignature E (d\<lparr>sg_Programs := ps\<rparr>) (kl_public L s) sig = Ret True"
    using ed25519_std.signature_verifies [OF assms(2) s(1), of d] by blast
  have "GetPublicKeyFromCode (CreateSignatureProgramCode (kl_public L s)) = Some (kl_public L s)"
    using ed25519_std.account_keys(2) [OF assms(2) s(1)] by (rule code_gives_key)
  with sig s assms(4) parameter_gives_signature [OF sig(2)] ed25519_std.account_keys(3) [OF assms(2) s(1)] show ?thesis
    by (simp add: VerifySignableData_def verify_program_def NewProgram_def key_contract_def key_account_def
        keylib_std.code_hash [OF assms(1)] Let_def)
qed

section \<open>What validation promises\<close>

text \<open>
  What validation promises: data that pass have one program for each hash, and each program carries a signature of
  the data that verifies under the key in its code, which has that hash.
\<close>

lemma verified_data_are_signed:
  assumes "keylib_std L"
  shows "VerifySignableData L E d = Ret () \<longleftrightarrow>
    (\<exists>hashes. sg_ProgramHashes d = Some hashes \<and> list_all2 (\<lambda>h p. h = kl_ripemd160 L (sha256 (pr_Code p)) \<and>
       (\<exists>pk sig. GetPublicKeyFromCode (pr_Code p) = Some pk \<and> GetSignatureFromParameter (pr_Parameter p) = Some sig \<and>
          ed_Verify E pk (sha256 (sg_Unsigned d)) sig)) hashes (sg_Programs d))"
proof -
  let ?ok = "\<lambda>h p. h = kl_ripemd160 L (sha256 (pr_Code p)) \<and>
    (\<exists>pk sig. GetPublicKeyFromCode (pr_Code p) = Some pk \<and> GetSignatureFromParameter (pr_Parameter p) = Some sig \<and>
       ed_Verify E pk (sha256 (sg_Unsigned d)) sig)"
  have len: "length pk = 32" if "GetPublicKeyFromCode c = Some pk" for c pk
    using that by (auto simp: GetPublicKeyFromCode_def split: if_splits)
  have one: "verify_program L E d h p = Ret () \<longleftrightarrow> ?ok h p" for h p
    by (cases "GetPublicKeyFromCode (pr_Code p)"; cases "GetSignatureFromParameter (pr_Parameter p)")
      (auto simp: verify_program_def keylib_std.code_hash [OF assms] CheckPublicKey_def PublicKeySize_def
        VerifySignature_def crypto_Verify_def GetHashForSigning_def GetHashData_def len)
  have all: "verify_programs L E d (zip hs ps) = Ret () \<longleftrightarrow> list_all2 ?ok hs ps" if "length hs = length ps" for hs ps
    using that by (induction hs ps rule: list_induct2) (simp_all add: go_bind_Ret one del: split_paired_Ex)
  show ?thesis by (auto simp: VerifySignableData_def go_bind_Ret all dest: list_all2_lengthD split: if_splits)
qed

end
