(* ===== verification/Go_Transaction.thy ===== *)
theory Go_Transaction
  imports Go_Signing
begin

text \<open>
  Transactions, in Go: the payloads and programs of \<open>pb/transaction.go\<close>, \<open>transaction/payload.go\<close>,
  \<open>transaction/txBuilder.go\<close>, \<open>transaction/transaction.go\<close>, and \<open>Sign\<close> of \<open>vault/wallet.go\<close>. Integers have their width; an \<open>int64\<close> is the word with its bits. The protobuf package is
  the parameter \<open>proto\<close> with the contract \<open>proto_std\<close>; the random bytes of a new transaction are an argument.
\<close>

section \<open>Messages\<close>

datatype message =
    Coinbase (m_Sender: bytes) (m_Recipient: bytes) (m_Amount: "64 word")
  | TransferAsset (m_Sender: bytes) (m_Recipient: bytes) (m_Amount: "64 word")
  | SigChainTxn (m_SigChain: bytes) (m_Submitter: bytes)
  | RegisterName (m_Registrant: bytes) (m_Name: string) (m_RegistrationFee: "64 word")
  | TransferName (m_Name: string) (m_Registrant: bytes) (m_Recipient: bytes)
  | DeleteName (m_Registrant: bytes) (m_Name: string)
  | Subscribe (m_Subscriber: bytes) (m_Identifier: string) (m_Topic: string) (m_Bucket: "32 word")
      (m_Duration: "32 word") (m_Meta: bytes)
  | Unsubscribe (m_Subscriber: bytes) (m_Identifier: string) (m_Topic: string)
  | GenerateID (m_PublicKey: bytes) (m_RegistrationFee: "64 word") (m_Sender: bytes) (m_Version: "32 word")
  | NanoPay (m_Sender: bytes) (m_Recipient: bytes) (m_Id: "64 word") (m_Amount: "64 word")
      (m_TxnExpiration: "32 word") (m_NanoPayExpiration: "32 word")
  | IssueAsset (m_Sender: bytes) (m_Name: string) (m_Symbol: string) (m_TotalSupply: "64 word") (m_Precision: "32 word")

text \<open>The payload type of a message, a number of \<open>pb.PayloadType\<close>.\<close>

fun type_of :: "message \<Rightarrow> 32 word" where
  "type_of (Coinbase _ _ _) = 0"
| "type_of (TransferAsset _ _ _) = 1"
| "type_of (SigChainTxn _ _) = 2"
| "type_of (RegisterName _ _ _) = 3"
| "type_of (TransferName _ _ _) = 4"
| "type_of (DeleteName _ _) = 5"
| "type_of (Subscribe _ _ _ _ _ _) = 6"
| "type_of (Unsubscribe _ _ _) = 7"
| "type_of (GenerateID _ _ _ _) = 8"
| "type_of (NanoPay _ _ _ _ _ _) = 9"
| "type_of (IssueAsset _ _ _ _ _) = 10"

text \<open>\<open>pb_Unmarshal\<close> reads into a new message of the given type.\<close>

record proto =
  pb_Marshal :: "message \<Rightarrow> bytes option"
  pb_Unmarshal :: "32 word \<Rightarrow> bytes \<Rightarrow> message option"

section \<open>pb/transaction.go\<close>

definition Program_Serialize :: "Program \<Rightarrow> bytes" where
  "Program_Serialize p = WriteVarBytes (pr_Parameter p) @ WriteVarBytes (pr_Code p)"

text \<open>\<open>Deserialize\<close> into a value: what it has become, whether there is an error, what is left.\<close>

definition Program_Deserialize :: "Program \<Rightarrow> bytes \<Rightarrow> (Program \<times> bool) \<times> bytes" where
  "Program_Deserialize p r =
     (case ReadVarBytes r of
        (None, r) \<Rightarrow> ((p, True), r)
      | (Some val, r) \<Rightarrow>
          (let p = p\<lparr>pr_Parameter := val\<rparr> in
           case ReadVarBytes r of
             (None, r) \<Rightarrow> ((p\<lparr>pr_Code := []\<rparr>, True), r)
           | (Some code, r) \<Rightarrow> ((p\<lparr>pr_Code := code\<rparr>, False), r)))"

record Payload =
  pl_Type :: "32 word"
  pl_Data :: bytes

definition Payload_Serialize :: "Payload \<Rightarrow> bytes" where
  "Payload_Serialize p = WriteUint32 (pl_Type p) @ WriteVarBytes (pl_Data p)"

definition Payload_Deserialize :: "Payload \<Rightarrow> bytes \<Rightarrow> (Payload \<times> bool) \<times> bytes" where
  "Payload_Deserialize p r =
     (case ReadUint32 r of
        (None, r) \<Rightarrow> ((p, True), r)
      | (Some typ, r) \<Rightarrow>
          (let p = p\<lparr>pl_Type := typ\<rparr> in
           case ReadVarBytes r of
             (None, r) \<Rightarrow> ((p, True), r)
           | (Some dat, r) \<Rightarrow> ((p\<lparr>pl_Data := dat\<rparr>, False), r)))"

section \<open>payload.go\<close>

definition Pack :: "proto \<Rightarrow> 32 word \<Rightarrow> message \<Rightarrow> Payload option" where
  "Pack P plType payload = map_option (\<lambda>d. \<lparr>pl_Type = plType, pl_Data = d\<rparr>) (pb_Marshal P payload)"

definition Unpack :: "proto \<Rightarrow> Payload \<Rightarrow> message option" where
  "Unpack P payload = (if pl_Type payload \<le> 10 then pb_Unmarshal P (pl_Type payload) (pl_Data payload) else None)"

definition NewCoinbase :: "bytes \<Rightarrow> bytes \<Rightarrow> 64 word \<Rightarrow> message" where
  "NewCoinbase sender recipient amount = Coinbase sender recipient amount"

definition NewTransferAsset :: "bytes \<Rightarrow> bytes \<Rightarrow> 64 word \<Rightarrow> message" where
  "NewTransferAsset sender recipient amount = TransferAsset sender recipient amount"

definition NewSigChainTxn :: "bytes \<Rightarrow> bytes \<Rightarrow> message" where
  "NewSigChainTxn sigChain submitter = SigChainTxn sigChain submitter"

definition NewRegisterName :: "bytes \<Rightarrow> string \<Rightarrow> 64 word \<Rightarrow> message" where
  "NewRegisterName registrant nm fee = RegisterName registrant nm fee"

definition NewTransferName :: "bytes \<Rightarrow> bytes \<Rightarrow> string \<Rightarrow> message" where
  "NewTransferName registrant receipt nm = TransferName nm registrant receipt"

definition NewDeleteName :: "bytes \<Rightarrow> string \<Rightarrow> message" where
  "NewDeleteName registrant nm = DeleteName registrant nm"

definition NewSubscribe :: "bytes \<Rightarrow> string \<Rightarrow> string \<Rightarrow> 32 word \<Rightarrow> string \<Rightarrow> message" where
  "NewSubscribe subscriber ident topic duration meta = Subscribe subscriber ident topic 0 duration (bytes_of meta)"

definition NewUnsubscribe :: "bytes \<Rightarrow> string \<Rightarrow> string \<Rightarrow> message" where
  "NewUnsubscribe subscriber ident topic = Unsubscribe subscriber ident topic"

definition NewGenerateID :: "bytes \<Rightarrow> bytes \<Rightarrow> 64 word \<Rightarrow> 32 word \<Rightarrow> message" where
  "NewGenerateID publicKey sender regFee version = GenerateID publicKey regFee sender version"

definition NewNanoPay :: "bytes \<Rightarrow> bytes \<Rightarrow> 64 word \<Rightarrow> 64 word \<Rightarrow> 32 word \<Rightarrow> 32 word \<Rightarrow> message" where
  "NewNanoPay sender recipient ident amount txnExpiration nanoPayExpiration =
     NanoPay sender recipient ident amount txnExpiration nanoPayExpiration"

definition NewIssueAsset :: "bytes \<Rightarrow> string \<Rightarrow> string \<Rightarrow> 32 word \<Rightarrow> 64 word \<Rightarrow> message" where
  "NewIssueAsset sender nm symbol precision totalSupply = IssueAsset sender nm symbol totalSupply precision"

section \<open>transaction.go\<close>

record UnsignedTx =
  ut_Payload :: Payload
  ut_Nonce :: "64 word"
  ut_Fee :: "64 word"
  ut_Attributes :: bytes

record Transaction =
  tx_UnsignedTx :: UnsignedTx
  tx_Programs :: "Program list"
  tx_hash :: "bytes option"
  tx_size :: "32 word"
  tx_isSignatureVerified :: bool

definition NewMsgTx :: "Payload \<Rightarrow> 64 word \<Rightarrow> 64 word \<Rightarrow> bytes \<Rightarrow> Transaction" where
  "NewMsgTx payload nonce fee attrs =
     \<lparr>tx_UnsignedTx = \<lparr>ut_Payload = payload, ut_Nonce = nonce, ut_Fee = fee, ut_Attributes = attrs\<rparr>,
      tx_Programs = [], tx_hash = None, tx_size = 0, tx_isSignatureVerified = False\<rparr>"

definition SerializeUnsigned :: "UnsignedTx \<Rightarrow> bytes" where
  "SerializeUnsigned u =
     Payload_Serialize (ut_Payload u) @ WriteUint64 (ut_Nonce u) @ WriteUint64 (ut_Fee u) @ WriteVarBytes (ut_Attributes u)"

text \<open>The nonce is assigned before its error is looked at.\<close>

definition DeserializeUnsigned :: "UnsignedTx \<Rightarrow> bytes \<Rightarrow> (UnsignedTx \<times> bool) \<times> bytes" where
  "DeserializeUnsigned u r =
     (case Payload_Deserialize (ut_Payload u) r of
        ((p, err), r) \<Rightarrow>
          (let u = u\<lparr>ut_Payload := p\<rparr> in
           if err then ((u, True), r)
           else case ReadUint64 r of
             (None, r) \<Rightarrow> ((u\<lparr>ut_Nonce := 0\<rparr>, True), r)
           | (Some nonce, r) \<Rightarrow>
               (let u = u\<lparr>ut_Nonce := nonce\<rparr> in
                case ReadUint64 r of
                  (None, r) \<Rightarrow> ((u, True), r)
                | (Some fee, r) \<Rightarrow>
                    (let u = u\<lparr>ut_Fee := fee\<rparr> in
                     case ReadVarBytes r of
                       (None, r) \<Rightarrow> ((u, True), r)
                     | (Some val, r) \<Rightarrow> ((u\<lparr>ut_Attributes := val\<rparr>, False), r)))))"

text \<open>Who must sign, by the message that the payload's type selects.\<close>

definition GetProgramHashes :: "keylib \<Rightarrow> proto \<Rightarrow> UnsignedTx \<Rightarrow> bytes list option" where
  "GetProgramHashes L P u =
     (let of_hash = (\<lambda>sender. Some [BytesToUint160 sender]);
          of_key = (\<lambda>publicKey. map_option (\<lambda>h. [h]) (CreateProgramHash L publicKey))
      in case Unpack P (ut_Payload u) of
        None \<Rightarrow> None
      | Some payload \<Rightarrow>
          (case payload of
             SigChainTxn _ submitter \<Rightarrow> of_hash submitter
           | TransferAsset sender _ _ \<Rightarrow> of_hash sender
           | Coinbase sender _ _ \<Rightarrow> of_hash sender
           | RegisterName registrant _ _ \<Rightarrow> of_key registrant
           | TransferName _ registrant _ \<Rightarrow> of_key registrant
           | DeleteName registrant _ \<Rightarrow> of_key registrant
           | Subscribe subscriber _ _ _ _ _ \<Rightarrow> of_key subscriber
           | Unsubscribe subscriber _ _ \<Rightarrow> of_key subscriber
           | GenerateID publicKey _ sender _ \<Rightarrow> if 0 < length sender then of_hash sender else of_key publicKey
           | NanoPay sender _ _ _ _ _ \<Rightarrow> of_hash sender
           | IssueAsset sender _ _ _ _ \<Rightarrow> of_hash sender))"

definition SetPrograms :: "Program list \<Rightarrow> Transaction \<Rightarrow> Transaction" where
  "SetPrograms programs tx = tx\<lparr>tx_Programs := programs\<rparr>"

definition GetPrograms :: "Transaction \<Rightarrow> Program list" where
  "GetPrograms tx = tx_Programs tx"

text \<open>A transaction as signable data.\<close>

definition signable :: "keylib \<Rightarrow> proto \<Rightarrow> Transaction \<Rightarrow> SignableData" where
  "signable L P tx = \<lparr>sg_ProgramHashes = GetProgramHashes L P (tx_UnsignedTx tx), sg_Programs = GetPrograms tx,
     sg_Unsigned = SerializeUnsigned (tx_UnsignedTx tx)\<rparr>"

definition GetMessage :: "keylib \<Rightarrow> proto \<Rightarrow> Transaction \<Rightarrow> bytes" where
  "GetMessage L P tx = GetHashData (signable L P tx)"

definition Transaction_Hash :: "Transaction \<Rightarrow> bytes \<times> Transaction" where
  "Transaction_Hash tx =
     (case tx_hash tx of
        Some h \<Rightarrow> (h, tx)
      | None \<Rightarrow> (let f = sha256 (sha256 (SerializeUnsigned (tx_UnsignedTx tx))) in (f, tx\<lparr>tx_hash := Some f\<rparr>)))"

definition HashToShortHash :: "bytes \<Rightarrow> bytes \<Rightarrow> 32 word \<Rightarrow> bytes" where
  "HashToShortHash hash salt sz =
     (let shortHash = sha256 (hash @ salt) in if 32 < sz then shortHash else take (unat sz) shortHash)"

definition ShortHash :: "Transaction \<Rightarrow> bytes \<Rightarrow> 32 word \<Rightarrow> bytes \<times> Transaction" where
  "ShortHash tx salt sz = (case Transaction_Hash tx of (h, tx) \<Rightarrow> (HashToShortHash h salt sz, tx))"

definition SetHash :: "bytes \<Rightarrow> Transaction \<Rightarrow> Transaction" where
  "SetHash hash tx = tx\<lparr>tx_hash := Some hash\<rparr>"

definition Transaction_VerifySignature :: "keylib \<Rightarrow> edlib \<Rightarrow> proto \<Rightarrow> Transaction \<Rightarrow> unit go \<times> Transaction" where
  "Transaction_VerifySignature L E P tx =
     (if pl_Type (ut_Payload (tx_UnsignedTx tx)) = 0 then (Ret (), tx)
      else if tx_isSignatureVerified tx then (Ret (), tx)
      else case VerifySignableData L E (signable L P tx) of
        Ret u \<Rightarrow> (Ret (), tx\<lparr>tx_isSignatureVerified := True\<rparr>)
      | e \<Rightarrow> (e, tx))"

section \<open>txBuilder.go\<close>

text \<open>What the builders share: packing, and a transaction around the payload.\<close>

definition build :: "proto \<Rightarrow> 32 word \<Rightarrow> message \<Rightarrow> 64 word \<Rightarrow> 64 word \<Rightarrow> bytes \<Rightarrow> Transaction option" where
  "build P typ payload nonce fee attrs = map_option (\<lambda>pl. NewMsgTx pl nonce fee attrs) (Pack P typ payload)"

definition NewTransferAssetTransaction ::
    "proto \<Rightarrow> bytes \<Rightarrow> bytes \<Rightarrow> bytes \<Rightarrow> 64 word \<Rightarrow> 64 word \<Rightarrow> 64 word \<Rightarrow> Transaction option" where
  "NewTransferAssetTransaction P rnd sender recipient nonce val fee =
     build P 1 (NewTransferAsset sender recipient val) nonce fee rnd"

definition NewSigChainTransaction :: "proto \<Rightarrow> bytes \<Rightarrow> bytes \<Rightarrow> bytes \<Rightarrow> 64 word \<Rightarrow> Transaction option" where
  "NewSigChainTransaction P rnd sigChain submitter nonce = build P 2 (NewSigChainTxn sigChain submitter) nonce 0 rnd"

definition NewRegisterNameTransaction ::
    "proto \<Rightarrow> bytes \<Rightarrow> bytes \<Rightarrow> string \<Rightarrow> 64 word \<Rightarrow> 64 word \<Rightarrow> 64 word \<Rightarrow> Transaction option" where
  "NewRegisterNameTransaction P rnd registrant nm nonce regFee fee =
     build P 3 (NewRegisterName registrant nm regFee) nonce fee rnd"

definition NewTransferNameTransaction ::
    "proto \<Rightarrow> bytes \<Rightarrow> bytes \<Rightarrow> bytes \<Rightarrow> string \<Rightarrow> 64 word \<Rightarrow> 64 word \<Rightarrow> Transaction option" where
  "NewTransferNameTransaction P rnd registrant recipient nm nonce fee =
     build P 4 (NewTransferName registrant recipient nm) nonce fee rnd"

definition NewDeleteNameTransaction :: "proto \<Rightarrow> bytes \<Rightarrow> bytes \<Rightarrow> string \<Rightarrow> 64 word \<Rightarrow> 64 word \<Rightarrow> Transaction option" where
  "NewDeleteNameTransaction P rnd registrant nm nonce fee = build P 5 (NewDeleteName registrant nm) nonce fee rnd"

definition NewSubscribeTransaction ::
    "proto \<Rightarrow> bytes \<Rightarrow> bytes \<Rightarrow> string \<Rightarrow> string \<Rightarrow> 32 word \<Rightarrow> string \<Rightarrow> 64 word \<Rightarrow> 64 word \<Rightarrow> Transaction option" where
  "NewSubscribeTransaction P rnd subscriber identifier topic duration meta nonce fee =
     build P 6 (NewSubscribe subscriber identifier topic duration meta) nonce fee rnd"

definition NewUnsubscribeTransaction ::
    "proto \<Rightarrow> bytes \<Rightarrow> bytes \<Rightarrow> string \<Rightarrow> string \<Rightarrow> 64 word \<Rightarrow> 64 word \<Rightarrow> Transaction option" where
  "NewUnsubscribeTransaction P rnd subscriber identifier topic nonce fee =
     build P 7 (NewUnsubscribe subscriber identifier topic) nonce fee rnd"

definition NewGenerateIDTransaction ::
    "proto \<Rightarrow> bytes \<Rightarrow> bytes \<Rightarrow> 64 word \<Rightarrow> 32 word \<Rightarrow> 64 word \<Rightarrow> 64 word \<Rightarrow> bytes \<Rightarrow> Transaction option" where
  "NewGenerateIDTransaction P publicKey sender regFee version nonce fee attrs =
     build P 8 (NewGenerateID publicKey sender regFee version) nonce fee attrs"

definition NewNanoPayTransaction ::
    "proto \<Rightarrow> bytes \<Rightarrow> bytes \<Rightarrow> bytes \<Rightarrow> 64 word \<Rightarrow> 64 word \<Rightarrow> 32 word \<Rightarrow> 32 word \<Rightarrow> Transaction option" where
  "NewNanoPayTransaction P rnd sender recipient ident amount txnExpiration nanoPayExpiration =
     build P 9 (NewNanoPay sender recipient ident amount txnExpiration nanoPayExpiration) 0 0 rnd"

definition NewIssueAssetTransaction ::
    "proto \<Rightarrow> bytes \<Rightarrow> bytes \<Rightarrow> string \<Rightarrow> string \<Rightarrow> 64 word \<Rightarrow> 32 word \<Rightarrow> 64 word \<Rightarrow> 64 word \<Rightarrow> Transaction option" where
  "NewIssueAssetTransaction P rnd sender nm symbol totalSupply precision nonce fee =
     build P 10 (NewIssueAsset sender nm symbol precision totalSupply) nonce fee rnd"

section \<open>wallet.go\<close>

definition Wallet_Sign :: "keylib \<Rightarrow> edlib \<Rightarrow> proto \<Rightarrow> wallet \<Rightarrow> Transaction \<Rightarrow> Transaction go" where
  "Wallet_Sign L E P w txn =
     go_bind (GetContract w) (\<lambda>contract.
     go_bind (GetDefaultAccount w) (\<lambda>acc.
     go_bind (SignBySigner E (signable L P txn) acc) (\<lambda>sig.
       Ret (SetPrograms [NewProgram contract sig] txn))))"

section \<open>The formats read back\<close>

text \<open>A reader that makes its value from one that fills a given value.\<close>

definition read_into :: "('a \<Rightarrow> bytes \<Rightarrow> ('a \<times> bool) \<times> bytes) \<Rightarrow> 'a \<Rightarrow> bytes \<Rightarrow> 'a option \<times> bytes" where
  "read_into des x r = (case des x r of ((y, err), r) \<Rightarrow> (if err then None else Some y, r))"

lemma Program_Deserialize_back:
  assumes "length (pr_Parameter p) < 2 ^ 64" and "length (pr_Code p) < 2 ^ 64"
  shows "Program_Deserialize p0 (Program_Serialize p @ rest) = ((p, False), rest)"
  using assms by (simp add: Program_Deserialize_def Program_Serialize_def var_bytes.read_write)

lemma Payload_Deserialize_back:
  assumes "length (pl_Data p) < 2 ^ 64"
  shows "Payload_Deserialize p0 (Payload_Serialize p @ rest) = ((p, False), rest)"
  using assms by (simp add: Payload_Deserialize_def Payload_Serialize_def var_bytes.read_write uint32.read_write)

lemma DeserializeUnsigned_back:
  assumes "length (pl_Data (ut_Payload u)) < 2 ^ 64" and "length (ut_Attributes u) < 2 ^ 64"
  shows "DeserializeUnsigned u0 (SerializeUnsigned u @ rest) = ((u, False), rest)"
  using assms
  by (simp add: DeserializeUnsigned_def SerializeUnsigned_def Payload_Deserialize_back uint64.read_write
      var_bytes.read_write)

interpretation program_pb: codec Program_Serialize "read_into Program_Deserialize p0"
  "\<lambda>p. length (pr_Parameter p) < 2 ^ 64 \<and> length (pr_Code p) < 2 ^ 64" for p0
  by unfold_locales (simp add: read_into_def Program_Deserialize_back)

interpretation unsigned_tx: codec SerializeUnsigned "read_into DeserializeUnsigned u0"
  "\<lambda>u. length (pl_Data (ut_Payload u)) < 2 ^ 64 \<and> length (ut_Attributes u) < 2 ^ 64" for u0
  by unfold_locales (simp add: read_into_def DeserializeUnsigned_back)

section \<open>The contract of protobuf\<close>

locale proto_std =
  fixes P :: proto
  assumes unmarshal: "pb_Marshal P m = Some d \<Longrightarrow> pb_Unmarshal P (type_of m) d = Some m"
    and unmarshal_type: "pb_Unmarshal P t d = Some m \<Longrightarrow> type_of m = t"
begin

lemma type_of_range: "type_of m \<le> 10"
  by (cases m) simp_all

lemma pack_unpack: "Pack P (type_of m) m = Some pl \<Longrightarrow> Unpack P pl = Some m"
  by (auto simp: Pack_def Unpack_def type_of_range unmarshal)

lemma unpack_type: "Unpack P pl = Some m \<Longrightarrow> pl_Type pl = type_of m"
  by (auto simp: Unpack_def unmarshal_type split: if_splits)

end

text \<open>The account is the one whose signature the message asks for.\<close>

fun own_message :: "account \<Rightarrow> message \<Rightarrow> bool" where
  "own_message acc (Coinbase s _ _) = (s = ac_ProgramHash acc)"
| "own_message acc (TransferAsset s _ _) = (s = ac_ProgramHash acc)"
| "own_message acc (SigChainTxn _ s) = (s = ac_ProgramHash acc)"
| "own_message acc (RegisterName k _ _) = (k = ac_PublicKey acc)"
| "own_message acc (TransferName _ k _) = (k = ac_PublicKey acc)"
| "own_message acc (DeleteName k _) = (k = ac_PublicKey acc)"
| "own_message acc (Subscribe k _ _ _ _ _) = (k = ac_PublicKey acc)"
| "own_message acc (Unsubscribe k _ _) = (k = ac_PublicKey acc)"
| "own_message acc (GenerateID k _ s _) = (if s = [] then k = ac_PublicKey acc else s = ac_ProgramHash acc)"
| "own_message acc (NanoPay s _ _ _ _ _) = (s = ac_ProgramHash acc)"
| "own_message acc (IssueAsset s _ _ _ _) = (s = ac_ProgramHash acc)"

lemma hashes_of_own_message:
  assumes "keylib_std L" and "Unpack P (ut_Payload u) = Some m" and "own_message (key_account L s) m"
  shows "GetProgramHashes L P u = Some [ac_ProgramHash (key_account L s)]"
proof -
  have "BytesToUint160 (ac_ProgramHash (key_account L s)) = ac_ProgramHash (key_account L s)"
    "CreateProgramHash L (ac_PublicKey (key_account L s)) = Some (ac_ProgramHash (key_account L s))"
    using keylib_std.ripemd160_length [OF assms(1)]
    by (simp_all add: BytesToUint160_def key_account_def CreateProgramHash_def keylib_std.code_hash [OF assms(1)])
  then show ?thesis using assms(2,3) by (cases m) (auto simp: GetProgramHashes_def Let_def split: if_splits)
qed

lemma signable_SetPrograms [simp]:
  "signable L P (SetPrograms ps tx) = (signable L P tx)\<lparr>sg_Programs := ps\<rparr>"
  by (simp add: signable_def SetPrograms_def GetPrograms_def)

lemma wallet_signs:
  assumes "keylib_std L" and "ed25519_std L E" and "wallet_of_seed L w s"
    and "GetProgramHashes L P (tx_UnsignedTx tx) = Some [ac_ProgramHash (w_account w)]"
  shows "\<exists>tx'. Wallet_Sign L E P w tx = Ret tx' \<and> tx_UnsignedTx tx' = tx_UnsignedTx tx \<and>
    VerifySignableData L E (signable L P tx') = Ret ()"
proof -
  have "sg_ProgramHashes (signable L P tx) = Some [ac_ProgramHash (w_account w)]" using assms(4) by (simp add: signable_def)
  from signature_of_wallet [OF assms(1-3) this] obtain sig where "SignBySigner E (signable L P tx) (w_account w) = Ret sig"
      "VerifySignableData L E ((signable L P tx)\<lparr>sg_Programs := [NewProgram (w_contract w) sig]\<rparr>) = Ret ()" by blast
  then show ?thesis
    by (intro exI [of _ "SetPrograms [NewProgram (w_contract w) sig] tx"])
      (simp add: Wallet_Sign_def GetContract_def GetDefaultAccount_def SetPrograms_def flip: signable_SetPrograms)
qed

section \<open>An instance of protobuf\<close>

text \<open>The fields of a message, each a byte string, in a row.\<close>

fun fields_of :: "message \<Rightarrow> bytes list" where
  "fields_of (Coinbase s r a) = [s, r, WriteUint64 a]"
| "fields_of (TransferAsset s r a) = [s, r, WriteUint64 a]"
| "fields_of (SigChainTxn c s) = [c, s]"
| "fields_of (RegisterName k n f) = [k, bytes_of n, WriteUint64 f]"
| "fields_of (TransferName n k r) = [bytes_of n, k, r]"
| "fields_of (DeleteName k n) = [k, bytes_of n]"
| "fields_of (Subscribe k i t b d m) = [k, bytes_of i, bytes_of t, WriteUint32 b, WriteUint32 d, m]"
| "fields_of (Unsubscribe k i t) = [k, bytes_of i, bytes_of t]"
| "fields_of (GenerateID k f s v) = [k, WriteUint64 f, s, WriteUint32 v]"
| "fields_of (NanoPay s r i a t n) = [s, r, WriteUint64 i, WriteUint64 a, WriteUint32 t, WriteUint32 n]"
| "fields_of (IssueAsset s n y t p) = [s, bytes_of n, bytes_of y, WriteUint64 t, WriteUint32 p]"

definition n64 :: "bytes \<Rightarrow> 64 word" where
  "n64 b = (case fst (ReadUint64 b) of Some v \<Rightarrow> v | None \<Rightarrow> 0)"

definition n32 :: "bytes \<Rightarrow> 32 word" where
  "n32 b = (case fst (ReadUint32 b) of Some v \<Rightarrow> v | None \<Rightarrow> 0)"

lemma n64_back [simp]: "n64 (WriteUint64 v) = v"
  by (simp add: n64_def uint64.read_alone)

lemma n32_back [simp]: "n32 (WriteUint32 v) = v"
  by (simp add: n32_def uint32.read_alone)

definition message_of :: "32 word \<Rightarrow> bytes list \<Rightarrow> message option" where
  "message_of t fs =
     (let n = length fs; b = (\<lambda>i. fs ! i); s = (\<lambda>i. string_of (fs ! i)); l = (\<lambda>i. n64 (fs ! i)); w = (\<lambda>i. n32 (fs ! i)) in
      if t = 0 \<and> n = 3 then Some (Coinbase (b 0) (b 1) (l 2))
      else if t = 1 \<and> n = 3 then Some (TransferAsset (b 0) (b 1) (l 2))
      else if t = 2 \<and> n = 2 then Some (SigChainTxn (b 0) (b 1))
      else if t = 3 \<and> n = 3 then Some (RegisterName (b 0) (s 1) (l 2))
      else if t = 4 \<and> n = 3 then Some (TransferName (s 0) (b 1) (b 2))
      else if t = 5 \<and> n = 2 then Some (DeleteName (b 0) (s 1))
      else if t = 6 \<and> n = 6 then Some (Subscribe (b 0) (s 1) (s 2) (w 3) (w 4) (b 5))
      else if t = 7 \<and> n = 3 then Some (Unsubscribe (b 0) (s 1) (s 2))
      else if t = 8 \<and> n = 4 then Some (GenerateID (b 0) (l 1) (b 2) (w 3))
      else if t = 9 \<and> n = 6 then Some (NanoPay (b 0) (b 1) (l 2) (l 3) (w 4) (w 5))
      else if t = 10 \<and> n = 5 then Some (IssueAsset (b 0) (s 1) (s 2) (l 3) (w 4))
      else None)"

lemma message_of_fields: "message_of (type_of m) (fields_of m) = Some m"
  by (cases m) (simp_all add: message_of_def)

lemma message_of_type: "message_of t fs = Some m \<Longrightarrow> type_of m = t"
  by (auto simp: message_of_def Let_def split: if_splits)

fun read_fields :: "nat \<Rightarrow> bytes \<Rightarrow> bytes list" where
  "read_fields 0 r = []"
| "read_fields (Suc n) r = (case ReadVarBytes r of (None, _) \<Rightarrow> [] | (Some v, r) \<Rightarrow> v # (if r = [] then [] else read_fields n r))"

lemma WriteVarUint_ne [simp]: "WriteVarUint v \<noteq> []"
  by (simp add: WriteVarUint_def)

lemma read_fields_back:
  "list_all (\<lambda>v. length v < 2 ^ 64) vs \<Longrightarrow> vs \<noteq> [] \<Longrightarrow> length vs \<le> n \<Longrightarrow> read_fields n (concat (map WriteVarBytes vs)) = vs"
proof (induction n arbitrary: vs)
  case (Suc n)
  then obtain v vs' where vs: "vs = v # vs'" by (cases vs) auto
  have "concat (map WriteVarBytes vs') = [] \<longleftrightarrow> vs' = []" by (cases vs') (simp_all add: WriteVarBytes_def)
  with Suc vs show ?case by (auto simp: var_bytes.read_write)
qed simp

definition std_proto :: proto where
  "std_proto = \<lparr>pb_Marshal = (\<lambda>m. if list_all (\<lambda>v. length v < 2 ^ 64) (fields_of m)
       then Some (concat (map WriteVarBytes (fields_of m))) else None),
     pb_Unmarshal = (\<lambda>t d. message_of t (read_fields 6 d))\<rparr>"

lemma fields_of_size: "fields_of m \<noteq> []" "length (fields_of m) \<le> 6"
  by (cases m; simp)+

interpretation std_pb: proto_std std_proto
  by unfold_locales
    (auto simp: std_proto_def read_fields_back fields_of_size message_of_fields split: if_splits dest: message_of_type)

lemmas std_proto_ok = std_pb.proto_std_axioms

section \<open>Properties\<close>

text \<open>
  C13: a transaction is read back from the bytes that are signed, and nothing of what follows is touched. So no two
  different transactions have the same bytes to sign, even as the beginning of something longer.
\<close>

theorem signed_bytes_determine_transaction:
  assumes "length (pl_Data (ut_Payload u)) < 2 ^ 64" and "length (ut_Attributes u) < 2 ^ 64"
    and "length (pl_Data (ut_Payload v)) < 2 ^ 64" and "length (ut_Attributes v) < 2 ^ 64"
  shows "DeserializeUnsigned u0 (SerializeUnsigned u @ rest) = ((u, False), rest) \<and>
    (SerializeUnsigned u @ rest = SerializeUnsigned v @ rest' \<longleftrightarrow> u = v \<and> rest = rest')"
  using assms DeserializeUnsigned_back [OF assms(1,2)] unsigned_tx.write_inject [of u v rest rest'] by simp

theorem signed_bytes_determine_transaction_witness:
  "DeserializeUnsigned \<lparr>ut_Payload = \<lparr>pl_Type = 5, pl_Data = [1]\<rparr>, ut_Nonce = 8, ut_Fee = 9, ut_Attributes = [7]\<rparr>
     (SerializeUnsigned \<lparr>ut_Payload = \<lparr>pl_Type = 1, pl_Data = [4, 2]\<rparr>, ut_Nonce = 300, ut_Fee = - 1, ut_Attributes = []\<rparr> @ [3]) =
   ((\<lparr>ut_Payload = \<lparr>pl_Type = 1, pl_Data = [4, 2]\<rparr>, ut_Nonce = 300, ut_Fee = - 1, ut_Attributes = []\<rparr>, False), [3])"
  by (rule conjunct1 [OF signed_bytes_determine_transaction
        [where v = "\<lparr>ut_Payload = \<lparr>pl_Type = 1, pl_Data = [4, 2]\<rparr>, ut_Nonce = 300, ut_Fee = - 1, ut_Attributes = []\<rparr>"]])
    simp_all

text \<open>
  C12: the node's wallet signs what its account may send. Whether the wallet was made, restored from a seed or opened
  from its file, a transaction packed from a message that names the wallet's program hash or public key as the sender
  is signed, its contents are not changed, and \<open>VerifySignature\<close> accepts it.
\<close>

theorem own_transaction_verifies:
  assumes "keylib_std L" and "ed25519_std L E" and "proto_std P" and "drawn rnd"
    and "NewWallet L rnd saved f pw = Ret (w, f') \<or> RestoreWallet L rnd saved f pw s = Ret (w, f') \<or> OpenWallet L f pw = Ret w"
    and "own_message (w_account w) m" and "build P (type_of m) m nonce fee attrs = Some tx"
  shows "\<exists>tx'. Wallet_Sign L E P w tx = Ret tx' \<and> tx_UnsignedTx tx' = tx_UnsignedTx tx \<and>
    fst (Transaction_VerifySignature L E P tx') = Ret ()"
proof -
  have "length (en_seed rnd) = SeedSize" using assms(4) by (simp add: drawn_def SeedSize_def)
  with assms(5) obtain s where s: "wallet_of_seed L w s"
    using created_wallet [OF assms(1)] restored_wallet [OF assms(1)] opened_wallet [OF assms(1)] by blast
  have "Unpack P (ut_Payload (tx_UnsignedTx tx)) = Some m"
    using assms(7) proto_std.pack_unpack [OF assms(3)] by (auto simp: build_def NewMsgTx_def)
  with hashes_of_own_message [OF assms(1)] assms(6) s
  have "GetProgramHashes L P (tx_UnsignedTx tx) = Some [ac_ProgramHash (w_account w)]" by (simp add: wallet_of_seed_def)
  from wallet_signs [OF assms(1,2) s this] show ?thesis by (auto simp: Transaction_VerifySignature_def)
qed

theorem own_transaction_verifies_witness:
  "\<exists>w f' tx tx'. RestoreWallet std_keylib sample_entropy True Absent (bytes_of ''pw'') (replicate 32 5) = Ret (w, f') \<and>
     NewRegisterNameTransaction std_proto (replicate 32 6) (ac_PublicKey (w_account w)) ''name'' 1 0 0 = Some tx \<and>
     Wallet_Sign std_keylib std_edlib std_proto w tx = Ret tx' \<and>
     fst (Transaction_VerifySignature std_keylib std_edlib std_proto tx') = Ret ()"
proof -
  have d: "drawn sample_entropy" by (simp add: drawn_def sample_entropy_def)
  obtain w f' where w: "RestoreWallet std_keylib sample_entropy True Absent (bytes_of ''pw'') (replicate 32 5) = Ret (w, f')"
    using restored_wallet_opens [OF std_keylib_ok d, of "replicate 32 5" "bytes_of ''pw''"] by auto
  have "length (ac_PublicKey (w_account w)) = 32"
    using restored_wallet [OF std_keylib_ok w] by (simp add: wallet_of_seed_def std_keylib_def)
  then obtain tx where tx: "NewRegisterNameTransaction std_proto (replicate 32 6) (ac_PublicKey (w_account w)) ''name'' 1 0 0 = Some tx"
    by (simp add: NewRegisterNameTransaction_def NewRegisterName_def build_def Pack_def std_proto_def WriteUint64_def)
  let ?m = "RegisterName (ac_PublicKey (w_account w)) ''name'' 0"
  have own: "own_message (w_account w) ?m" by simp
  have "build std_proto (type_of ?m) ?m 1 0 (replicate 32 6) = Some tx"
    using tx unfolding NewRegisterNameTransaction_def NewRegisterName_def by simp
  from own_transaction_verifies [OF std_keylib_ok std_edlib_ok std_proto_ok d disjI2 [OF disjI1 [OF w]] own this]
  obtain tx' where "Wallet_Sign std_keylib std_edlib std_proto w tx = Ret tx'"
      "fst (Transaction_VerifySignature std_keylib std_edlib std_proto tx') = Ret ()" by blast
  with w tx show ?thesis by blast
qed

text \<open>
  Once verified, a transaction passes for good: the flag is not cleared when its programs are replaced.
\<close>

lemma verified_once_is_enough:
  assumes "Transaction_VerifySignature L E P tx = (Ret (), tx')" and "pl_Type (ut_Payload (tx_UnsignedTx tx)) \<noteq> 0"
  shows "Transaction_VerifySignature L E P (SetPrograms ps tx') = (Ret (), SetPrograms ps tx')"
proof -
  have "tx_isSignatureVerified tx'"
    using assms by (auto simp: Transaction_VerifySignature_def split: if_splits go.splits)
  then show ?thesis by (simp add: Transaction_VerifySignature_def SetPrograms_def)
qed

end
