(* ===== verification/Go_TxOrder.thy ===== *)
theory Go_TxOrder
  imports Go_Transaction Js_Value Js_Decimal
begin

text \<open>
  The size of a transaction (\<open>GetSize\<close> of \<open>transaction/transaction.go\<close>) and the orders of \<open>transaction/sort.go\<close>: by nonce, by
  fee, and by fee per byte, which divides doubles. \<open>M\<close> is \<open>proto.Marshal\<close> of a transaction, with no bytes where it
  fails. A comparison also keeps the sizes it computed; that this changes no later result is \<open>GetSize_again\<close>.
\<close>

section \<open>Sizes\<close>

definition GetSize :: "(UnsignedTx \<Rightarrow> Program list \<Rightarrow> bytes) \<Rightarrow> Transaction \<Rightarrow> 32 word \<times> Transaction" where
  "GetSize M tx =
     (if tx_size tx = 0
      then let sz = of_nat (length (M (tx_UnsignedTx tx) (tx_Programs tx))) in (sz, tx\<lparr>tx_size := sz\<rparr>)
      else (tx_size tx, tx))"

lemma GetSize_again: "GetSize M (snd (GetSize M tx)) = GetSize M tx"
  by (simp add: GetSize_def Let_def)

text \<open>
  The size that was computed once stays: after signing it is still that of the transaction without programs.
\<close>

lemma size_before_signing:
  assumes "fst (GetSize M tx) \<noteq> 0"
  shows "fst (GetSize M (SetPrograms ps (snd (GetSize M tx)))) = fst (GetSize M tx)"
  using assms by (auto simp: GetSize_def SetPrograms_def Let_def)

section \<open>Orders\<close>

abbreviation fee_of :: "Transaction \<Rightarrow> int" where
  "fee_of tx \<equiv> sint (ut_Fee (tx_UnsignedTx tx))"

definition SortTxnsByNonce_Less :: "Transaction \<Rightarrow> Transaction \<Rightarrow> bool" where
  "SortTxnsByNonce_Less t u \<longleftrightarrow> ut_Nonce (tx_UnsignedTx t) < ut_Nonce (tx_UnsignedTx u)"

definition CompareTxnsByFee :: "(UnsignedTx \<Rightarrow> Program list \<Rightarrow> bytes) \<Rightarrow> Transaction \<Rightarrow> Transaction \<Rightarrow> int" where
  "CompareTxnsByFee M txn1 txn2 =
     (if fee_of txn1 > fee_of txn2 then 1
      else if fee_of txn1 < fee_of txn2 then - 1
      else if fst (GetSize M txn1) > fst (GetSize M txn2) then - 1
      else if fst (GetSize M txn1) < fst (GetSize M txn2) then 1
      else 0)"

definition IsLowFeeTxn :: "int \<Rightarrow> Transaction \<Rightarrow> bool" where
  "IsLowFeeTxn LowTxnFee txn \<longleftrightarrow> fee_of txn < LowTxnFee"

text \<open>\<open>float64(fee) / float64(size)\<close>, for a size that is not zero.\<close>

definition feePerSize :: "int \<Rightarrow> 32 word \<Rightarrow> jsnum" where
  "feePerSize fee sz = (case (dbl (of_int fee), dbl (of_int (uint sz))) of (Fin a, Fin b) \<Rightarrow> dbl (a / b) | _ \<Rightarrow> NaN)"

definition CompareTxnsByFeePerSize :: "(UnsignedTx \<Rightarrow> Program list \<Rightarrow> bytes) \<Rightarrow> Transaction \<Rightarrow> Transaction \<Rightarrow> int" where
  "CompareTxnsByFeePerSize M txn1 txn2 =
     (let rate = (\<lambda>txn. if fst (GetSize M txn) > 0 then feePerSize (fee_of txn) (fst (GetSize M txn)) else Fin 0);
          feePerSize1 = rate txn1; feePerSize2 = rate txn2
      in if num_lt feePerSize2 feePerSize1 then 1
         else if num_lt feePerSize1 feePerSize2 then - 1
         else 0)"

definition IsLowFeePerSizeTxn :: "(UnsignedTx \<Rightarrow> Program list \<Rightarrow> bytes) \<Rightarrow> jsnum \<Rightarrow> Transaction \<Rightarrow> bool" where
  "IsLowFeePerSizeTxn M LowTxnFeePerSize txn \<longleftrightarrow>
     (if fst (GetSize M txn) = 0 then True
      else num_lt (feePerSize (fee_of txn) (fst (GetSize M txn))) LowTxnFeePerSize)"

definition byProgramHashes_Less :: "bytes \<Rightarrow> bytes \<Rightarrow> bool" where
  "byProgramHashes_Less a b \<longleftrightarrow> (if Uint160_CompareTo a b > 0 then False else True)"

section \<open>They are orders\<close>

text \<open>
  A comparison that sorting may use: swapping the arguments changes the sign, and not being greater is transitive.
\<close>

locale comparison =
  fixes cmp :: "'a \<Rightarrow> 'a \<Rightarrow> int"
  assumes swap: "cmp y x = - cmp x y"
    and trans: "cmp x y \<le> 0 \<Longrightarrow> cmp y z \<le> 0 \<Longrightarrow> cmp x z \<le> 0"
begin

lemma equal_self: "cmp x x = 0"
  using swap [of x x] by simp

lemma less_trans: "cmp x y < 0 \<Longrightarrow> cmp y z < 0 \<Longrightarrow> cmp x z < 0"
proof -
  assume xy: "cmp x y < 0" and yz: "cmp y z < 0"
  then have le: "cmp x z \<le> 0" by (intro trans [of x y z]) simp_all
  show ?thesis
  proof (rule ccontr)
    assume "\<not> cmp x z < 0"
    with le have "cmp z x \<le> 0" using swap [of x z] by simp
    then have "cmp y x \<le> 0" using yz by (intro trans [of y z x]) simp_all
    with xy swap [of x y] show False by simp
  qed
qed

lemma incomparable_trans: "cmp x y = 0 \<Longrightarrow> cmp y z = 0 \<Longrightarrow> cmp x z = 0"
  using trans [of x y z] trans [of z y x] swap [of x y] swap [of y z] swap [of x z] by simp

end

interpretation by_fee: comparison "CompareTxnsByFee M" for M
  by unfold_locales (auto simp: CompareTxnsByFee_def split: if_splits)

lemma dbl_not_NaN: "dbl q \<noteq> NaN"
  by (simp add: dbl_def Let_def)

lemma num_lt_total: "x \<noteq> NaN \<Longrightarrow> y \<noteq> NaN \<Longrightarrow> \<not> num_lt x y \<Longrightarrow> \<not> num_lt y x \<Longrightarrow> x = y"
  by (cases x; cases y) auto

lemma num_lt_trans: "num_lt x y \<Longrightarrow> num_lt y z \<Longrightarrow> num_lt x z"
  by (cases x; cases y; cases z) auto

lemma num_lt_irrefl: "\<not> num_lt x x"
  by (cases x) auto

lemma dbl_pos_int_finite:
  assumes "0 < n" and "n < 2 ^ 64"
  shows "\<exists>r. dbl (of_int n) = Fin r"
proof (rule dbl_finite)
  show "0 < (of_int n :: rat)" using assms(1) by simp
  have "1 / 2 ^ 1022 \<le> (1 :: rat)" by simp
  also have "\<dots> \<le> of_int n" using assms(1) by simp
  finally show "1 / 2 ^ 1022 \<le> (of_int n :: rat)" .
  have "(of_int n :: rat) < of_int (2 ^ 64)" using assms(2) by (simp only: of_int_less_iff)
  also have "\<dots> \<le> 2 ^ 100" by simp
  finally show "(of_int n :: rat) < 2 ^ 100" .
qed blast

lemma dbl_int_finite:
  assumes "\<bar>n\<bar> < 2 ^ 64"
  shows "\<exists>r. dbl (of_int n) = Fin r"
proof (cases n "0 :: int" rule: linorder_cases)
  case less
  then obtain r where "dbl (of_int (- n)) = Fin r" using dbl_pos_int_finite [of "- n"] assms by auto
  then have "dbl (- of_int (- n)) = Fin (- r)" by (simp only: dbl_minus jsnum.case)
  then show ?thesis by simp
next
  case equal
  then show ?thesis using dbl_int [of 0] by simp
next
  case greater
  with assms show ?thesis by (intro dbl_pos_int_finite) simp_all
qed

lemma feePerSize_not_NaN:
  assumes "\<bar>fee\<bar> < 2 ^ 64"
  shows "feePerSize fee sz \<noteq> NaN"
proof -
  have "uint sz < 2 ^ 32" using uint_lt2p [of sz] by simp
  then obtain b where "dbl (of_int (uint sz)) = Fin b" using dbl_int_finite [of "uint sz"] by auto
  moreover obtain a where "dbl (of_int fee) = Fin a" using dbl_int_finite [OF assms] by blast
  ultimately show ?thesis by (simp add: feePerSize_def dbl_not_NaN)
qed

interpretation by_rate: comparison "CompareTxnsByFeePerSize M" for M
proof
  define rate where "rate = (\<lambda>txn. if fst (GetSize M txn) > 0 then feePerSize (fee_of txn) (fst (GetSize M txn)) else Fin 0)"
  have c: "CompareTxnsByFeePerSize M t u = (if num_lt (rate u) (rate t) then 1 else if num_lt (rate t) (rate u) then - 1 else 0)" for t u
    by (simp add: CompareTxnsByFeePerSize_def rate_def Let_def)
  have n: "rate t \<noteq> NaN" for t
    using sint_bounds [of "ut_Fee (tx_UnsignedTx t)"] by (auto simp: rate_def intro!: feePerSize_not_NaN)
  show "CompareTxnsByFeePerSize M u t = - CompareTxnsByFeePerSize M t u" for t u
    using num_lt_trans num_lt_irrefl by (auto simp: c)
  show "CompareTxnsByFeePerSize M t v \<le> 0"
    if "CompareTxnsByFeePerSize M t u \<le> 0" "CompareTxnsByFeePerSize M u v \<le> 0" for t u v
  proof -
    have "\<not> num_lt (rate u) (rate t)" "\<not> num_lt (rate v) (rate u)" using that by (auto simp: c split: if_splits)
    then have "\<not> num_lt (rate v) (rate t)"
      using num_lt_total [OF n n] num_lt_trans by metis
    then show ?thesis by (simp add: c)
  qed
qed

text \<open>
  \<open>Less\<close> of \<open>byProgramHashes\<close> holds of equal hashes in both directions, which sorting forbids.
\<close>

lemma byProgramHashes_reflexive: "byProgramHashes_Less a a"
proof -
  have "compare_bytes a a = 0" by (induction a) simp_all
  then show ?thesis by (simp add: byProgramHashes_Less_def Uint160_CompareTo_def)
qed

end
