(* ===== verification/Go_Queue.thy ===== *)
theory Go_Queue
  imports Prelude "HOL-Library.Multiset"
begin

text \<open>
  The priority queue of \<open>common/prque.go\<close>, with the functions of \<open>container/heap\<close> that it calls. The items are shared: the
  heap and the table \<open>lookup\<close> hold pointers to them, and a change through one is seen through the other. So
  the items live in a memory \<open>q_mem\<close>, a pointer is a position in it, and \<open>new\<close> appends. Values are of any type
  with equality.
\<close>

section \<open>The queue\<close>

record 'v item =
  it_value :: 'v
  it_priority :: "64 word"
  it_index :: nat

record 'v PriorityQueue =
  q_mem :: "'v item list"
  q_heap :: "nat list"
  q_lookup :: "'v \<Rightarrow> nat option"

definition NewPrque :: "'v PriorityQueue" where
  "NewPrque = \<lparr>q_mem = [], q_heap = [], q_lookup = (\<lambda>_. None)\<rparr>"

section \<open>itemHeap\<close>

definition heap_at :: "'v PriorityQueue \<Rightarrow> nat \<Rightarrow> 'v item" where
  "heap_at q i = q_mem q ! (q_heap q ! i)"

definition Less :: "'v PriorityQueue \<Rightarrow> nat \<Rightarrow> nat \<Rightarrow> bool" where
  "Less q i j \<longleftrightarrow> sint (it_priority (heap_at q i)) > sint (it_priority (heap_at q j))"

definition set_index :: "nat \<Rightarrow> nat \<Rightarrow> 'v PriorityQueue \<Rightarrow> 'v PriorityQueue" where
  "set_index a i q = q\<lparr>q_mem := (q_mem q)[a := (q_mem q ! a)\<lparr>it_index := i\<rparr>]\<rparr>"

definition Swap :: "nat \<Rightarrow> nat \<Rightarrow> 'v PriorityQueue \<Rightarrow> 'v PriorityQueue" where
  "Swap i j q =
     (let h = (q_heap q)[i := q_heap q ! j, j := q_heap q ! i]
      in set_index (h ! j) j (set_index (h ! i) i (q\<lparr>q_heap := h\<rparr>)))"

definition itemHeap_Push :: "nat \<Rightarrow> 'v PriorityQueue \<Rightarrow> 'v PriorityQueue" where
  "itemHeap_Push a q = (set_index a (length (q_heap q)) q)\<lparr>q_heap := q_heap q @ [a]\<rparr>"

definition itemHeap_Pop :: "'v PriorityQueue \<Rightarrow> nat \<times> 'v PriorityQueue" where
  "itemHeap_Pop q = (last (q_heap q), q\<lparr>q_heap := butlast (q_heap q)\<rparr>)"

section \<open>container/heap\<close>

text \<open>The parent of a position; that of the root is the root.\<close>

definition parent :: "nat \<Rightarrow> nat" where
  "parent j = (j - 1) div 2"

function heap_up :: "'v PriorityQueue \<Rightarrow> nat \<Rightarrow> 'v PriorityQueue" where
  "heap_up q j =
     (let i = parent j in
      if i = j \<or> \<not> Less q j i then q else heap_up (Swap i j q) i)"
  by auto
termination
  by (relation "measure snd") (auto simp: parent_def)

text \<open>The loop of \<open>down\<close>, with the last position it reached.\<close>

function heap_down :: "'v PriorityQueue \<Rightarrow> nat \<Rightarrow> nat \<Rightarrow> 'v PriorityQueue \<times> nat" where
  "heap_down q i n =
     (let j1 = 2 * i + 1 in
      if j1 \<ge> n then (q, i)
      else let j2 = j1 + 1;
               j = (if j2 < n \<and> Less q j2 j1 then j2 else j1)
           in if \<not> Less q j i then (q, i) else heap_down (Swap i j q) j n)"
  by auto
termination
  by (relation "measure (\<lambda>(q, i, n). n - i)") auto

declare heap_up.simps [simp del]
declare heap_down.simps [simp del]

definition heap_Push :: "nat \<Rightarrow> 'v PriorityQueue \<Rightarrow> 'v PriorityQueue" where
  "heap_Push a q = (let q = itemHeap_Push a q in heap_up q (length (q_heap q) - 1))"

definition heap_Pop :: "'v PriorityQueue \<Rightarrow> nat \<times> 'v PriorityQueue" where
  "heap_Pop q = (let n = length (q_heap q) - 1 in itemHeap_Pop (fst (heap_down (Swap 0 n q) 0 n)))"

definition heap_Fix :: "nat \<Rightarrow> 'v PriorityQueue \<Rightarrow> 'v PriorityQueue" where
  "heap_Fix i q = (case heap_down q i (length (q_heap q)) of (q', k) \<Rightarrow> if i < k then q' else heap_up q' i)"

section \<open>Operations\<close>

definition Len :: "'v PriorityQueue \<Rightarrow> nat" where
  "Len q = length (q_heap q)"

definition Empty :: "'v PriorityQueue \<Rightarrow> bool" where
  "Empty q \<longleftrightarrow> length (q_heap q) = 0"

definition Push :: "'v \<Rightarrow> 64 word \<Rightarrow> 'v PriorityQueue \<Rightarrow> 'v PriorityQueue" where
  "Push v priority q =
     (case q_lookup q v of
        Some _ \<Rightarrow> q
      | None \<Rightarrow>
          (let newItem = length (q_mem q);
               q = heap_Push newItem (q\<lparr>q_mem := q_mem q @ [\<lparr>it_value = v, it_priority = priority, it_index = 0\<rparr>]\<rparr>)
           in q\<lparr>q_lookup := (q_lookup q)(v := Some newItem)\<rparr>))"

definition Pop :: "'v PriorityQueue \<Rightarrow> ('v \<times> 64 word) option \<times> 'v PriorityQueue" where
  "Pop q =
     (if length (q_heap q) = 0 then (None, q)
      else case heap_Pop q of
        (a, q) \<Rightarrow>
          (let it = q_mem q ! a
           in (Some (it_value it, it_priority it), q\<lparr>q_lookup := (q_lookup q)(it_value it := None)\<rparr>)))"

definition UpdatePriority :: "'v \<Rightarrow> 64 word \<Rightarrow> 'v PriorityQueue \<Rightarrow> 'v PriorityQueue" where
  "UpdatePriority x newPriority q =
     (case q_lookup q x of
        None \<Rightarrow> q
      | Some a \<Rightarrow>
          (let q = q\<lparr>q_mem := (q_mem q)[a := (q_mem q ! a)\<lparr>it_priority := newPriority\<rparr>]\<rparr>
           in heap_Fix (it_index (q_mem q ! a)) q))"

section \<open>Order of the keys\<close>

text \<open>The priorities in the order of the heap, and the loops on them.\<close>

definition keys :: "'v PriorityQueue \<Rightarrow> int list" where
  "keys q = map (\<lambda>a. sint (it_priority (q_mem q ! a))) (q_heap q)"

definition key_swap :: "nat \<Rightarrow> nat \<Rightarrow> int list \<Rightarrow> int list" where
  "key_swap i j ks = ks[i := ks ! j, j := ks ! i]"

lemma length_key_swap [simp]: "length (key_swap i j ks) = length ks"
  by (simp add: key_swap_def)

lemma key_swap_nth: "i < length ks \<Longrightarrow> j < length ks \<Longrightarrow> c < length ks \<Longrightarrow>
    key_swap i j ks ! c = (if c = j then ks ! i else if c = i then ks ! j else ks ! c)"
  by (simp add: key_swap_def nth_list_update)

text \<open>A position is in order with its parent; all positions but one and its children are.\<close>

definition ord :: "int list \<Rightarrow> nat \<Rightarrow> bool" where
  "ord ks c \<longleftrightarrow> ks ! c \<le> ks ! parent c"

definition ordered :: "int list \<Rightarrow> nat \<Rightarrow> bool" where
  "ordered ks n \<longleftrightarrow> (\<forall>c. 0 < c \<and> c < n \<longrightarrow> ord ks c)"

definition ordered_but :: "int list \<Rightarrow> nat \<Rightarrow> nat \<Rightarrow> bool" where
  "ordered_but ks n i \<longleftrightarrow> (\<forall>c. 0 < c \<and> c < n \<and> c \<noteq> i \<and> parent c \<noteq> i \<longrightarrow> ord ks c) \<and>
     (\<forall>c. 0 < i \<and> 0 < c \<and> c < n \<and> parent c = i \<longrightarrow> ks ! c \<le> ks ! parent i)"

lemma parent_less: "0 < c \<Longrightarrow> parent c < c"
  by (auto simp: parent_def)

lemma parent_eq: "0 < c \<Longrightarrow> parent c = i \<longleftrightarrow> c = 2 * i + 1 \<or> c = 2 * i + 2"
  by (auto simp: parent_def)

lemma root_largest: "ordered ks n \<Longrightarrow> c < n \<Longrightarrow> ks ! c \<le> ks ! 0"
proof (induction c rule: less_induct)
  case (less c)
  show ?case
  proof (cases "c = 0")
    case False
    then have "ks ! c \<le> ks ! parent c" using less.prems by (simp add: ordered_def ord_def)
    also have "\<dots> \<le> ks ! 0" using less.IH [of "parent c"] less.prems parent_less [of c] False by simp
    finally show ?thesis .
  qed simp
qed

text \<open>One step up: the larger key moves to the parent, which alone may be out of order then.\<close>

lemma up_step:
  assumes "ordered_but ks n j" and "\<forall>c. 0 < c \<and> c < n \<and> parent c = j \<longrightarrow> ord ks c"
    and "0 < j" and "j < n" and "n \<le> length ks" and "ks ! parent j < ks ! j"
  shows "ordered_but (key_swap (parent j) j ks) n (parent j)"
    and "\<forall>c. 0 < c \<and> c < n \<and> parent c = parent j \<longrightarrow> ord (key_swap (parent j) j ks) c"
proof -
  let ?i = "parent j"
  have ij: "?i < j" using assms(3) by (rule parent_less)
  have nth: "key_swap ?i j ks ! c = (if c = j then ks ! ?i else if c = ?i then ks ! j else ks ! c)" if "c < n" for c
    using that assms(4,5) ij by (intro key_swap_nth) auto
  have par: "parent c < n" if "c < n" for c using that parent_less [of c] by (cases "c = 0") (auto simp: parent_def)
  have but: "ks ! c \<le> ks ! parent c" if "0 < c" "c < n" "c \<noteq> j" for c
    using that assms(1,2) by (cases "parent c = j") (auto simp: ordered_but_def ord_def)
  have grand: "ks ! c \<le> ks ! ?i" if "0 < c" "c < n" "parent c = j" for c
    using that assms(1,3) by (auto simp: ordered_but_def)
  show "\<forall>c. 0 < c \<and> c < n \<and> parent c = ?i \<longrightarrow> ord (key_swap ?i j ks) c"
  proof (intro allI impI)
    fix c assume c: "0 < c \<and> c < n \<and> parent c = ?i"
    then have "c \<noteq> ?i" using parent_less [of c] by auto
    then show "ord (key_swap ?i j ks) c"
      using c ij assms(4,6) but [of c] nth [of c] nth [of ?i] by (cases "c = j") (auto simp: ord_def)
  qed
  show "ordered_but (key_swap ?i j ks) n ?i"
    unfolding ordered_but_def
  proof (intro conjI allI impI)
    fix c assume c: "0 < c \<and> c < n \<and> c \<noteq> ?i \<and> parent c \<noteq> ?i"
    then show "ord (key_swap ?i j ks) c"
      using but [of c] grand [of c] nth [of c] nth [of "parent c"] par [of c] by (auto simp: ord_def)
  next
    fix c assume c: "0 < ?i \<and> 0 < c \<and> c < n \<and> parent c = ?i"
    have "ks ! ?i \<le> ks ! parent ?i" using c ij assms(4) by (intro but) auto
    moreover have "parent ?i \<noteq> ?i" "parent ?i \<noteq> j" "parent ?i < n" using c ij parent_less [of ?i] assms(4) by auto
    ultimately show "key_swap ?i j ks ! c \<le> key_swap ?i j ks ! parent ?i"
      using c but [of c] nth [of c] nth [of "parent ?i"] parent_less [of c] by (auto split: if_splits)
  qed
qed

text \<open>One step down: the largest child moves up, and its place alone may be out of order with its children.\<close>

lemma down_step:
  assumes "ordered_but ks n i" and "0 < j" and "j < n" and "parent j = i" and "n \<le> length ks" and "ks ! i < ks ! j"
    and "\<forall>c. 0 < c \<and> c < n \<and> parent c = i \<longrightarrow> ks ! c \<le> ks ! j"
  shows "ordered_but (key_swap i j ks) n j" and "ord (key_swap i j ks) j"
proof -
  have ij: "i < j" using assms(2,4) parent_less by blast
  have nth: "key_swap i j ks ! c = (if c = j then ks ! i else if c = i then ks ! j else ks ! c)" if "c < n" for c
    using that assms(3,5) ij by (intro key_swap_nth) auto
  have par: "parent c < n" if "c < n" for c using that parent_less [of c] by (cases "c = 0") (auto simp: parent_def)
  have but: "ks ! c \<le> ks ! parent c" if "0 < c" "c < n" "c \<noteq> i" "parent c \<noteq> i" for c
    using that assms(1) by (auto simp: ordered_but_def ord_def)
  have grand: "ks ! j \<le> ks ! parent i" if "0 < i" using that assms(1-4) by (auto simp: ordered_but_def)
  show "ord (key_swap i j ks) j" using ij assms(3,4,6) nth [of j] nth [of i] by (simp add: ord_def)
  show "ordered_but (key_swap i j ks) n j"
    unfolding ordered_but_def
  proof (intro conjI allI impI)
    fix c assume c: "0 < c \<and> c < n \<and> c \<noteq> j \<and> parent c \<noteq> j"
    show "ord (key_swap i j ks) c"
    proof (cases "c = i")
      case True
      then show ?thesis using c grand nth [of c] nth [of "parent c"] par [of c] parent_less [of c] by (simp add: ord_def)
    next
      case False
      then show ?thesis using c but [of c] assms(7) nth [of c] nth [of "parent c"] par [of c] by (auto simp: ord_def)
    qed
  next
    fix c assume c: "0 < j \<and> 0 < c \<and> c < n \<and> parent c = j"
    then have "c \<noteq> i" "c \<noteq> j" using ij parent_less [of c] by auto
    then show "key_swap i j ks ! c \<le> key_swap i j ks ! parent j"
      using c ij assms(3,4) but [of c] nth [of c] nth [of i] by auto
  qed
qed

section \<open>The loops restore the order\<close>

lemma set_index_simps [simp]:
  "q_heap (set_index a i q) = q_heap q" "q_lookup (set_index a i q) = q_lookup q"
  "length (q_mem (set_index a i q)) = length (q_mem q)"
  "it_priority (q_mem (set_index a i q) ! b) = it_priority (q_mem q ! b)"
  "it_value (q_mem (set_index a i q) ! b) = it_value (q_mem q ! b)"
  by (simp_all add: set_index_def) (cases "a < length (q_mem q)"; simp add: nth_list_update list_update_beyond)+

lemma Swap_simps [simp]:
  "q_heap (Swap i j q) = (q_heap q)[i := q_heap q ! j, j := q_heap q ! i]" "q_lookup (Swap i j q) = q_lookup q"
  "length (q_mem (Swap i j q)) = length (q_mem q)"
  "it_priority (q_mem (Swap i j q) ! b) = it_priority (q_mem q ! b)"
  "it_value (q_mem (Swap i j q) ! b) = it_value (q_mem q ! b)"
  by (simp_all add: Swap_def Let_def)

lemma length_keys [simp]: "length (keys q) = length (q_heap q)"
  by (simp add: keys_def)

lemma keys_Swap: "i < length (q_heap q) \<Longrightarrow> j < length (q_heap q) \<Longrightarrow> keys (Swap i j q) = key_swap i j (keys q)"
  by (simp add: keys_def key_swap_def map_update)

lemma Less_keys: "i < length (q_heap q) \<Longrightarrow> j < length (q_heap q) \<Longrightarrow> Less q i j \<longleftrightarrow> keys q ! j < keys q ! i"
  by (simp add: Less_def keys_def heap_at_def)

lemma up_order:
  assumes "ordered_but (keys q) n j" and "\<forall>c. 0 < c \<and> c < n \<and> parent c = j \<longrightarrow> ord (keys q) c"
    and "j < n" and "n \<le> length (q_heap q)"
  shows "ordered (keys (heap_up q j)) n"
  using assms
proof (induction q j rule: heap_up.induct)
  case (1 q j)
  have par: "parent j < n" using 1(4) parent_less [of j] by (cases "j = 0") (auto simp: parent_def)
  show ?case
  proof (cases "parent j = j \<or> \<not> Less q j (parent j)")
    case True
    then have "0 < j \<longrightarrow> ord (keys q) j"
      using parent_less [of j] 1(4,5) par by (auto simp: Less_keys ord_def not_less)
    then have "ordered (keys q) n" using 1(2,3) by (auto simp: ordered_def ordered_but_def)
    with True show ?thesis by (subst heap_up.simps) simp
  next
    case False
    then have j: "0 < j" "keys q ! parent j < keys q ! j" using 1(4,5) par by (auto simp: Less_keys parent_def intro: ccontr)
    have "keys (Swap (parent j) j q) = key_swap (parent j) j (keys q)" using 1(4,5) par by (intro keys_Swap) auto
    then have "ordered (keys (heap_up (Swap (parent j) j q) (parent j))) n"
      using up_step [OF 1(2,3) j(1) 1(4) _ j(2)] 1(5) par False by (intro 1(1)) simp_all
    with False show ?thesis by (subst heap_up.simps) (simp add: Let_def)
  qed
qed

text \<open>The child that \<open>down\<close> looks at.\<close>

definition child :: "'v PriorityQueue \<Rightarrow> nat \<Rightarrow> nat \<Rightarrow> nat" where
  "child q i n = (if 2 * i + 2 < n \<and> Less q (2 * i + 2) (2 * i + 1) then 2 * i + 2 else 2 * i + 1)"

lemma heap_down_unfold:
  "heap_down q i n = (if n \<le> 2 * i + 1 \<or> \<not> Less q (child q i n) i then (q, i)
     else heap_down (Swap i (child q i n) q) (child q i n) n)"
  by (subst heap_down.simps) (simp add: child_def Let_def)

lemma child_props:
  assumes "2 * i + 1 < n" and "n \<le> length (q_heap q)"
  shows "0 < child q i n" "child q i n < n" "parent (child q i n) = i"
    "\<forall>c. 0 < c \<and> c < n \<and> parent c = i \<longrightarrow> keys q ! c \<le> keys q ! child q i n"
proof -
  show "0 < child q i n" "child q i n < n" "parent (child q i n) = i" using assms by (auto simp: child_def parent_def)
  show "\<forall>c. 0 < c \<and> c < n \<and> parent c = i \<longrightarrow> keys q ! c \<le> keys q ! child q i n"
  proof (intro allI impI)
    fix c assume "0 < c \<and> c < n \<and> parent c = i"
    then have "c < n" "c = 2 * i + 1 \<or> c = 2 * i + 2" using parent_eq [of c i] by auto
    with assms show "keys q ! c \<le> keys q ! child q i n" by (auto simp: child_def Less_keys)
  qed
qed

lemma down_order:
  assumes "ordered_but (keys q) n i" and "0 < i \<longrightarrow> ord (keys q) i" and "i < n" and "n \<le> length (q_heap q)"
  shows "ordered (keys (fst (heap_down q i n))) n"
  using assms
proof (induction q i n rule: heap_down.induct)
  case (1 q i n)
  let ?j = "child q i n"
  show ?case
  proof (cases "n \<le> 2 * i + 1 \<or> \<not> Less q ?j i")
    case True
    have "ord (keys q) c" if c: "0 < c" "c < n" "parent c = i" for c
    proof -
      have "2 * i + 1 < n" using c by (auto simp: parent_eq)
      with c True child_props [of i n q] 1(4,5) show ?thesis by (force simp: Less_keys ord_def)
    qed
    then have "ordered (keys q) n" using 1(2,3) by (auto simp: ordered_def ordered_but_def)
    with True show ?thesis by (simp add: heap_down_unfold [of q i n])
  next
    case False
    then have n: "2 * i + 1 < n" by simp
    note j = child_props [OF n 1(5)]
    have less: "keys q ! i < keys q ! ?j" using False j 1(4,5) by (simp add: Less_keys)
    have ks: "keys (Swap i ?j q) = key_swap i ?j (keys q)" using j 1(4,5) by (intro keys_Swap) auto
    have "ordered (keys (fst (heap_down (Swap i ?j q) ?j n))) n"
      using 1(1) [of "2 * i + 1" "2 * i + 2" ?j] down_step [OF 1(2) j(1-3) _ less j(4)] False n 1(5) j ks
      by (simp add: child_def)
    with False show ?thesis by (simp add: heap_down_unfold [of q i n])
  qed
qed

lemma down_result: "i \<le> snd (heap_down q i n) \<and> (snd (heap_down q i n) = i \<longrightarrow> fst (heap_down q i n) = q)"
proof (induction q i n rule: heap_down.induct)
  case (1 q i n)
  let ?j = "child q i n"
  show ?case
  proof (cases "n \<le> 2 * i + 1 \<or> \<not> Less q ?j i")
    case False
    then have "?j \<le> snd (heap_down (Swap i ?j q) ?j n)"
      using 1 [of "2 * i + 1" "2 * i + 2" ?j] by (simp add: child_def)
    moreover have "i < ?j" by (simp add: child_def)
    ultimately show ?thesis using False by (simp add: heap_down_unfold [of q i n])
  qed (simp add: heap_down_unfold [of q i n])
qed

text \<open>Repairing one position: \<open>down\<close>, and \<open>up\<close> unless that moved it.\<close>

lemma fix_order:
  assumes "ordered_but (keys q) (length (q_heap q)) i" and "i < length (q_heap q)"
  shows "ordered (keys (heap_Fix i q)) (length (q_heap q))"
proof (cases "length (q_heap q) \<le> 2 * i + 1 \<or> \<not> Less q (child q i (length (q_heap q))) i")
  case True
  let ?n = "length (q_heap q)"
  have "ord (keys q) c" if c: "0 < c" "c < ?n" "parent c = i" for c
  proof -
    have "2 * i + 1 < ?n" using c parent_eq [of c i] by auto
    with c True child_props [of i ?n q] assms(2) show ?thesis by (force simp: Less_keys ord_def)
  qed
  then have "ordered (keys (heap_up q i)) ?n" using assms by (intro up_order) auto
  with True show ?thesis by (simp add: heap_Fix_def heap_down_unfold [of q i ?n])
next
  case False
  let ?n = "length (q_heap q)" and ?j = "child q i (length (q_heap q))"
  have n: "2 * i + 1 < ?n" using False by simp
  note j = child_props [OF n order_refl]
  have less: "keys q ! i < keys q ! ?j" using False j assms(2) by (simp add: Less_keys)
  have ks: "keys (Swap i ?j q) = key_swap i ?j (keys q)" using j assms(2) by (intro keys_Swap)
  have "ordered (keys (fst (heap_down (Swap i ?j q) ?j ?n))) ?n"
    using down_step [OF assms(1) j(1-3) _ less j(4)] j ks by (intro down_order) simp_all
  moreover have "i < ?j" by (simp add: child_def)
  then have "i < snd (heap_down (Swap i ?j q) ?j ?n)"
    by (rule order_less_le_trans) (rule conjunct1 [OF down_result])
  ultimately show ?thesis using False by (simp add: heap_Fix_def heap_down_unfold [of q i ?n] case_prod_unfold)
qed

section \<open>What the loops keep\<close>

lemma up_keeps:
  assumes swap: "\<And>q i j. I q \<Longrightarrow> i < length (q_heap q) \<Longrightarrow> j < length (q_heap q) \<Longrightarrow> I (Swap i j q)"
  shows "I q \<Longrightarrow> j < length (q_heap q) \<Longrightarrow> I (heap_up q j)"
proof (induction q j rule: heap_up.induct)
  case (1 q j)
  have par: "parent j < length (q_heap q)" using 1(3) parent_less [of j] by (cases "j = 0") (auto simp: parent_def)
  show ?case
  proof (cases "parent j = j \<or> \<not> Less q j (parent j)")
    case True
    with 1(2) show ?thesis by (subst heap_up.simps) simp
  next
    case False
    then have "I (heap_up (Swap (parent j) j q) (parent j))" using swap 1 par by simp
    with False show ?thesis by (subst heap_up.simps) (simp add: Let_def)
  qed
qed

lemma down_keeps:
  assumes "I q" and "i < n" and "n \<le> length (q_heap q)"
    and "\<And>q i j. I q \<Longrightarrow> i < n \<Longrightarrow> j < n \<Longrightarrow> n \<le> length (q_heap q) \<Longrightarrow> I (Swap i j q)"
  shows "I (fst (heap_down q i n))"
  using assms
proof (induction q i n rule: heap_down.induct)
  case (1 q i n)
  let ?j = "child q i n"
  show ?case
  proof (cases "n \<le> 2 * i + 1 \<or> \<not> Less q ?j i")
    case False
    then have "?j < n" using child_props(2) [of i n q] 1(4) by simp
    then have "I (fst (heap_down (Swap i ?j q) ?j n))"
      using 1(1) [of "2 * i + 1" "2 * i + 2" ?j] 1(2-5) False by (simp add: child_def)
    with False show ?thesis by (simp add: heap_down_unfold [of q i n])
  qed (simp add: heap_down_unfold [of q i n] 1(2))
qed

text \<open>Pointers and indices agree.\<close>

definition linked :: "'v PriorityQueue \<Rightarrow> bool" where
  "linked q \<longleftrightarrow> distinct (q_heap q) \<and>
     (\<forall>i < length (q_heap q). q_heap q ! i < length (q_mem q) \<and> it_index (q_mem q ! (q_heap q ! i)) = i)"

text \<open>The table holds the items of the heap.\<close>

definition listed :: "'v PriorityQueue \<Rightarrow> bool" where
  "listed q \<longleftrightarrow> (\<forall>v a. q_lookup q v = Some a \<longleftrightarrow> a \<in> set (q_heap q) \<and> it_value (q_mem q ! a) = v)"

text \<open>What a loop keeps of a queue: the memory but for the indices, the table, the items of the heap.\<close>

definition same_items :: "'v PriorityQueue \<Rightarrow> 'v PriorityQueue \<Rightarrow> bool" where
  "same_items q q' \<longleftrightarrow> length (q_mem q') = length (q_mem q) \<and> q_lookup q' = q_lookup q \<and>
     mset (q_heap q') = mset (q_heap q) \<and>
     (\<forall>a. it_value (q_mem q' ! a) = it_value (q_mem q ! a) \<and> it_priority (q_mem q' ! a) = it_priority (q_mem q ! a))"

lemma index_set_index:
  "a < length (q_mem q) \<Longrightarrow> it_index (q_mem (set_index a i q) ! b) = (if b = a then i else it_index (q_mem q ! b))"
  by (simp add: set_index_def nth_list_update)

lemma linked_Swap:
  assumes "linked q" and "i < length (q_heap q)" and "j < length (q_heap q)"
  shows "linked (Swap i j q)"
proof -
  define h where "h = (q_heap q)[i := q_heap q ! j, j := q_heap q ! i]"
  have len: "length h = length (q_heap q)" by (simp add: h_def)
  have d: "distinct h" using assms by (simp add: linked_def h_def distinct_swap)
  have m: "h ! k < length (q_mem q)" if "k < length (q_heap q)" for k
    using that assms by (auto simp: linked_def h_def nth_list_update)
  have inj: "h ! k = h ! l \<longleftrightarrow> k = l" if "k < length (q_heap q)" "l < length (q_heap q)" for k l
    using nth_eq_iff_index_eq [OF d] that len by simp
  have old: "it_index (q_mem q ! (h ! k)) = k" if "k < length (q_heap q)" "k \<noteq> i" "k \<noteq> j" for k
    using that assms(1) by (simp add: linked_def h_def)
  have "Swap i j q = set_index (h ! j) j (set_index (h ! i) i (q\<lparr>q_heap := h\<rparr>))" by (simp only: Swap_def h_def Let_def)
  then have "it_index (q_mem (Swap i j q) ! (h ! k)) = k" if "k < length (q_heap q)" for k
    using m [OF assms(2)] m [OF assms(3)] inj [OF that assms(2)] inj [OF that assms(3)] old [OF that]
    by (simp add: index_set_index)
  then show ?thesis using d m len by (simp add: linked_def h_def [symmetric])
qed

lemma same_items_Swap:
  "same_items q0 q \<Longrightarrow> i < length (q_heap q) \<Longrightarrow> j < length (q_heap q) \<Longrightarrow> same_items q0 (Swap i j q)"
  by (simp add: same_items_def mset_swap)

lemma same_items_refl [simp]: "same_items q q"
  by (simp add: same_items_def)

lemma same_items_length: "same_items q q' \<Longrightarrow> length (q_heap q') = length (q_heap q)"
  by (metis same_items_def size_mset)

lemma same_items_set: "same_items q q' \<Longrightarrow> set (q_heap q') = set (q_heap q)"
  by (metis same_items_def set_mset_mset)

lemma up_linked: "linked q \<Longrightarrow> j < length (q_heap q) \<Longrightarrow> linked (heap_up q j) \<and> same_items q (heap_up q j)"
  using up_keeps [where I = "\<lambda>q'. linked q' \<and> same_items q q'" and q = q and j = j]
  by (simp add: linked_Swap same_items_Swap)

lemma down_linked:
  "linked q \<Longrightarrow> i < n \<Longrightarrow> n \<le> length (q_heap q) \<Longrightarrow>
    linked (fst (heap_down q i n)) \<and> same_items q (fst (heap_down q i n)) \<and>
    (\<forall>k. n \<le> k \<longrightarrow> q_heap (fst (heap_down q i n)) ! k = q_heap q ! k)"
  using down_keeps [where I = "\<lambda>q'. linked q' \<and> same_items q q' \<and> (\<forall>k. n \<le> k \<longrightarrow> q_heap q' ! k = q_heap q ! k)" and q = q and i = i and n = n]
  by (simp add: linked_Swap same_items_Swap)

lemma fix_linked: "linked q \<Longrightarrow> i < length (q_heap q) \<Longrightarrow> linked (heap_Fix i q) \<and> same_items q (heap_Fix i q)"
proof -
  assume a: "linked q" "i < length (q_heap q)"
  let ?d = "heap_down q i (length (q_heap q))"
  have d: "linked (fst ?d)" "same_items q (fst ?d)" using down_linked [OF a order_refl] by simp_all
  have "linked (heap_up (fst ?d) i)" "same_items (fst ?d) (heap_up (fst ?d) i)"
    using up_linked [OF d(1), of i] a(2) same_items_length [OF d(2)] by simp_all
  then show ?thesis using d by (simp add: heap_Fix_def case_prod_unfold same_items_def)
qed

section \<open>The contract\<close>

definition queue_inv :: "'v PriorityQueue \<Rightarrow> bool" where
  "queue_inv q \<longleftrightarrow> linked q \<and> listed q \<and> ordered (keys q) (length (q_heap q))"

text \<open>A queue stands for a table of priorities.\<close>

definition entries :: "'v PriorityQueue \<Rightarrow> 'v \<Rightarrow> 64 word option" where
  "entries q v = map_option (\<lambda>a. it_priority (q_mem q ! a)) (q_lookup q v)"

lemma entries_same: "same_items q q' \<Longrightarrow> entries q' = entries q"
  by (auto simp: entries_def same_items_def)

lemma listed_same: "same_items q q' \<Longrightarrow> listed q' \<longleftrightarrow> listed q"
  using same_items_set [of q q'] by (simp add: listed_def same_items_def)

lemma entries_keys:
  assumes "listed q" and "entries q v = Some p"
  shows "\<exists>i < length (q_heap q). keys q ! i = sint p"
proof -
  obtain a where "q_lookup q v = Some a" "p = it_priority (q_mem q ! a)" using assms(2) by (auto simp: entries_def)
  moreover from this have "a \<in> set (q_heap q)" using assms(1) by (simp add: listed_def)
  ultimately show ?thesis by (auto simp: keys_def in_set_conv_nth)
qed

lemma new_inv: "queue_inv NewPrque" "entries NewPrque = Map.empty"
  by (auto simp: queue_inv_def NewPrque_def linked_def listed_def ordered_def entries_def)

text \<open>A position at the end has no children; only it can be out of order.\<close>

lemma ordered_but_last:
  assumes "ordered ks (n - 1)" and "0 < n"
  shows "ordered_but ks n (n - 1)" and "\<forall>c. 0 < c \<and> c < n \<and> parent c = n - 1 \<longrightarrow> ord ks c"
proof -
  have "parent c \<noteq> n - 1" if "0 < c" "c < n" for c using that parent_less [of c] by simp
  with assms show "ordered_but ks n (n - 1)" "\<forall>c. 0 < c \<and> c < n \<and> parent c = n - 1 \<longrightarrow> ord ks c"
    by (auto simp: ordered_but_def ordered_def)
qed

text \<open>The queue with a new item at the end of the heap.\<close>

definition appended :: "'v \<Rightarrow> 64 word \<Rightarrow> 'v PriorityQueue \<Rightarrow> 'v PriorityQueue" where
  "appended v p q = itemHeap_Push (length (q_mem q))
     (q\<lparr>q_mem := q_mem q @ [\<lparr>it_value = v, it_priority = p, it_index = 0\<rparr>]\<rparr>)"

lemma heap_pointers: "queue_inv q \<Longrightarrow> b \<in> set (q_heap q) \<Longrightarrow> b < length (q_mem q)"
  by (auto simp: queue_inv_def linked_def in_set_conv_nth)

lemma appended_simps:
  "q_heap (appended v p q) = q_heap q @ [length (q_mem q)]" "q_lookup (appended v p q) = q_lookup q"
  "length (q_mem (appended v p q)) = Suc (length (q_mem q))"
  "q_mem (appended v p q) ! length (q_mem q) = \<lparr>it_value = v, it_priority = p, it_index = length (q_heap q)\<rparr>"
  "b < length (q_mem q) \<Longrightarrow> q_mem (appended v p q) ! b = q_mem q ! b"
  by (simp_all add: appended_def itemHeap_Push_def set_index_def nth_append)

lemma appended_order:
  assumes "queue_inv q"
  shows "linked (appended v p q)" and "ordered (keys (appended v p q)) (length (q_heap q))"
proof -
  have old: "q_heap q ! i < length (q_mem q)" if "i < length (q_heap q)" for i
    using heap_pointers [OF assms] that by simp
  show "linked (appended v p q)"
    using assms old heap_pointers [OF assms]
    by (auto simp: queue_inv_def linked_def appended_simps nth_append less_Suc_eq)
  have "keys (appended v p q) = keys q @ [sint p]"
    using heap_pointers [OF assms] by (simp add: keys_def appended_simps)
  moreover have "parent c < length (q_heap q)" if "0 < c" "c < length (q_heap q)" for c
    using that parent_less [of c] by simp
  ultimately show "ordered (keys (appended v p q)) (length (q_heap q))"
    using assms by (simp add: queue_inv_def ordered_def ord_def nth_append)
qed

lemma Push_correct:
  assumes "queue_inv q"
  shows "queue_inv (Push v p q) \<and>
    entries (Push v p q) = (if entries q v = None then (entries q)(v := Some p) else entries q)"
proof (cases "q_lookup q v")
  case (Some a)
  with assms show ?thesis by (simp add: Push_def entries_def)
next
  case None
  let ?a = "length (q_mem q)" and ?r = "appended v p q"
  let ?u = "heap_up ?r (length (q_heap q))"
  let ?w = "?u\<lparr>q_lookup := (q_lookup ?u)(v := Some ?a)\<rparr>"
  have w: "Push v p q = ?w"
    using None by (simp add: Push_def heap_Push_def appended_def itemHeap_Push_def Let_def)
  have ord: "ordered (keys ?u) (length (q_heap ?r))"
    using ordered_but_last [of "keys ?r" "length (q_heap ?r)"] appended_order [OF assms, of v p]
    by (intro up_order) (simp_all add: appended_simps)
  have u: "linked ?u" "same_items ?r ?u"
    using up_linked [OF appended_order(1) [OF assms], of "length (q_heap q)" v p] by (simp_all add: appended_simps)
  have lu: "q_lookup ?u = q_lookup q" "set (q_heap ?u) = insert ?a (set (q_heap q))"
    using u(2) same_items_set [OF u(2)] by (simp_all add: same_items_def appended_simps)
  have vals: "it_value (q_mem ?u ! b) = it_value (q_mem ?r ! b)" "it_priority (q_mem ?u ! b) = it_priority (q_mem ?r ! b)" for b
    using u(2) by (simp_all add: same_items_def)
  have found: "b < ?a" if "q_lookup q x = Some b" for x b
    using that assms heap_pointers [OF assms] by (simp add: queue_inv_def listed_def)
  have other: "it_value (q_mem q ! b) \<noteq> v" if "b \<in> set (q_heap q)" for b
    using that assms None by (metis listed_def option.distinct(1) queue_inv_def)
  have "listed ?w"
    using assms None other heap_pointers [OF assms]
    by (auto simp: queue_inv_def listed_def lu vals appended_simps)
  moreover have "entries ?w x = ((entries q)(v := Some p)) x" for x
    using None found [of x] by (cases "q_lookup q x") (auto simp: entries_def lu vals appended_simps)
  then have "entries ?w = (entries q)(v := Some p)" by (rule ext)
  moreover have "linked ?w" "ordered (keys ?w) (length (q_heap ?w))"
    using u ord same_items_length [OF u(2)] by (simp_all add: linked_def keys_def)
  ultimately show ?thesis using None by (simp add: w queue_inv_def entries_def)
qed

text \<open>A new priority puts one position out of order.\<close>

lemma ordered_but_update:
  assumes "ordered ks n" and "i < n" and "n \<le> length ks"
  shows "ordered_but (ks[i := x]) n i"
  unfolding ordered_but_def
proof (intro conjI allI impI)
  fix c assume "0 < c \<and> c < n \<and> c \<noteq> i \<and> parent c \<noteq> i"
  then show "ord (ks[i := x]) c" using assms by (simp add: ordered_def ord_def)
next
  fix c assume c: "0 < i \<and> 0 < c \<and> c < n \<and> parent c = i"
  then have "ks ! c \<le> ks ! i" "ks ! i \<le> ks ! parent i" using assms by (auto simp: ordered_def ord_def)
  moreover have "c \<noteq> i" "parent i \<noteq> i" using c parent_less [of c] parent_less [of i] by auto
  ultimately show "ks[i := x] ! c \<le> ks[i := x] ! parent i" by simp
qed

definition repriced :: "nat \<Rightarrow> 64 word \<Rightarrow> 'v PriorityQueue \<Rightarrow> 'v PriorityQueue" where
  "repriced a p q = q\<lparr>q_mem := (q_mem q)[a := (q_mem q ! a)\<lparr>it_priority := p\<rparr>]\<rparr>"

lemma repriced_simps:
  "q_heap (repriced a p q) = q_heap q" "q_lookup (repriced a p q) = q_lookup q"
  "length (q_mem (repriced a p q)) = length (q_mem q)"
  "a < length (q_mem q) \<Longrightarrow> it_value (q_mem (repriced a p q) ! b) = it_value (q_mem q ! b)"
  "a < length (q_mem q) \<Longrightarrow> it_index (q_mem (repriced a p q) ! b) = it_index (q_mem q ! b)"
  "a < length (q_mem q) \<Longrightarrow> it_priority (q_mem (repriced a p q) ! b) = (if b = a then p else it_priority (q_mem q ! b))"
  by (simp_all add: repriced_def nth_list_update)

lemma UpdatePriority_correct:
  assumes "queue_inv q"
  shows "queue_inv (UpdatePriority x p q) \<and>
    entries (UpdatePriority x p q) = (if entries q x = None then entries q else (entries q)(x := Some p))"
proof (cases "q_lookup q x")
  case None
  with assms show ?thesis by (simp add: UpdatePriority_def entries_def)
next
  case (Some a)
  then have a: "a \<in> set (q_heap q)" "it_value (q_mem q ! a) = x" using assms by (simp_all add: queue_inv_def listed_def)
  then obtain i where i: "i < length (q_heap q)" "q_heap q ! i = a" by (auto simp: in_set_conv_nth)
  have am: "a < length (q_mem q)" by (rule heap_pointers [OF assms a(1)])
  have idx: "it_index (q_mem q ! a) = i" using assms i by (auto simp: queue_inv_def linked_def)
  let ?r = "repriced a p q"
  have upd: "UpdatePriority x p q = heap_Fix i ?r"
    using Some idx am by (simp add: UpdatePriority_def repriced_def Let_def)
  have lr: "linked ?r" "listed ?r" using assms am by (simp_all add: queue_inv_def linked_def listed_def repriced_simps)
  have "keys ?r = (keys q)[i := sint p]"
    using assms i am by (auto simp: keys_def repriced_simps queue_inv_def linked_def intro!: nth_equalityI simp: nth_list_update nth_eq_iff_index_eq)
  then have "ordered (keys (heap_Fix i ?r)) (length (q_heap ?r))"
    using assms i by (intro fix_order) (simp_all add: queue_inv_def repriced_simps ordered_but_update)
  moreover have f: "linked (heap_Fix i ?r)" "same_items ?r (heap_Fix i ?r)"
    using fix_linked [OF lr(1), of i] i(1) by (simp_all add: repriced_simps)
  moreover have only: "y = x" if "q_lookup q y = Some a" for y
    using that assms a(2) by (simp add: queue_inv_def listed_def)
  have "entries ?r y = ((entries q)(x := Some p)) y" for y
    using Some am only [of y] by (cases "q_lookup q y") (auto simp: entries_def repriced_simps)
  then have "entries ?r = (entries q)(x := Some p)" by (rule ext)
  ultimately show ?thesis
    using Some lr listed_same [OF f(2)] same_items_length [OF f(2)] entries_same [OF f(2)]
    by (simp add: upd queue_inv_def entries_def repriced_simps)
qed

text \<open>The heap without its last position.\<close>

lemma popped_inv:
  assumes "linked q" and "q_heap q \<noteq> []" and "ordered (keys q) (length (q_heap q) - 1)"
  shows "linked (q\<lparr>q_heap := butlast (q_heap q)\<rparr>)"
    and "ordered (keys (q\<lparr>q_heap := butlast (q_heap q)\<rparr>)) (length (q_heap q) - 1)"
proof -
  show "linked (q\<lparr>q_heap := butlast (q_heap q)\<rparr>)" using assms(1) by (simp add: linked_def distinct_butlast nth_butlast)
  have "keys (q\<lparr>q_heap := butlast (q_heap q)\<rparr>) = butlast (keys q)" by (simp add: keys_def map_butlast)
  moreover have "parent c < length (q_heap q) - 1" if "0 < c" "c < length (q_heap q) - 1" for c
    using that parent_less [of c] by simp
  ultimately show "ordered (keys (q\<lparr>q_heap := butlast (q_heap q)\<rparr>)) (length (q_heap q) - 1)"
    using assms(3) by (simp add: ordered_def ord_def nth_butlast)
qed

text \<open>The root goes to the end, and the rest is put in order.\<close>

lemma pop_loop:
  assumes "linked q" and "ordered (keys q) (length (q_heap q))" and "q_heap q \<noteq> []"
  defines "n \<equiv> length (q_heap q) - 1"
  defines "r \<equiv> fst (heap_down (Swap 0 n q) 0 n)"
  shows "linked r" and "same_items q r" and "ordered (keys r) n" and "last (q_heap r) = hd (q_heap q)"
proof -
  have n: "n < length (q_heap q)" "0 < length (q_heap q)" using assms(3) by (simp_all add: n_def)
  have sw: "linked (Swap 0 n q)" "same_items q (Swap 0 n q)"
    using linked_Swap [OF assms(1) n(2,1)] same_items_Swap [of q q 0 n] n by simp_all
  have top: "q_heap (Swap 0 n q) ! n = hd (q_heap q)" using n by (simp add: hd_conv_nth nth_list_update)
  have "linked r \<and> same_items q r \<and> ordered (keys r) n \<and> q_heap r ! n = hd (q_heap q)"
  proof (cases "n = 0")
    case True
    then have "r = Swap 0 n q" by (simp add: r_def heap_down_unfold)
    with sw top True show ?thesis by (simp only: ordered_def) simp
  next
    case False
    have ks: "keys (Swap 0 n q) = key_swap 0 n (keys q)" using n by (intro keys_Swap) auto
    have "ordered_but (keys (Swap 0 n q)) n 0"
      unfolding ordered_but_def ks
    proof (intro conjI allI impI)
      fix c assume c: "0 < c \<and> c < n \<and> c \<noteq> 0 \<and> parent c \<noteq> 0"
      then show "ord (key_swap 0 n (keys q)) c"
        using assms(2) n parent_less [of c] by (simp add: ord_def ordered_def key_swap_nth)
    qed simp
    then have "ordered (keys r) n" using n False unfolding r_def by (intro down_order) simp_all
    moreover have "linked r" "same_items (Swap 0 n q) r" "q_heap r ! n = q_heap (Swap 0 n q) ! n"
      using down_linked [OF sw(1), of 0 n] n False by (simp_all add: r_def)
    ultimately show ?thesis using sw(2) top by (simp add: same_items_def)
  qed
  then show "linked r" "same_items q r" "ordered (keys r) n" and "last (q_heap r) = hd (q_heap q)"
  proof -
    assume a: "linked r \<and> same_items q r \<and> ordered (keys r) n \<and> q_heap r ! n = hd (q_heap q)"
    then show "linked r" "same_items q r" "ordered (keys r) n" by simp_all
    have len: "length (q_heap r) = length (q_heap q)" using a same_items_length by blast
    then have "q_heap r \<noteq> []" using assms(3) by auto
    then show "last (q_heap r) = hd (q_heap q)" using a len by (simp add: last_conv_nth n_def)
  qed
qed

lemma set_butlast_distinct: "xs \<noteq> [] \<Longrightarrow> distinct xs \<Longrightarrow> set (butlast xs) = set xs - {last xs}"
  by (induction xs rule: rev_induct) auto

lemma Pop_correct:
  assumes "queue_inv q" and "q_heap q \<noteq> []"
  shows "\<exists>v p q'. Pop q = (Some (v, p), q') \<and> entries q v = Some p \<and>
    (\<forall>x p'. entries q x = Some p' \<longrightarrow> sint p' \<le> sint p) \<and> queue_inv q' \<and> entries q' = (entries q)(v := None)"
proof -
  define n where "n = length (q_heap q) - 1"
  define r where "r = fst (heap_down (Swap 0 n q) 0 n)"
  define a where "a = hd (q_heap q)"
  define v where "v = it_value (q_mem q ! a)"
  define p where "p = it_priority (q_mem q ! a)"
  have inv: "linked q" "ordered (keys q) (length (q_heap q))" "listed q" using assms(1) by (simp_all add: queue_inv_def)
  note r = pop_loop [OF inv(1,2) assms(2), folded n_def, folded r_def]
  have len: "length (q_heap r) = length (q_heap q)" by (rule same_items_length [OF r(2)])
  then have rn: "q_heap r \<noteq> []" "length (q_heap r) - 1 = n" using assms(2) by (auto simp: n_def)
  let ?b = "r\<lparr>q_heap := butlast (q_heap r)\<rparr>" and ?q' = "r\<lparr>q_heap := butlast (q_heap r), q_lookup := (q_lookup q)(v := None)\<rparr>"
  have same: "q_lookup r = q_lookup q" "it_value (q_mem r ! b) = it_value (q_mem q ! b)"
      "it_priority (q_mem r ! b) = it_priority (q_mem q ! b)" for b
    using r(2) by (simp_all add: same_items_def)
  have "heap_Pop q = itemHeap_Pop r" by (simp only: heap_Pop_def Let_def n_def r_def)
  then have pop: "Pop q = (Some (v, p), ?q')"
    using assms(2) r(4) by (simp add: Pop_def itemHeap_Pop_def same a_def v_def p_def Let_def)
  have at: "a \<in> set (q_heap q)" using assms(2) by (simp add: a_def)
  then have va: "q_lookup q v = Some a" using inv(3) by (simp add: listed_def v_def)
  have "set (butlast (q_heap r)) = set (q_heap q) - {a}"
    using set_butlast_distinct [OF rn(1)] r(1,4) same_items_set [OF r(2)] by (simp add: linked_def a_def)
  moreover have "b = a" if "b \<in> set (q_heap q)" "it_value (q_mem q ! b) = v" for b
    using that inv(3) va by (metis listed_def option.inject)
  moreover have "it_value (q_mem q ! a) = v" by (simp add: v_def)
  ultimately have "listed ?q'" using inv(3) by (auto simp: listed_def same)
  moreover have "linked ?q'" "ordered (keys ?q') (length (q_heap ?q'))"
    using popped_inv [OF r(1) rn(1)] r(3) rn(2) by (simp_all add: linked_def keys_def)
  moreover have "entries q v = Some p" using va by (simp add: entries_def p_def)
  moreover have "sint p' \<le> sint p" if x: "entries q x = Some p'" for x p'
  proof -
    obtain i where "i < length (q_heap q)" "keys q ! i = sint p'" using entries_keys [OF inv(3) x] by blast
    then show ?thesis using root_largest [OF inv(2), of i] assms(2) by (simp add: keys_def hd_conv_nth p_def a_def)
  qed
  moreover have "entries ?q' = (entries q)(v := None)" by (rule ext) (simp add: entries_def same)
  ultimately show ?thesis using pop by (auto simp: queue_inv_def)
qed

section \<open>Runs\<close>

datatype 'v queue_op = OpPush 'v "64 word" | OpPop | OpUpdate 'v "64 word"

fun queue_step :: "'v queue_op \<Rightarrow> 'v PriorityQueue \<Rightarrow> 'v PriorityQueue" where
  "queue_step (OpPush v p) q = Push v p q"
| "queue_step OpPop q = snd (Pop q)"
| "queue_step (OpUpdate v p) q = UpdatePriority v p q"

interpretation queue: kept_by_steps queue_step "\<lambda>_. True" queue_inv
proof
  fix e and q :: "'v PriorityQueue" assume q: "queue_inv q"
  show "queue_inv (queue_step e q)"
  proof (cases e)
    case OpPop
    show ?thesis
    proof (cases "q_heap q = []")
      case True
      with q OpPop show ?thesis by (simp add: Pop_def)
    next
      case False
      from Pop_correct [OF q False] OpPop show ?thesis by auto
    qed
  qed (use Push_correct [OF q] UpdatePriority_correct [OF q] in auto)
qed

lemma entries_dom: "queue_inv q \<Longrightarrow> Len q = card (dom (entries q))"
proof -
  assume q: "queue_inv q"
  have "dom (entries q) = (\<lambda>a. it_value (q_mem q ! a)) ` set (q_heap q)"
    using q by (auto simp: queue_inv_def listed_def entries_def image_iff)
  moreover have "inj_on (\<lambda>a. it_value (q_mem q ! a)) (set (q_heap q))"
    using q by (auto simp: queue_inv_def listed_def inj_on_def) (metis option.inject)
  ultimately show ?thesis using q by (simp add: card_image distinct_card Len_def queue_inv_def linked_def)
qed

section \<open>Properties\<close>

text \<open>
  C25: whatever is done with a new queue, it is a table of priorities: pushing adds a value unless it is there,
  updating changes a value that is there, and popping takes out a value of the highest priority; the length is
  the number of values.
\<close>

theorem queue_implements_table:
  fixes ops :: "'v queue_op list"
  defines "q \<equiv> fold queue_step ops NewPrque"
  shows "entries (Push v p q) = (if v \<in> dom (entries q) then entries q else (entries q)(v := Some p)) \<and>
    entries (UpdatePriority v p q) = (if v \<in> dom (entries q) then (entries q)(v := Some p) else entries q) \<and>
    (case Pop q of
       (None, q') \<Rightarrow> entries q = Map.empty \<and> q' = q
     | (Some (w, m), q') \<Rightarrow> entries q w = Some m \<and> (\<forall>x k. entries q x = Some k \<longrightarrow> sint k \<le> sint m) \<and>
         entries q' = (entries q)(w := None)) \<and>
    Len q = card (dom (entries q))"
proof -
  have q: "queue_inv q" unfolding q_def by (rule queue.kept_by_run [OF any_event new_inv(1)])
  have "case Pop q of (None, q') \<Rightarrow> entries q = Map.empty \<and> q' = q
     | (Some (w, m), q') \<Rightarrow> entries q w = Some m \<and> (\<forall>x k. entries q x = Some k \<longrightarrow> sint k \<le> sint m) \<and>
         entries q' = (entries q)(w := None)"
  proof (cases "q_heap q = []")
    case True
    then have "entries q = Map.empty" using q by (auto simp: queue_inv_def listed_def entries_def)
    with True show ?thesis by (simp add: Pop_def)
  next
    case False
    from Pop_correct [OF q False] show ?thesis by auto
  qed
  with Push_correct [OF q, of v p] UpdatePriority_correct [OF q, of v p] entries_dom [OF q] show ?thesis
    by (auto simp: dom_def)
qed

definition sample_ops :: "nat queue_op list" where
  "sample_ops = [OpPush 1 5, OpPush 2 7, OpPush 3 6, OpUpdate 1 8, OpUpdate 3 (- 1)]"

theorem queue_implements_table_witness:
  "fst (Pop (fold queue_step sample_ops NewPrque)) = Some (1, 8) \<and>
   entries (snd (Pop (fold queue_step sample_ops NewPrque))) = (entries (fold queue_step sample_ops NewPrque))(1 := None)"
proof -
  have pop: "fst (Pop (fold queue_step sample_ops NewPrque)) = Some (1, 8)" by code_simp
  then obtain q' where "Pop (fold queue_step sample_ops NewPrque) = (Some (1, 8), q')"
    by (cases "Pop (fold queue_step sample_ops NewPrque)") simp
  with queue_implements_table [where ops = sample_ops] show ?thesis by simp
qed

end
