(* ===== verification/Spec2Isabelle.thy ===== *)
theory Spec2Isabelle
  imports Web_Screens Web_Worker Wallet_Flows Go_TxOrder Go_Queue
begin

text \<open>
  Verification of the NKN node dashboard: the browser client under \<open>src/dashboard/web\<close>, its service
  worker \<open>src/web/sw.js\<close>, the server under \<open>src/dashboard\<close>, the wallet and address code the server
  calls (\<open>src/vault\<close>, \<open>src/common\<close>, \<open>src/crypto\<close>, \<open>src/program\<close>, \<open>src/util/password\<close>), and what the wallet is
  for, the signing of transactions (\<open>src/signature\<close>, \<open>src/transaction\<close>).

  \<^bold>\<open>The program.\<close> The client is a Vue application. Its store (\<open>store/*.js\<close>) holds the session's token,
  the server's clock, the node's and the wallet's status; background tasks (\<open>plugins/task.js\<close>) poll the
  server and count the clock up; the interceptors (\<open>plugins/axios.js\<close>) seal every request body and
  open every answer with a key made of the password's seed, the token and a second of the
  clock; the router (\<open>plugins/router.js\<close>) keeps the user on the wallet pages until there is a seed;
  dialogs, pages and widgets show the state and call the store's actions. The server (Go) keeps a
  token per session, checks the clock header and the password header, opens the bodies by trying
  the 40 seconds around its own clock, and seals its answers; its routes read and change the node's
  configuration and create or open the wallet file, for which the node's main loop waits.

  \<^bold>\<open>Theories, in the order they build on each other.\<close>

  \<^item> \<open>Prelude\<close>: bytes, hexadecimal, UTF-8, the search \<open>first_hit\<close> over a \<open>window\<close>, and the locale
    \<open>sealed_box\<close> of a message sealed for one slot and looked for in a window.
    Also the locale \<open>kept_by_steps\<close>, by which what every step keeps is kept by every run.
  \<^item> \<open>Std_Crypto\<close>: SHA-224/256, HMAC, AES-256 in CFB mode, base64, as published; \<open>Std_Cbc\<close>: the inverse
    cipher and CBC mode, over the locale \<open>block_permutation\<close>.
  \<^item> \<open>Js_Number\<close>, \<open>Js_Decimal\<close>: doubles as exact rationals, rounding, the shortest decimal text, and that
    15 digits survive the way into a double and back.
  \<^item> \<open>Js_Value\<close>, \<open>Js_Json\<close>: JavaScript values and operators; \<open>JSON.stringify\<close> and \<open>JSON.parse\<close>, with their
    round trip.
  \<^item> \<open>Web_Crypto\<close> (\<open>helpers/crypto.js\<close>) over the locale \<open>cryptojs_std\<close>; \<open>Web_Math\<close> (\<open>helpers/math.js\<close>,
    \<open>helpers/tools.js\<close>) over the locale \<open>decimaljs_std\<close>.
  \<^item> \<open>Web_Store\<close> (\<open>helpers/consts.js\<close>, \<open>store/*.js\<close>): the records \<open>common_state\<close>, \<open>node_state\<close>,
    \<open>wallet_state\<close> and \<open>client\<close>; mutations; actions, which run to their \<open>await\<close> and hand back the rest.
  \<^item> \<open>Web_Axios\<close> (\<open>plugins/axios.js\<close>): \<open>onRequest\<close>, \<open>onResponse\<close> and its loop \<open>slot_loop\<close>.
  \<^item> \<open>Web_Router\<close> (\<open>plugins/router.js\<close>, \<open>pages/index.vue\<close>, \<open>pages/loading.vue\<close>) over the locale \<open>wallet_routes\<close>.
  \<^item> \<open>Web_Task\<close> (\<open>plugins/task.js\<close>, \<open>helpers/task.js\<close>): the event loop as the step relation \<open>bg_step\<close>, in
    which timers fire and answers arrive in any order.
  \<^item> \<open>Web_NumberInput\<close> (\<open>components/widget/NumberInput.vue\<close>): the rule, typing and stepping.
  \<^item> \<open>Web_Dialogs\<close> (\<open>components/dialog/*.vue\<close>) over the locale \<open>form_std\<close>; \<open>Web_Pages\<close>
    (\<open>pages/wallet/*.vue\<close>, \<open>pages/settings.vue\<close>); \<open>Web_Views\<close> (\<open>pages/nodeStatus.vue\<close>, the status line, the
    neighbor table, the warning bar) over the locale \<open>lodash_std\<close>; \<open>Web_Locales\<close> (\<open>locales/*/*.js\<close>).
  \<^item> \<open>Web_Shell\<close> (\<open>nuxt.config.js\<close>, \<open>layouts/*.vue\<close>, \<open>components/material/*.vue\<close>, the footer and the table of
    rewards); \<open>Web_Screens\<close>: the templates as functions from the state to the screen, and the runs of
    the dialogs in which the user does what the screen offers and answers arrive late;
    \<open>Web_Worker\<close> (\<open>src/web/sw.js\<close>) over the locale \<open>workbox_router\<close>.
  \<^item> \<open>Go_Dashboard\<close> (\<open>helpers/crypto.go\<close>, \<open>auth/*.go\<close>, the token middleware of \<open>service.go\<close>); \<open>Go_Routes\<close>
    (\<open>routes/common/sync.go\<close>, \<open>routes/node/config.go\<close>, \<open>routes/node/status.go\<close>, the password check);
    \<open>Go_Wallet\<close> (the status flags that \<open>GetWallet\<close> of \<open>src/vault/wallet.go\<close> sets).
  \<^item> \<open>Go_Address\<close> (addresses of \<open>src/common/uint160.go\<close>) over the locales \<open>positional\<close> and \<open>base58_std\<close>;
    \<open>Go_Serialize\<close> (\<open>src/common/serialization\<close>): each writer with its reader as an instance of the locale
    \<open>codec\<close>; \<open>Go_Common\<close> (\<open>Fixed64.go\<close>, \<open>uint160.go\<close>, \<open>uint256.go\<close>, \<open>common.go\<close>); \<open>Go_Program\<close> (\<open>src/program\<close>).
  \<^item> \<open>Go_Vault\<close> (\<open>src/vault\<close>: accounts, wallet data, wallet file) over the locale \<open>keylib_std\<close>; \<open>Go_Signing\<close>
    (\<open>src/signature\<close>) over the locale \<open>ed25519_std\<close>; \<open>Go_Transaction\<close> (\<open>src/transaction\<close>, \<open>src/pb/transaction.go\<close>
    and \<open>Sign\<close> of the wallet) over the locale \<open>proto_std\<close>; \<open>Go_TxOrder\<close> (sizes, and the orders of
    \<open>src/transaction/sort.go\<close>) as instances of the locale \<open>comparison\<close>.
  \<^item> \<open>Go_Queue\<close> (\<open>src/common/prque.go\<close>): the priority queue with a memory for the items that heap and table
    share.
  \<^item> \<open>Go_Server\<close>: the record \<open>dashboard\<close> of the server's whole state, all its routes, \<open>serve\<close> with the order
    of the filters, the loop that waits for a wallet, and runs of any requests and polls. Its
    \<open>GetWallet\<close> refines that of \<open>Go_Wallet\<close>.
  \<^item> \<open>Protocol\<close>: that the two ends compute the same keys and digests; interpretations of \<open>sealed_box\<close> for
    requests and for answers. \<open>Wallet_Flows\<close>: from a page or dialog through the sealed request and the
    server's route to the running node and back. This theory has the other properties that span both ends.

  \<^bold>\<open>How code is rendered.\<close> A text is its UTF-8 bytes. A number is a double (\<open>jsnum\<close>), with \<open>dbl\<close> the
  rounding. \<open>None\<close> is a thrown exception, in a \<open>Rejected\<close> result a rejected promise. The packages
  that are not in the repository are parameters: each has a locale that states what its
  documentation promises, and each locale is interpreted by a concrete implementation
  (\<open>std_cryptojs\<close>, \<open>std_decimaljs\<close>, \<open>std_countBy\<close>, \<open>all_rules\<close>, \<open>default_path\<close>, \<open>std_respond\<close>, \<open>std_encode58\<close>,
  \<open>std_keylib\<close>, \<open>std_edlib\<close>, \<open>std_proto\<close>), which the witnesses use. A Go call gives a value, an error or a panic (\<open>go\<close>). Int64 and uint32 of Go are words; the client's \<open>&\<close> works on 32-bit words.

  \<^bold>\<open>What is shown.\<close>

  \<^item> Sealed messages: a request body reaches the server's handler and an answer reaches the
    store, inside the time window; the interceptor's loop computes the search it stands for.
  \<^item> Passwords: the right password is accepted, \<open>WalletAuth\<close> accepts nothing but sealed digests of the
    wallet's password; what the dialogs and pages make of every answer of the server, including
    the answers they take for success.
  \<^item> Wallets: a new wallet opens with its password, and an address stands for its hash; the pages that create
    and open a wallet lead to a node that runs with it and to a session both ends agree on; the
    dialog shows the wallet's own seed; an existing wallet file is never replaced; without the
    password no sequence of requests changes a running node.
  \<^item> Transactions: what a wallet signs for its own account passes validation, however the wallet came
    about; the signed bytes determine the transaction; hashes are ordered as numbers, and the text
    of an amount is read back; the comparisons of transactions are orders.
  \<^item> The priority queue implements a table of priorities under every sequence of operations.
  \<^item> Settings: the form sends back what it loaded; what it sends arrives in the node's parameters
    and file; a change is all or nothing; amounts are exact to the smallest unit.
  \<^item> Background: in every interleaving the session is left alone and the clock counts the seconds; every
    action keeps the store readable; the token exchange establishes what the other theorems assume.
  \<^item> Pages: the server's status leads to the page that fits it, the router settles, and shows nothing without
    a session; the tabs survive every change of language; the status texts, the number fields, the
    translations; which requests the service worker answers from where.
  \<^item> Dialogs over time: what their screens show in every order of presses and answers, and what goes wrong
    when an answer arrives after the dialog was closed.

  \<^bold>\<open>Bounds.\<close> Clocks are below \<open>10 ^ 14\<close> or \<open>10 ^ 15\<close> and amounts below \<open>10 ^ 15\<close>: there integers are exact
  doubles and print without an exponent; a clock in seconds passes \<open>10 ^ 14\<close> in three million years and
  there are \<open>10 ^ 17\<close> units of the token, of which a fee may be a hundredth. The loop of the response
  interceptor is a \<open>partial_function\<close> without fuel; that it ends is a theorem. The search of a JSON
  parser uses the length of its text as fuel, which the round trip shows to be enough.
  The proviso of the sealed messages, that no earlier second of the window opens the text as
  well, cannot be removed: CFB has no authentication, and both ends take the first slot that yields JSON.

  \<^bold>\<open>Not modelled.\<close> Styles, class names and the layout of the grid; the options of \<open>nuxt.config.js\<close> that only the
  build reads, and the plugins that only register packages; the minified bundles under \<open>src/web\<close>;
  filtering, sorting and paging of tables, which belong to the component library; of the
  wallet code reading a password from the terminal and the verifiable random function; of the transactions their
  views as JSON; of \<open>src/config\<close> the settings the dashboard
  does not touch; and the node software itself (chain, consensus, networking), which the dashboard only queries.
\<close>

section \<open>Passwords\<close>

text \<open>
  The \<open>Authorization\<close> value that the client computes from the right password is accepted by
  the server's \<open>WalletAuth\<close>, whenever both hold the same token and the client's clock is at most
  20 seconds behind and less than 20 seconds ahead of the server's.
\<close>

theorem right_password_accepted:
  assumes "cryptojs_std cj" and "synced st tok n" and "0 \<le> n" and "n < 10 ^ 15"
    and "ctx_wallet ctx = Some (PasswordHash (bytes_of pw))" and "ctx_token ctx = Some tok"
    and "ctx_now ctx - 20 \<le> n" and "n < ctx_now ctx + 20"
  shows "\<exists>h. auth_value cj (common st) pw = Some h \<and> WalletAuth ctx h = None"
  using assms by (rule auth_accepted)

theorem right_password_accepted_witness:
  "\<exists>h. auth_value std_cryptojs (common (sample_client None 1000)) ''pw'' = Some h \<and>
       WalletAuth (sample_context ''pw'' 1010) h = None"
  by (rule right_password_accepted [OF std_cryptojs_ok sample_synced]) simp_all

text \<open>
  C9: \<open>WalletAuth\<close> lets through exactly the headers that seal the wallet's own password digest
  for one of the 40 seconds of the window, in a session with a token: nothing else passes, and
  in particular no header passes without a wallet or without a token.
\<close>

theorem WalletAuth_accepts_iff:
  "WalletAuth ctx auth = None \<longleftrightarrow>
     (\<exists>h tok i. ctx_wallet ctx = Some h \<and> ctx_token ctx = Some tok \<and> auth \<noteq> [] \<and>
        i \<in> {ctx_now ctx - 20 ..< ctx_now ctx + 20} \<and>
        hex_decode auth = Some (box_bytes (slot_seedHash (hex_encode (sha224 (bytes_of (hex_encode h)))) tok i)
          (hex_encode (sha224 (bytes_of (hex_encode h))))))"
  by (auto simp: WalletAuth_def verifyPasswordKey_def verify_slots_iff UnixRange_def Let_def
      split: option.splits if_splits)

section \<open>Sealed messages end to end\<close>

text \<open>
  C1: the body of a request that the client's interceptor seals is the body the server's
  \<open>DecryptData\<close> returns, when both have the same token and seed and the client's clock is inside
  the server's window. It is never refused; and it is the very text that was sent unless an
  earlier slot's key happens to turn the cipher text into another JSON object.
\<close>

theorem request_reaches_server:
  assumes "cryptojs_std cj" and "synced st tok n" and "0 \<le> n" and "n < 10 ^ 15"
    and "ctx_token ctx = Some tok" and "context_seed ctx hasSeed = seed_text st"
    and "ctx_now ctx - 20 \<le> n" and "n < ctx_now ctx + 20"
    and "req_body rq = JObj ps" and "json_wf (JObj ps)"
  shows "\<exists>w c. onRequest cj now_ms st rq = Some w \<and> w_body w = JObj [(''data'', JStr c)] \<and>
    (\<exists>m. DecryptData ctx hasSeed (Some c) = Inr m) \<and>
    ((\<forall>i. ctx_now ctx - 20 \<le> i \<and> i < n \<longrightarrow> decrypt_slot (seed_text st) tok c i = None) \<longrightarrow>
       DecryptData ctx hasSeed (Some c) = Inr (json_str (JObj ps)))"
  using assms by (rule sealed_request)

theorem request_reaches_server_witness:
  "\<exists>w c. onRequest std_cryptojs 0 (sample_client None 980)
      \<lparr>req_method = POST, req_url = ''/api/wallet/open'', req_body = JObj [(''password'', JStr ''pw'')]\<rparr> = Some w \<and>
    w_body w = JObj [(''data'', JStr c)] \<and>
    DecryptData (sample_context ''pw'' 1000) False (Some c) = Inr (json_str (JObj [(''password'', JStr ''pw'')]))"
proof -
  let ?rq = "\<lparr>req_method = POST, req_url = ''/api/wallet/open'', req_body = JObj [(''password'', JStr ''pw'')]\<rparr>"
  have "context_seed (sample_context ''pw'' 1000) False = seed_text (sample_client None 980)"
    by (simp add: context_seed_def sample_context_def seed_text_def sample_client_def client_init_def)
  from request_reaches_server [OF std_cryptojs_ok sample_synced _ _ _ this, where rq = ?rq and now_ms = 0]
  show ?thesis by auto
qed

text \<open>
  C2: the answer that the server's \<open>EncryptData\<close> seals is what the response interceptor hands to
  the store, when both have the same token and seed and the server's clock is inside the
  client's window. The interceptor always ends and does not throw; and it gives the very data
  that was sent unless an earlier slot's key happens to turn the cipher text into other JSON.
\<close>

theorem response_reaches_client:
  assumes "cryptojs_std cj" and "synced st tok n" and "20 \<le> n" and "n < 10 ^ 14"
    and "ctx_token ctx = Some tok" and "context_seed ctx hasSeed = seed_text st"
    and "n - 20 \<le> ctx_now ctx" and "ctx_now ctx < n + 20"
    and "json_parse buf = Some v" and "utf8_ok (bytes_of buf)"
    and "\<not> salted (box_bytes (slot_seedHash (seed_text st) tok (ctx_now ctx)) buf)"
  shows "\<exists>c. EncryptData ctx hasSeed (Some buf) = Some c \<and>
    (\<exists>v'. onResponse cj st (JObj [(''data'', JStr c)]) = Some (Some v')) \<and>
    ((\<forall>i. n - 20 \<le> i \<and> i < ctx_now ctx \<longrightarrow> open_at cj st (JStr c) i = None) \<longrightarrow>
       onResponse cj st (JObj [(''data'', JStr c)]) = Some (Some v))"
  using assms by (rule sealed_response)

theorem response_reaches_client_witness:
  "\<exists>c. EncryptData (sample_context ''pw'' 980) True (Some ''[]'') = Some c \<and>
    onResponse std_cryptojs (sample_client (Some (seedHash std_cryptojs ''pw'')) 1000)
      (JObj [(''data'', JStr c)]) = Some (Some (JArr []))"
proof -
  have p: "json_parse ''[]'' = Some (JArr [])" by code_simp
  have "utf8_ok (bytes_of ''[]'')" by (simp add: utf8_ok_ascii bytes_of_def)
  from response_reaches_client [OF std_cryptojs_ok sample_synced _ _ _
      sample_seed [symmetric, of "''pw''" 980 1000] _ _ p this]
  show ?thesis by (force simp: not_salted_short)
qed

text \<open>
  C19: the response interceptor's loop, which counts a JavaScript number up and catches what throws,
  implements the search it stands for: on every answer with sealed data it ends, and its result
  is the first of the 40 seconds around the client's clock, in order, whose key opens the data; it
  throws exactly when there is none.
\<close>

theorem response_loop_implements_search:
  assumes "cryptojs_std cj" and "synced st tok n" and "20 \<le> n" and "n < 10 ^ 14"
    and "js_get data ''data'' = Some (JStr c)"
  shows "onResponse cj st data = Some (first_hit (open_at cj st (JStr c)) (window n 20))"
  by (rule cryptojs_std.onResponse_window [OF assms])

theorem response_loop_implements_search_witness:
  "onResponse std_cryptojs (sample_client None 1000) (JObj [(''data'', JStr [])]) =
     Some (first_hit (open_at std_cryptojs (sample_client None 1000) (JStr [])) (window 1000 20))"
  by (rule response_loop_implements_search [OF std_cryptojs_ok sample_synced]) simp_all

text \<open>
  After a successful \<open>openWallet\<close> or \<open>createWallet\<close> the session's seed is the one the server
  derives from the wallet that has this password, so the two theorems above apply.
\<close>

theorem opened_wallet_agrees_on_seed:
  assumes "cryptojs_std cj" and "ctx_wallet ctx = Some (PasswordHash (bytes_of pw))"
    and "net rq = Resp d t" and "rq = \<lparr>req_method = POST, req_url = ''/api/wallet/open'',
      req_body = JObj [(''password'', JStr pw)]\<rparr>"
  shows "\<exists>st'. run_action (openWallet cj pw) net st = (st', Resolved d) \<and>
    seed_text st' = context_seed ctx True \<and> serviceStatus (common st') = JInt SERVICE_STATUS_RUNNING"
  using assms(3,4) cryptojs_std.seedHash_context [OF assms(1,2)]
  by (simp add: run_action_def openWallet_def wallet_opened_def syncServiceStatus_def seed_text_def Let_def)

theorem opened_wallet_agrees_on_seed_witness:
  "\<exists>st'. run_action (openWallet std_cryptojs ''pw'') (\<lambda>_. Resp (JStr []) JUndef) (client_init 0) =
      (st', Resolved (JStr [])) \<and>
    seed_text st' = context_seed (sample_context ''pw'' 1000) True \<and>
    serviceStatus (common st') = JInt SERVICE_STATUS_RUNNING"
  by (rule opened_wallet_agrees_on_seed [OF std_cryptojs_ok _ _ refl]) simp_all

section \<open>The password dialog and the server\<close>

text \<open>
  The password dialog with the server behind it. With a wallet, the right password closes
  the dialog and is handed on, inside the time window and with a common token.
\<close>

theorem right_password_closes_dialog:
  assumes "cryptojs_std cj" and "form_std validate" and "vp_step d = 1" and "vp_password d \<noteq> []"
    and "synced st tok n" and "0 \<le> n" and "n < 10 ^ 15"
    and "ctx_wallet ctx = Some (PasswordHash (bytes_of (vp_password d)))" and "ctx_token ctx = Some tok"
    and "ctx_now ctx - 20 \<le> n" and "n < ctx_now ctx + 20"
  shows "\<exists>h. auth_value cj (common st) (vp_password d) = Some h \<and>
    fst (vp_click cj validate (\<lambda>_. http_outcome (verification_route ctx h) (JStr [])) (d, st)) = vp_accepted d"
proof -
  obtain h where h: "auth_value cj (common st) (vp_password d) = Some h" "WalletAuth ctx h = None"
    using auth_accepted [OF assms(1,5-11)] by blast
  then show ?thesis
    by (simp add: vp_click_run [OF assms(2-4) h(1)] http_outcome_def verification_route_def)
qed

theorem right_password_closes_dialog_witness:
  "\<exists>h. fst (vp_click std_cryptojs all_rules
      (\<lambda>_. http_outcome (verification_route (sample_context ''pw'' 1010) h) (JStr []))
      ((vp_init True)\<lparr>vp_password := ''pw''\<rparr>, sample_client None 1000)) =
    vp_accepted ((vp_init True)\<lparr>vp_password := ''pw''\<rparr>)"
  using right_password_closes_dialog [OF std_cryptojs_ok all_rules_ok _ _ sample_synced [of None 1000],
    of "(vp_init True)\<lparr>vp_password := ''pw''\<rparr>" "sample_context ''pw'' 1010"]
  by (auto simp: vp_init_def)

text \<open>
  C26: without a wallet on the server the dialog takes every password for right: the filter
  answers 500, which the store's action does not report.
\<close>

theorem no_wallet_any_password:
  assumes "cryptojs_std cj" and "form_std validate" and "vp_step d = 1" and "vp_password d \<noteq> []"
    and "synced st tok n" and "0 \<le> n" and "n < 10 ^ 15" and "ctx_wallet ctx = None"
  shows "\<exists>h. auth_value cj (common st) (vp_password d) = Some h \<and> verification_route ctx h = 500 \<and>
    fst (vp_click cj validate (\<lambda>_. http_outcome (verification_route ctx h) (JStr [])) (d, st)) = vp_accepted d"
proof -
  obtain h where h: "auth_value cj (common st) (vp_password d) = Some h" "h \<noteq> []"
    using auth_value_shape [OF assms(1,5-7)] by blast
  then have "verification_route ctx h = 500"
    using assms(8) by (simp add: verification_route_def WalletAuth_def)
  then show ?thesis
    using h by (simp add: vp_click_run [OF assms(2-4) h(1)] http_outcome_def)
qed

theorem no_wallet_any_password_witness:
  "\<exists>h. fst (vp_click std_cryptojs all_rules
      (\<lambda>_. http_outcome (verification_route \<lparr>ctx_now = 1000, ctx_wallet = None, ctx_token = Some ''t''\<rparr> h) (JStr []))
      ((vp_init True)\<lparr>vp_password := ''guess''\<rparr>, sample_client None 1000)) =
    vp_accepted ((vp_init True)\<lparr>vp_password := ''guess''\<rparr>)"
  using no_wallet_any_password [OF std_cryptojs_ok all_rules_ok _ _ sample_synced [of None 1000],
    of "(vp_init True)\<lparr>vp_password := ''guess''\<rparr>" "\<lparr>ctx_now = 1000, ctx_wallet = None, ctx_token = Some ''t''\<rparr>"]
  by (auto simp: vp_init_def)

section \<open>From the settings form to the node's parameters\<close>

lemma uint_of_int32: "0 \<le> n \<Longrightarrow> n < 2 ^ 32 \<Longrightarrow> uint (of_int n :: 32 word) = n"
  by (simp add: unsigned_of_int take_bit_int_eq_self)

lemma put_client_config:
  assumes "cfg_file s = Some (JObj ps)"
    and "0 \<le> a" and "a < 10 ^ 15" and "0 \<le> b" and "b < 2 ^ 32" and "0 \<le> c" and "c < 2 ^ 32"
    and "0 \<le> d" and "d < 10 ^ 15" and "0 \<le> e" and "e < 10 ^ 15"
  shows "\<exists>s'. put_config True (json_str (config_data a b c d e)) s = (200, s') \<and>
    has_config (node_status_data localNode s') a b c d e"
proof -
  have "sint (of_int a :: 64 word) = a" "sint (of_int d :: 64 word) = d"
    using assms by (simp_all add: sint_of_int64)
  then show ?thesis
    using unmarshal_client_config [OF assms(2-11), folded config_data_def] assms(1) uint_of_int32 [OF assms(4,5)]
      uint_of_int32 [OF assms(6,7)]
    by (simp add: put_config_def has_config_def node_status_data_def map_of_obj_set Let_def
        del: of_int_sint of_int_uint)
qed

text \<open>
  C5: submitted settings arrive. The request that the settings page sends with the right password
  passes the server's password filter, and its body, once opened, sets the node's parameters:
  the next status has the very amounts the form had, both the file and the running node have
  them, and the answer is 200. Openness of the body has the proviso of the sealed messages.
\<close>

theorem settings_reach_the_node:
  assumes "cryptojs_std cj" and "synced st tok n" and "0 \<le> n" and "n < 10 ^ 15"
    and "ctx_wallet ctx = Some (PasswordHash (bytes_of pw))" and "ctx_token ctx = Some tok"
    and "ctx_now ctx - 20 \<le> n" and "n < ctx_now ctx + 20" and "context_seed ctx True = seed_text st"
    and "se_config D pg = Some (config_data a b c d e)" and "cfg_file s = Some (JObj ps)"
    and "0 \<le> a" and "a < 10 ^ 15" and "0 \<le> b" and "b < 2 ^ 32" and "0 \<le> c" and "c < 2 ^ 32"
    and "0 \<le> d" and "d < 10 ^ 15" and "0 \<le> e" and "e < 10 ^ 15"
  shows "\<exists>act st1 rq k w h x. onSubmitSuccess cj D pw pg = Some act \<and> act st = (st1, Await rq k) \<and>
    onRequest cj now_ms st1 rq = Some w \<and> w_authorization w = Some h \<and> w_body w = JObj [(''data'', JStr x)] \<and>
    ((\<forall>i. ctx_now ctx - 20 \<le> i \<and> i < n \<longrightarrow> decrypt_slot (seed_text st) tok x i = None) \<longrightarrow>
      (\<exists>s'. node_config_route ctx h (Some x) True s = (200, s') \<and> file_agrees s' \<and>
         has_config (node_status_data localNode s') a b c d e))"
proof -
  let ?cfg = "config_data a b c d e"
  let ?rq = "\<lparr>req_method = PUT, req_url = ''/api/node/config'', req_body = ?cfg\<rparr>"
  obtain h where h: "auth_value cj (common st) pw = Some h" "WalletAuth ctx h = None"
    using auth_accepted [OF assms(1-8)] by blast
  let ?st = "st\<lparr>authorization := Some h\<rparr>"
  have sync: "synced ?st tok n" and sd: "context_seed ctx True = seed_text ?st"
    using assms(2,9) by (simp_all add: synced_def seed_text_def del: synced_simps)
  have wf: "json_wf ?cfg" using assms(12-21) by (simp add: config_data_def is_double_def)
  obtain ps' where obj: "?cfg = JObj ps'" by (simp add: config_data_def)
  obtain w x where w: "onRequest cj now_ms ?st ?rq = Some w" "w_body w = JObj [(''data'', JStr x)]"
    and opens: "(\<forall>i. ctx_now ctx - 20 \<le> i \<and> i < n \<longrightarrow> decrypt_slot (seed_text ?st) tok x i = None) \<longrightarrow>
       DecryptData ctx True (Some x) = Inr (json_str ?cfg)"
    using sealed_request [OF assms(1) sync assms(3,4,6) sd assms(7,8), of ?rq ps' now_ms] obj wf by auto
  have auth: "w_authorization w = Some h"
    using cryptojs_std.onRequest_seal [OF assms(1) sync assms(3,4), of ?rq now_ms] w(1) obj by auto
  obtain s' where s': "put_config True (json_str ?cfg) s = (200, s')"
      "has_config (node_status_data localNode s') a b c d e"
    using put_client_config [OF assms(11-21)] by blast
  have "node_config_route ctx h (Some x) True s = (200, s')" if "DecryptData ctx True (Some x) = Inr (json_str ?cfg)"
    using that h(2) s'(1) by (simp add: node_config_route_def)
  moreover have "file_agrees s'" using put_config_cases [OF s'(1)] by simp
  ultimately show ?thesis
    using w auth opens s'(2) h(1) assms(10)
    by (simp add: onSubmitSuccess_def setNodeConfig_def with_auth_def seed_text_def)
qed

theorem settings_reach_the_node_witness:
  "\<exists>h x s'. node_config_route (sample_context ''pw'' 1000) h (Some x) True sample_server = (200, s') \<and>
     has_config (node_status_data None s') 0 0 4096 10000000 50000"
proof -
  have cfg: "se_config std_decimaljs (se_reset se_data) = Some (config_data 0 0 4096 10000000 50000)"
    by (rule shows_config_sends [OF reset_shows_config [OF std_decimaljs_ok]])
  have srv: "cfg_file sample_server = Some (JObj [])" by (simp add: sample_server_def)
  from settings_reach_the_node [OF std_cryptojs_ok sample_synced [of "Some (seedHash std_cryptojs ''pw'')" 980]
      _ _ _ _ _ _ sample_seed [symmetric, of "''pw''" 1000 980] cfg srv, where now_ms = 0 and localNode = None]
  show ?thesis by fastforce
qed

section \<open>The server's status and the client's pages\<close>

lemma word_flag: "w AND 2 ^ k = (if bit w k then 2 ^ k else (0 :: 32 word))"
  by (auto simp: bit_eq_iff [where ?'a = "32 word"] bit_and_iff bit_exp_iff)

lemma client_flags:
  "has_flag (JInt s) SERVICE_STATUS_NO_WALLET_FILE \<longleftrightarrow> bit s 1"
  "has_flag (JInt s) SERVICE_STATUS_NO_PASSWORD \<longleftrightarrow> bit s 2"
  "has_flag (JInt s) SERVICE_STATUS_RUNNING \<longleftrightarrow> bit s 4"
  using word_flag [of "of_int s" 1] word_flag [of "of_int s" 2] word_flag [of "of_int s" 4]
  by (simp_all add: has_flag_Fin service_status_defs bit_of_int_iff)

text \<open>
  C10: the server's status brings the user to the right page. After \<open>GetWallet\<close> and one poll of the
  status, whatever page the user asks for, the router leads to the page that creates a wallet if
  there is no wallet file, and to the page that opens it if there is one but no password that
  opens it; if the wallet is open, every page can be had with a session, the waiting page goes on to
  the node's status, and without a session the router leads to the page that opens the wallet. The
  status for a missing beneficiary address is never set.
\<close>

theorem service_status_leads_to_page:
  assumes "wallet_routes localePath" and "GetWallet f pw op p s = (s', ok)"
    and "net (get_req ''/api/sync/status'') = http_outcome 200 (sync_status n w s' p)"
    and "run_action getServiceStatus net st = (st', r)"
  shows "(\<not> f \<longrightarrow> \<not> lacks (navigate localePath st' q) ''/wallet/create'') \<and>
    (f \<and> \<not> ok \<longrightarrow> \<not> lacks (navigate localePath st' q) ''/wallet/open'') \<and>
    (ok \<and> seed st = Some (c # cs) \<longrightarrow>
       navigate localePath st' q = q \<and> loadPage localePath st' = Some (localePath ''nodeStatus'')) \<and>
    (ok \<and> seed st \<in> {None, Some []} \<longrightarrow> navigate localePath st' q = localePath ''wallet-open'') \<and>
    (bit s' 0 \<longrightarrow> bit s 0)"
proof -
  note flags = GetWallet_flags [OF assms(2)]
  have st': "serviceStatus (common st') = JInt s'" "seed st' = seed st"
    using assms(3,4)
    by (auto simp: run_action_def getServiceStatus_def http_outcome_def sync_status_def syncServiceStatus_def)
  have "s' \<noteq> 0" using flags by auto
  then have running: "\<not> js_seq (JInt s') (JInt SERVICE_STATUS_DEFAULT)"
    by (simp add: SERVICE_STATUS_DEFAULT_def)
  show ?thesis
    using flags running wallet_routes.create_here [OF assms(1)] wallet_routes.open_here [OF assms(1)]
    by (auto simp: navigate_def afterEach_def loadPage_def st' client_flags Let_def simp del: js_seq.simps)
qed

theorem service_status_leads_to_page_witness:
  "\<not> lacks (navigate default_path (fst (run_action getServiceStatus
      (\<lambda>_. http_outcome 200 (sync_status False False 2 (params sample_server))) (client_init 0))) ''/settings'') ''/wallet/create''"
proof -
  have "GetWallet False False False (params sample_server) 0 = (2, False)"
    by (simp add: GetWallet_def GO_STATUS_NO_WALLET_FILE_def)
  from service_status_leads_to_page [OF default_routes_ok this _ surjective_pairing, of "\<lambda>_. http_outcome 200
      (sync_status False False 2 (params sample_server))" False False "client_init 0" "''/settings''"]
  show ?thesis by blast
qed

section \<open>Tokens and clocks\<close>

text \<open>
  C20: a request for the token brings both ends together: if the session is new, or has the
  current token, or the token is renewed by this very request, then afterwards the client
  holds the server's time and the token that the server has in the client's session. So the
  hypotheses of the theorems on sealed messages and passwords hold.
\<close>

theorem token_exchange:
  assumes "token_middleware now fresh svc sess = (svc', sess')"
    and "sess = None \<or> sess = Some (svc_Token svc) \<or> svc_TokenExp svc = 0 \<or> svc_TokenExp svc + 60 < now"
    and "net (get_req ''/api/sync/token'') = http_outcome 200 (sync_token now svc')"
    and "run_action getToken net st = (st', r)"
  shows "r = Resolved JUndef \<and> synced st' (svc_Token svc') now \<and> sess' = Some (svc_Token svc')"
proof -
  have "sess' = Some (svc_Token svc')"
    using assms(1,2) by (auto simp: token_middleware_def TokenExpSec_def split: if_splits option.splits)
  moreover have "r = Resolved JUndef \<and> token (common st') = JStr (svc_Token svc') \<and> unix (common st') = JInt now"
    using assms(3,4) by (auto simp: run_action_def getToken_def http_outcome_def sync_token_def syncToken_def)
  ultimately show ?thesis by (simp add: synced_def del: synced_simps)
qed

theorem token_exchange_witness:
  "synced (fst (run_action getToken (\<lambda>_. http_outcome 200 (sync_token 1000 \<lparr>svc_Token = ''a'', svc_TokenExp = 1060\<rparr>))
     (client_init 0))) ''a'' 1000"
  using token_exchange [where now = 1000 and fresh = "''a''" and svc = "\<lparr>svc_Token = [], svc_TokenExp = 0\<rparr>"
      and sess = None and svc' = "\<lparr>svc_Token = ''a'', svc_TokenExp = 1060\<rparr>" and sess' = "Some ''a''"
      and net = "\<lambda>_. http_outcome 200 (sync_token 1000 \<lparr>svc_Token = ''a'', svc_TokenExp = 1060\<rparr>)"
      and st = "client_init 0", OF _ _ _ surjective_pairing]
  by (simp add: token_middleware_def TokenExpSec_def)

text \<open>
  C34: a renewal strands the other sessions. When a request of one session renews the token, a
  second session that had the old one keeps it on the server, but its client is given the
  new one: the two ends then use different tokens, for as long as neither the session nor the
  new token ends.
\<close>

theorem renewal_strands_other_sessions:
  assumes "svc_TokenExp svc + 60 < now" and "0 < now" and "fresh \<noteq> svc_Token svc"
    and "token_middleware now fresh svc mine = (svcA, mine')"
    and "later \<le> now + 120" and "token_middleware later fresh' svcA (Some (svc_Token svc)) = (svcB, theirs)"
    and "net (get_req ''/api/sync/token'') = http_outcome 200 (sync_token later svcB)"
    and "run_action getToken net st = (st', r)"
  shows "mine' = Some fresh \<and> synced st' fresh later \<and> theirs = Some (svc_Token svc) \<and> theirs \<noteq> Some fresh"
proof -
  have "svcA = \<lparr>svc_Token = fresh, svc_TokenExp = now + 60\<rparr>" "mine' = Some fresh"
    using assms(1,4) by (auto simp: token_middleware_def TokenExpSec_def)
  moreover from this have "svcB = svcA" "theirs = Some (svc_Token svc)"
    using assms(2,5,6) by (auto simp: token_middleware_def TokenExpSec_def)
  ultimately show ?thesis
    using assms(3,7,8)
    by (auto simp: run_action_def getToken_def http_outcome_def sync_token_def syncToken_def synced_def
        simp del: synced_simps)
qed

theorem renewal_strands_other_sessions_witness:
  "synced (fst (run_action getToken (\<lambda>_. http_outcome 200 (sync_token 1001 \<lparr>svc_Token = ''b'', svc_TokenExp = 1060\<rparr>))
     (client_init 0))) ''b'' 1001"
  using renewal_strands_other_sessions [where svc = "\<lparr>svc_Token = ''a'', svc_TokenExp = 900\<rparr>" and now = 1000
      and fresh = "''b''" and mine = "Some ''a''" and svcA = "\<lparr>svc_Token = ''b'', svc_TokenExp = 1060\<rparr>"
      and mine' = "Some ''b''" and later = 1001 and fresh' = "''c''"
      and svcB = "\<lparr>svc_Token = ''b'', svc_TokenExp = 1060\<rparr>" and theirs = "Some ''a''"
      and net = "\<lambda>_. http_outcome 200 (sync_token 1001 \<lparr>svc_Token = ''b'', svc_TokenExp = 1060\<rparr>)"
      and st = "client_init 0", OF _ _ _ _ _ _ _ surjective_pairing]
  by (simp add: token_middleware_def TokenExpSec_def)

text \<open>
  A token lasts two minutes, although \<open>TokenExpSec\<close> is 60: after a renewal no request of any
  session in the next 120 seconds replaces it, and the first one after that does.
\<close>

theorem token_lifetime:
  assumes "0 \<le> now" and "now \<le> later"
  shows "svc_Token (fst (token_middleware later fresh \<lparr>svc_Token = tok, svc_TokenExp = now + TokenExpSec\<rparr> sess)) =
    (if later \<le> now + 120 then tok else fresh)"
  using assms by (auto simp: token_middleware_def TokenExpSec_def split: option.splits)

theorem token_lifetime_witness:
  "svc_Token (fst (token_middleware 120 ''b'' \<lparr>svc_Token = ''a'', svc_TokenExp = 0 + TokenExpSec\<rparr> None)) = ''a''"
  using token_lifetime [of 0 120 "''b''" "''a''" None] by simp

text \<open>
  C35: the clock header that the request interceptor sets passes the server's filter exactly when
  the client's own clock is less than 20 seconds away from the server's.
\<close>

theorem clock_header_accepted_iff:
  assumes "onRequest cj now_ms st rq = Some w" and "0 \<le> now_ms" and "now_ms < 10 ^ 15"
    and "0 \<le> now" and "now < 10 ^ 15"
  shows "UnixRangeAuth now (num_text (w_unix w)) = [] \<longleftrightarrow> \<bar>now - now_ms div 1000\<bar> < 20"
proof -
  define s where "s = now_ms div 1000"
  have s: "0 \<le> s" "s < 10 ^ 15" using clock_range [OF assms(2,3)] unfolding s_def by blast+
  have "w_unix w = Fin (of_int s)"
    using onRequest_unix [OF assms(1)] clock_seconds [OF assms(2,3)] unfolding s_def by (rule trans)
  then have hdr: "num_text (w_unix w) = show_uint s" using num_text_int [OF s] by (simp only:)
  have "verifyUnix (of_int now) (of_int s) \<longleftrightarrow> \<bar>now - s\<bar> < 20"
    by (rule verifyUnix_iff) (use assms(4,5) s in simp_all)
  then have "UnixRangeAuth now (show_uint s) = [] \<longleftrightarrow> \<bar>now - s\<bar> < 20"
    using show_uint_ne [of s] ParseInt_show [of s] s by (simp add: UnixRangeAuth_def)
  then show ?thesis unfolding hdr s_def .
qed

theorem clock_header_accepted_iff_witness:
  "UnixRangeAuth 20 (num_text (w_unix (the (onRequest std_cryptojs 1999 (client_init 0) (get_req []))))) = []"
proof -
  have "onRequest std_cryptojs 1999 (client_init 0) (get_req []) \<noteq> None"
    by (simp add: onRequest_def js_stringify_def Let_def)
  then obtain w where w: "onRequest std_cryptojs 1999 (client_init 0) (get_req []) = Some w" by blast
  from clock_header_accepted_iff [OF w, of 20] w show ?thesis by simp
qed

text \<open>
  A clock header that is not a number is not refused once but twice: the filter goes on after
  the error with the time 0, and aborts again with another status.
\<close>

theorem unreadable_clock_aborts_twice:
  assumes "hdr \<noteq> []" and "ParseInt hdr = (0, True)" and "20 \<le> now" and "now < 2 ^ 62"
  shows "UnixRangeAuth now hdr = [500, 400]"
  using assms verifyUnix_iff [of now 0] by (simp add: UnixRangeAuth_def)

theorem unreadable_clock_aborts_twice_witness: "UnixRangeAuth 1000 ''x'' = [500, 400]"
  by (rule unreadable_clock_aborts_twice) (simp_all add: ParseInt_def split_sign_def is_digit_def)

end
